(* ===== verification/Prelude.thy ===== *)
theory Prelude
  imports Main "HOL-Library.Word"
begin

text \<open>
  Shared vocabulary of the development: the decimal rendering of integers that
  \<^verbatim>\<open>fmt.Sprintf("%d", n)\<close> and \<^verbatim>\<open>fmt.Sscanf(s, "%d", &n)\<close> use, Go's truncating
  integer division, tables as lists of rows with the SQL-style bulk update, and small facts on
  lists and association lists. Every fact that the component proofs share is collected in
  one of the named collections below.
\<close>

named_theorems itoa_simps \<open>rendering of integers\<close>
named_theorems table_simps \<open>rows of tables\<close>

section \<open>Decimal rendering\<close>

definition digit_char :: "nat \<Rightarrow> char" where
  "digit_char d = char_of (48 + d)"

definition char_digit :: "char \<Rightarrow> nat" where
  "char_digit c = of_char c - 48"

definition is_digit :: "char \<Rightarrow> bool" where
  "is_digit c = (48 \<le> (of_char c :: nat) \<and> (of_char c :: nat) \<le> 57)"

fun ntoa :: "nat \<Rightarrow> string" where
  "ntoa n = (if n < 10 then [digit_char n] else ntoa (n div 10) @ [digit_char (n mod 10)])"

declare ntoa.simps [simp del]

definition aton :: "string \<Rightarrow> nat" where
  "aton s = foldl (\<lambda>a c. 10 * a + char_digit c) 0 s"

text \<open>\<^verbatim>\<open>Sprintf("%d", i)\<close>.\<close>

definition itoa :: "int \<Rightarrow> string" where
  "itoa i = (if i < 0 then CHR ''-'' # ntoa (nat (- i)) else ntoa (nat i))"

text \<open>
  \<^verbatim>\<open>Sscanf(s, "%d", &n)\<close> on a variable initialised to \<open>0\<close>: an optional sign and the longest run
  of digits; a string that does not start so leaves the variable at \<open>0\<close>.
\<close>

definition scan_digits :: "string \<Rightarrow> string" where
  "scan_digits s = takeWhile is_digit s"

definition sscanf_d :: "string \<Rightarrow> int" where
  "sscanf_d s =
     (case s of
        [] \<Rightarrow> 0
      | c # cs \<Rightarrow>
          if c = CHR ''-'' then - int (aton (scan_digits cs))
          else if c = CHR ''+'' then int (aton (scan_digits cs))
          else int (aton (scan_digits s)))"

lemma of_char_digit_char: "d < 10 \<Longrightarrow> (of_char (digit_char d) :: nat) = 48 + d"
  by (simp add: digit_char_def)

lemma char_digit_digit_char [simp]: "d < 10 \<Longrightarrow> char_digit (digit_char d) = d"
  by (simp add: char_digit_def of_char_digit_char)

lemma is_digit_digit_char [simp]: "d < 10 \<Longrightarrow> is_digit (digit_char d)"
  by (simp add: is_digit_def of_char_digit_char)

lemma is_digit_minus [simp]: "\<not> is_digit (CHR ''-'')"
  by (simp add: is_digit_def)

lemma is_digit_plus [simp]: "\<not> is_digit (CHR ''+'')"
  by (simp add: is_digit_def)

lemma is_digit_colon [simp]: "\<not> is_digit (CHR '':'')"
  by (simp add: is_digit_def)

lemma aton_snoc [simp]: "aton (s @ [c]) = 10 * aton s + char_digit c"
  by (simp add: aton_def)

lemma aton_ntoa [itoa_simps, simp]: "aton (ntoa n) = n"
proof (induction n rule: ntoa.induct)
  case (1 n)
  show ?case
  proof (cases "n < 10")
    case True
    then show ?thesis by (simp add: ntoa.simps [of n] aton_def)
  next
    case False
    with "1.IH" show ?thesis by (simp add: ntoa.simps [of n])
  qed
qed

lemma ntoa_digits: "c \<in> set (ntoa n) \<Longrightarrow> is_digit c"
proof (induction n rule: ntoa.induct)
  case (1 n)
  then show ?case
    by (cases "n < 10") (auto simp: ntoa.simps [of n])
qed

lemma ntoa_nonempty [simp]: "ntoa n \<noteq> []"
  by (simp add: ntoa.simps [of n])

lemma ntoa_inj [simp]: "ntoa m = ntoa n \<longleftrightarrow> m = n"
  by (metis aton_ntoa)

lemma ntoa_no_minus [simp]: "ntoa n \<noteq> CHR ''-'' # s" "CHR ''-'' # s \<noteq> ntoa n"
proof -
  have "CHR ''-'' \<notin> set (ntoa n)" using ntoa_digits is_digit_minus by blast
  then show "ntoa n \<noteq> CHR ''-'' # s" "CHR ''-'' # s \<noteq> ntoa n"
    by (metis list.set_intros(1))+
qed

lemma itoa_inj [simp]: "itoa i = itoa j \<longleftrightarrow> i = j"
  by (auto simp: itoa_def)

lemma itoa_nonempty [simp]: "itoa i \<noteq> []"
  by (simp add: itoa_def)

lemma itoa_no_colon: "CHR '':'' \<notin> set (itoa i)"
proof -
  have "CHR '':'' \<notin> set (ntoa n)" for n using ntoa_digits is_digit_colon by blast
  then show ?thesis by (simp add: itoa_def)
qed

lemma scan_digits_ntoa [simp]: "scan_digits (ntoa n) = ntoa n"
  by (auto simp: scan_digits_def takeWhile_eq_all_conv dest: ntoa_digits)

lemma sscanf_itoa [itoa_simps, simp]: "sscanf_d (itoa i) = i"
proof (cases "i < 0")
  case True
  then show ?thesis by (simp add: itoa_def sscanf_d_def)
next
  case False
  obtain c cs where ccs: "ntoa (nat i) = c # cs"
    by (meson ntoa_nonempty neq_Nil_conv)
  then have "is_digit c" using ntoa_digits [of c "nat i"] by simp
  then have "c \<noteq> CHR ''-''" "c \<noteq> CHR ''+''" using is_digit_minus is_digit_plus by metis+
  moreover have "scan_digits (c # cs) = c # cs" using scan_digits_ntoa [of "nat i"] ccs by simp
  moreover have "aton (c # cs) = nat i" using aton_ntoa [of "nat i"] ccs by simp
  ultimately show ?thesis using False ccs by (simp add: itoa_def sscanf_d_def)
qed

text \<open>
  Keys are built by joining rendered integers with colons; splitting at the first colon takes
  them apart again, which is what makes two keys of one family differ when their numbers do.
\<close>

lemma colon_split_inj:
  assumes "CHR '':'' \<notin> set a" "CHR '':'' \<notin> set b"
    and "a @ CHR '':'' # s = b @ CHR '':'' # t"
  shows "a = b \<and> s = t"
proof -
  have "takeWhile (\<lambda>c. c \<noteq> CHR '':'') (a @ CHR '':'' # s) = a"
    using assms(1) by (subst takeWhile_append2) auto
  moreover have "takeWhile (\<lambda>c. c \<noteq> CHR '':'') (b @ CHR '':'' # t) = b"
    using assms(2) by (subst takeWhile_append2) auto
  ultimately show ?thesis using assms(3) by auto
qed

lemma itoa_colon_inj [simp]:
  "itoa i @ CHR '':'' # s = itoa j @ CHR '':'' # t \<longleftrightarrow> i = j \<and> s = t"
  using colon_split_inj [OF itoa_no_colon itoa_no_colon] by (metis itoa_inj)

lemma itoa_colon_neq [simp]: "itoa i @ CHR '':'' # s \<noteq> itoa j" "itoa j \<noteq> itoa i @ CHR '':'' # s"
  using itoa_no_colon [of j] by (metis in_set_conv_decomp)+

section \<open>Go integer division\<close>

definition go_div :: "int \<Rightarrow> int \<Rightarrow> int" where
  "go_div a b = sgn a * sgn b * (\<bar>a\<bar> div \<bar>b\<bar>)"

lemma go_div_nonneg [simp]: "0 \<le> a \<Longrightarrow> 0 < b \<Longrightarrow> go_div a b = a div b"
  by (cases "a = 0") (simp_all add: go_div_def)

section \<open>Slices and batches\<close>

text \<open>\<open>batches n xs\<close>: the slices \<^verbatim>\<open>xs[i : min(i+n, len)]\<close> for \<open>i = 0, n, 2n, \<dots>\<close>.\<close>

fun batches :: "nat \<Rightarrow> 'a list \<Rightarrow> 'a list list" where
  "batches n [] = []"
| "batches n (x # xs) =
     (if n = 0 then [x # xs] else take n (x # xs) # batches n (drop n (x # xs)))"

lemma concat_batches [simp]: "concat (batches n xs) = xs"
  by (induction n xs rule: batches.induct) auto

lemma batches_length: "0 < n \<Longrightarrow> b \<in> set (batches n xs) \<Longrightarrow> 0 < length b \<and> length b \<le> n"
  by (induction n xs rule: batches.induct) (auto split: if_splits)

section \<open>Association lists with distinct keys\<close>

fun aset :: "'k \<Rightarrow> 'v \<Rightarrow> ('k \<times> 'v) list \<Rightarrow> ('k \<times> 'v) list" where
  "aset k v [] = [(k, v)]"
| "aset k v ((k', v') # xs) = (if k = k' then (k, v) # xs else (k', v') # aset k v xs)"

fun adel :: "'k \<Rightarrow> ('k \<times> 'v) list \<Rightarrow> ('k \<times> 'v) list" where
  "adel k [] = []"
| "adel k ((k', v') # xs) = (if k = k' then xs else (k', v') # adel k xs)"

lemma map_of_aset [simp]: "map_of (aset k v xs) = (map_of xs)(k \<mapsto> v)"
  by (induction k v xs rule: aset.induct) auto

lemma keys_aset: "fst ` set (aset k v xs) = insert k (fst ` set xs)"
  by (induction k v xs rule: aset.induct) auto

lemma distinct_aset [simp]: "distinct (map fst xs) \<Longrightarrow> distinct (map fst (aset k v xs))"
proof (induction k v xs rule: aset.induct)
  case (2 k v k' v' xs)
  then show ?case using keys_aset [of k v xs] by (auto simp flip: set_map)
qed simp

section \<open>Tables as lists of rows\<close>

text \<open>
  A relational table is the list of its rows. \<open>update_where c f\<close> is
  \<^verbatim>\<open>UPDATE t SET f WHERE c\<close>: every row is decided and rewritten from its own old value.
\<close>

definition update_where :: "('r \<Rightarrow> bool) \<Rightarrow> ('r \<Rightarrow> 'r) \<Rightarrow> 'r list \<Rightarrow> 'r list" where
  "update_where c f t = map (\<lambda>r. if c r then f r else r) t"

lemma length_update_where [table_simps, simp]: "length (update_where c f t) = length t"
  by (simp add: update_where_def)

lemma update_where_Nil [table_simps, simp]: "update_where c f [] = []"
  by (simp add: update_where_def)

lemma update_where_Cons [table_simps, simp]:
  "update_where c f (r # t) = (if c r then f r else r) # update_where c f t"
  by (simp add: update_where_def)

lemma set_update_where [table_simps]:
  "set (update_where c f t) = (\<lambda>r. if c r then f r else r) ` set t"
  by (simp add: update_where_def)

lemma update_where_mem:
  "r \<in> set (update_where c f t) \<Longrightarrow> \<exists>r0 \<in> set t. r = (if c r0 then f r0 else r0)"
  by (auto simp: update_where_def)

lemma update_where_keys [table_simps]:
  "(\<And>r. k (f r) = k r) \<Longrightarrow> map k (update_where c f t) = map k t"
  by (induction t) auto

text \<open>\<^verbatim>\<open>First(&row, id)\<close>: the row with that primary key.\<close>

definition find_row :: "('r \<Rightarrow> int) \<Rightarrow> int \<Rightarrow> 'r list \<Rightarrow> 'r option" where
  "find_row k i t = find (\<lambda>r. k r = i) t"

lemma find_row_Nil [simp]: "find_row k i [] = None"
  by (simp add: find_row_def)

lemma find_row_Cons [simp]:
  "find_row k i (r # t) = (if k r = i then Some r else find_row k i t)"
  by (simp add: find_row_def)

lemma find_row_SomeD: "find_row k i t = Some r \<Longrightarrow> r \<in> set t \<and> k r = i"
  by (induction t) (auto split: if_splits)

lemma find_row_None: "find_row k i t = None \<longleftrightarrow> i \<notin> k ` set t"
  by (induction t) auto

lemma find_row_unique:
  "distinct (map k t) \<Longrightarrow> r \<in> set t \<Longrightarrow> find_row k (k r) t = Some r"
  by (induction t) force+

lemma find_row_update_where [table_simps]:
  assumes "\<And>r. k (f r) = k r"
  shows "find_row k i (update_where c f t) =
    map_option (\<lambda>r. if c r then f r else r) (find_row k i t)"
  by (induction t) (auto simp: assms)

text \<open>
  \<^verbatim>\<open>INSERT \<dots> ON CONFLICT (key) DO NOTHING\<close> and
  \<^verbatim>\<open>ON CONFLICT (key) DO UPDATE SET \<dots>\<close>, the update taking the old row and the rejected
  one.
\<close>

definition insert_do_nothing :: "('r \<Rightarrow> int) \<Rightarrow> 'r \<Rightarrow> 'r list \<Rightarrow> 'r list" where
  "insert_do_nothing k r t = (if k r \<in> k ` set t then t else t @ [r])"

definition upsert :: "('r \<Rightarrow> int) \<Rightarrow> ('r \<Rightarrow> 'r \<Rightarrow> 'r) \<Rightarrow> 'r \<Rightarrow> 'r list \<Rightarrow> 'r list" where
  "upsert k f r t =
     (if k r \<in> k ` set t then update_where (\<lambda>old. k old = k r) (\<lambda>old. f old r) t else t @ [r])"

lemma find_row_append [simp]:
  "find_row k i (t @ u) = (case find_row k i t of None \<Rightarrow> find_row k i u | Some r \<Rightarrow> Some r)"
  by (induction t) auto

lemma find_row_insert_do_nothing:
  "find_row k i (insert_do_nothing k r t) =
     (case find_row k i t of Some r' \<Rightarrow> Some r' | None \<Rightarrow> if k r = i then Some r else None)"
  using find_row_None [of k "k r" t]
  by (auto simp: insert_do_nothing_def split: option.split)

lemma find_row_upsert:
  assumes "\<And>old. k (f old r) = k old"
  shows "find_row k i (upsert k f r t) =
     (if i = k r then Some (case find_row k i t of None \<Rightarrow> r | Some old \<Rightarrow> f old r)
      else find_row k i t)"
proof (cases "k r \<in> k ` set t")
  case True
  then have "find_row k (k r) t \<noteq> None" by (simp add: find_row_None)
  with True show ?thesis
    by (cases "find_row k i t")
      (auto simp: upsert_def find_row_update_where assms dest: find_row_SomeD)
next
  case False
  then have "find_row k (k r) t = None" by (simp add: find_row_None)
  with False show ?thesis by (auto simp: upsert_def split: option.split)
qed

lemma distinct_insert_do_nothing:
  "distinct (map k t) \<Longrightarrow> distinct (map k (insert_do_nothing k r t))"
  by (auto simp: insert_do_nothing_def)

lemma distinct_upsert:
  assumes "\<And>old. k (f old r) = k old" "distinct (map k t)"
  shows "distinct (map k (upsert k f r t))"
  using assms by (auto simp: upsert_def update_where_keys)

end
