(* ===== verification/Models.thy ===== *)
theory Models
  imports Prelude
begin

text \<open>
  The data of \<^verbatim>\<open>backend/go-app/models\<close>: job statuses, the three task structs of
  \<^verbatim>\<open>tasks.go\<close> and the Postgres rows of \<^verbatim>\<open>postgres.go\<close>. A \<^verbatim>\<open>time.Time\<close> is an integer
  number of nanoseconds with \<open>0\<close> for the zero time (\<^verbatim>\<open>IsZero\<close>); a pointer field is an
  \<open>option\<close>. The Go ints hold identifiers and counters far below the 64-bit bound and are HOL
  integers. The \<^verbatim>\<open>Metadata\<close> and \<^verbatim>\<open>Job\<close> associations that GORM preloads are reached through
  their foreign keys.
\<close>

type_synonym time = int

text \<open>\<^verbatim>\<open>JobStatus\<close> is a Go string type; task statuses are plain strings.\<close>

type_synonym status = string

abbreviation StatusPending :: status where "StatusPending \<equiv> ''PENDING''"
abbreviation StatusRunning :: status where "StatusRunning \<equiv> ''RUNNING''"
abbreviation StatusPaused :: status where "StatusPaused \<equiv> ''PAUSED''"
abbreviation StatusStopped :: status where "StatusStopped \<equiv> ''STOPPED''"
abbreviation StatusCompleted :: status where "StatusCompleted \<equiv> ''COMPLETED''"
abbreviation StatusPhasedCompleted :: status where "StatusPhasedCompleted \<equiv> ''PHASEDCOMPLETED''"
abbreviation StatusFailed :: status where "StatusFailed \<equiv> ''FAILED''"
abbreviation StatusScanning :: status where "StatusScanning \<equiv> ''SCANNING''"

text \<open>\<^verbatim>\<open>tasks.go\<close>\<close>

record youtube_task =
  yt_ID :: int
  yt_JobID :: int
  yt_URL :: string
  yt_AudioURL :: string
  yt_AudioSize :: int
  yt_VideoURL :: string
  yt_VideoSize :: int
  yt_Status :: status
  yt_Title :: string
  yt_VideoID :: string
  yt_ErrorMessage :: string
  yt_WorkerID :: string
  yt_IsDownloadFail :: bool
  yt_StartedAt :: time
  yt_CompletedAt :: time
  yt_CreatedAt :: time
  yt_UpdatedAt :: time

record transfer_task =
  tt_ID :: int
  tt_JobID :: int
  tt_Src :: string
  tt_Size :: int
  tt_Status :: status
  tt_ErrorMessage :: string
  tt_WorkerID :: string
  tt_StartedAt :: time
  tt_CompletedAt :: time
  tt_CreatedAt :: time
  tt_UpdatedAt :: time
  tt_RetryCount :: int
  tt_LastRetryTime :: string

record ffmpeg_task =
  ft_ID :: int
  ft_JobID :: int
  ft_S3Endpoint :: string
  ft_S3Bucket :: string
  ft_S3Prefix :: string
  ft_S3UploadPrefix :: string
  ft_S3AK :: string
  ft_S3SK :: string
  ft_Region :: string
  ft_IsIncremental :: bool
  ft_Status :: status
  ft_ErrorMessage :: string
  ft_VideoSize :: int
  ft_AudioSize :: int
  ft_WorkerID :: string
  ft_StartedAt :: time
  ft_CompletedAt :: time
  ft_CreatedAt :: time
  ft_UpdatedAt :: time
  ft_TotalCount :: int
  ft_SuccessCount :: int
  ft_FailedCount :: int

text \<open>The zero value of each struct, from which a Go composite literal starts.\<close>

definition YoutubeTask0 :: youtube_task where
  "YoutubeTask0 = \<lparr>yt_ID = 0, yt_JobID = 0, yt_URL = [], yt_AudioURL = [], yt_AudioSize = 0,
     yt_VideoURL = [], yt_VideoSize = 0, yt_Status = [], yt_Title = [], yt_VideoID = [],
     yt_ErrorMessage = [], yt_WorkerID = [], yt_IsDownloadFail = False, yt_StartedAt = 0,
     yt_CompletedAt = 0, yt_CreatedAt = 0, yt_UpdatedAt = 0\<rparr>"

definition TransferTask0 :: transfer_task where
  "TransferTask0 = \<lparr>tt_ID = 0, tt_JobID = 0, tt_Src = [], tt_Size = 0, tt_Status = [],
     tt_ErrorMessage = [], tt_WorkerID = [], tt_StartedAt = 0, tt_CompletedAt = 0,
     tt_CreatedAt = 0, tt_UpdatedAt = 0, tt_RetryCount = 0, tt_LastRetryTime = []\<rparr>"

definition FfmpegTask0 :: ffmpeg_task where
  "FfmpegTask0 = \<lparr>ft_ID = 0, ft_JobID = 0, ft_S3Endpoint = [], ft_S3Bucket = [],
     ft_S3Prefix = [], ft_S3UploadPrefix = [], ft_S3AK = [], ft_S3SK = [], ft_Region = [],
     ft_IsIncremental = False, ft_Status = [], ft_ErrorMessage = [], ft_VideoSize = 0,
     ft_AudioSize = 0, ft_WorkerID = [], ft_StartedAt = 0, ft_CompletedAt = 0, ft_CreatedAt = 0,
     ft_UpdatedAt = 0, ft_TotalCount = 0, ft_SuccessCount = 0, ft_FailedCount = 0\<rparr>"

text \<open>\<^verbatim>\<open>postgres.go\<close>\<close>

record transfer_job =
  tj_JobID :: int
  tj_MetadataID :: int
  tj_SrcDir :: string
  tj_DstDir :: string
  tj_Include :: string
  tj_Exclude :: string
  tj_DeleteSource :: bool
  tj_IsIncremental :: bool
  tj_PeriodicInterval :: int
  tj_LastScanTime :: "time option"
  tj_LastScannedKey :: "string option"
  tj_Status :: status
  tj_StartTime :: "time option"
  tj_EndTime :: "time option"
  tj_DurationSeconds :: int
  tj_ExecutionCount :: int
  tj_ConsecutiveIdleScans :: int
  tj_TotalCount :: int
  tj_PendingCount :: int
  tj_RunningCount :: int
  tj_SuccessCount :: int
  tj_FailedCount :: int
  tj_TotalSizeBytes :: int
  tj_SuccessSizeBytes :: int
  tj_ResultMessage :: string
  tj_RedisCleaned :: bool
  tj_CreatedAt :: time
  tj_UpdatedAt :: time

record youtube_job =
  yj_ID :: int
  yj_R2Prefix :: string
  yj_DownloadMode :: string
  yj_VideoSelectionStrategy :: string
  yj_MachineName :: string
  yj_Status :: status
  yj_TotalCount :: int
  yj_PendingCount :: int
  yj_RunningCount :: int
  yj_SuccessCount :: int
  yj_FailedCount :: int
  yj_TotalSizeBytes :: int
  yj_SuccessSizeBytes :: int
  yj_CreatedAt :: time

record ffmpeg_job =
  fj_ID :: int
  fj_MetadataID :: int
  fj_S3Prefix :: string
  fj_S3UploadPrefix :: string
  fj_IsIncremental :: bool
  fj_PeriodicInterval :: int
  fj_LastScanTime :: "time option"
  fj_LastScannedKey :: "string option"
  fj_Status :: status
  fj_TotalCount :: int
  fj_PendingCount :: int
  fj_RunningCount :: int
  fj_SuccessCount :: int
  fj_FailedCount :: int
  fj_TotalSizeBytes :: int
  fj_SuccessSizeBytes :: int
  fj_CreatedAt :: time
  fj_UpdatedAt :: time

record pipeline_job =
  pj_ID :: int
  pj_Name :: string
  pj_Status :: status
  pj_YoutubeJobID :: int
  pj_TransferJobID :: int
  pj_FfmpegJobID :: int
  pj_YoutubeURLs :: string
  pj_CreatedAt :: time
  pj_UpdatedAt :: time

record youtube_task_record =
  yr_ID :: int
  yr_JobID :: int
  yr_Status :: status
  yr_WorkerID :: string
  yr_URL :: string
  yr_Title :: string
  yr_VideoID :: string
  yr_AudioURL :: string
  yr_AudioSize :: int
  yr_VideoURL :: string
  yr_VideoSize :: int
  yr_ErrorMessage :: string
  yr_CreatedAt :: time
  yr_UpdatedAt :: time

definition YoutubeTaskRecord0 :: youtube_task_record where
  "YoutubeTaskRecord0 = \<lparr>yr_ID = 0, yr_JobID = 0, yr_Status = [], yr_WorkerID = [], yr_URL = [],
     yr_Title = [], yr_VideoID = [], yr_AudioURL = [], yr_AudioSize = 0, yr_VideoURL = [],
     yr_VideoSize = 0, yr_ErrorMessage = [], yr_CreatedAt = 0, yr_UpdatedAt = 0\<rparr>"

definition TransferJob0 :: transfer_job where
  "TransferJob0 = \<lparr>tj_JobID = 0, tj_MetadataID = 0, tj_SrcDir = [], tj_DstDir = [],
     tj_Include = [], tj_Exclude = [], tj_DeleteSource = False, tj_IsIncremental = False,
     tj_PeriodicInterval = 0, tj_LastScanTime = None, tj_LastScannedKey = None, tj_Status = [],
     tj_StartTime = None, tj_EndTime = None, tj_DurationSeconds = 0, tj_ExecutionCount = 0,
     tj_ConsecutiveIdleScans = 0, tj_TotalCount = 0, tj_PendingCount = 0, tj_RunningCount = 0,
     tj_SuccessCount = 0, tj_FailedCount = 0, tj_TotalSizeBytes = 0, tj_SuccessSizeBytes = 0,
     tj_ResultMessage = [], tj_RedisCleaned = False, tj_CreatedAt = 0, tj_UpdatedAt = 0\<rparr>"

definition YoutubeJob0 :: youtube_job where
  "YoutubeJob0 = \<lparr>yj_ID = 0, yj_R2Prefix = [], yj_DownloadMode = [],
     yj_VideoSelectionStrategy = [], yj_MachineName = [], yj_Status = [], yj_TotalCount = 0,
     yj_PendingCount = 0, yj_RunningCount = 0, yj_SuccessCount = 0, yj_FailedCount = 0,
     yj_TotalSizeBytes = 0, yj_SuccessSizeBytes = 0, yj_CreatedAt = 0\<rparr>"

definition FfmpegJob0 :: ffmpeg_job where
  "FfmpegJob0 = \<lparr>fj_ID = 0, fj_MetadataID = 0, fj_S3Prefix = [], fj_S3UploadPrefix = [],
     fj_IsIncremental = False, fj_PeriodicInterval = 0, fj_LastScanTime = None,
     fj_LastScannedKey = None, fj_Status = [], fj_TotalCount = 0, fj_PendingCount = 0,
     fj_RunningCount = 0, fj_SuccessCount = 0, fj_FailedCount = 0, fj_TotalSizeBytes = 0,
     fj_SuccessSizeBytes = 0, fj_CreatedAt = 0, fj_UpdatedAt = 0\<rparr>"

end
