(* ===== verification/StatusCounters.thy ===== *)
theory StatusCounters
  imports Models
begin

text \<open>
  The counters of \<^verbatim>\<open>task_handler.go\<close>: \<^verbatim>\<open>trackStatusChange\<close> and \<^verbatim>\<open>trackTxStatusChange\<close> collect
  per-job deltas in a process-wide map, and \<^verbatim>\<open>flushStats\<close> / \<^verbatim>\<open>flushTxStats\<close> add them to the
  rows of \<^verbatim>\<open>youtube_jobs\<close> and \<^verbatim>\<open>transfer_jobs\<close> once a second. The contract both trackers share is
  the locale \<open>delta_tracker\<close>; its client lemmas say that a chain of status changes telescopes
  and that the counters keep matching the tasks. The interleavings of tracking and flushing are
  the theory \<^verbatim>\<open>CounterRuns\<close>.
\<close>

named_theorems counter_simps \<open>status counters\<close>

section \<open>Deltas\<close>

record JobDelta =
  Pending :: int
  Running :: int
  Success :: int
  Failed :: int

definition JobDelta0 :: JobDelta where
  "JobDelta0 = \<lparr>Pending = 0, Running = 0, Success = 0, Failed = 0\<rparr>"

type_synonym stats_buffer = "(int \<times> JobDelta) list"

text \<open>The status of a task as the counters see it: every other status counts as running.\<close>

definition getBucket :: "status \<Rightarrow> string" where
  "getBucket s =
     (if s = ''PENDING'' then ''PENDING''
      else if s = ''COMPLETED'' then ''COMPLETED''
      else if s = ''FAILED'' then ''FAILED''
      else ''RUNNING'')"

definition bump_bucket :: "string \<Rightarrow> int \<Rightarrow> JobDelta \<Rightarrow> JobDelta" where
  "bump_bucket b n d =
     (if b = ''PENDING'' then d\<lparr>Pending := Pending d + n\<rparr>
      else if b = ''RUNNING'' then d\<lparr>Running := Running d + n\<rparr>
      else if b = ''COMPLETED'' then d\<lparr>Success := Success d + n\<rparr>
      else if b = ''FAILED'' then d\<lparr>Failed := Failed d + n\<rparr>
      else d)"

text \<open>
  Both trackers: equal statuses change nothing; otherwise the job gets a zero entry if it has
  none, and when the buckets differ the old one is decremented and the new one incremented. The
  Prometheus counter is not part of the state.
\<close>

definition trackStatusChange ::
  "int \<Rightarrow> status \<Rightarrow> status \<Rightarrow> stats_buffer \<Rightarrow> stats_buffer" where
  "trackStatusChange jobID oldStatus newStatus buf =
     (if oldStatus = newStatus then buf
      else let buf' = (if map_of buf jobID = None then aset jobID JobDelta0 buf else buf);
               d = the (map_of buf' jobID);
               oldBucket = getBucket oldStatus; newBucket = getBucket newStatus
           in if oldBucket = newBucket then buf'
              else aset jobID (bump_bucket newBucket 1 (bump_bucket oldBucket (-1) d)) buf')"

definition trackTxStatusChange ::
  "int \<Rightarrow> status \<Rightarrow> status \<Rightarrow> stats_buffer \<Rightarrow> stats_buffer" where
  "trackTxStatusChange jobID oldStatus newStatus buf =
     (if oldStatus = newStatus then buf
      else let buf' = (if map_of buf jobID = None then aset jobID JobDelta0 buf else buf);
               d = the (map_of buf' jobID);
               oldBucket = getBucket oldStatus; newBucket = getBucket newStatus
           in if oldBucket = newBucket then buf'
              else aset jobID (bump_bucket newBucket 1 (bump_bucket oldBucket (-1) d)) buf')"

section \<open>Flushing\<close>

text \<open>
  The \<^verbatim>\<open>UPDATE youtube_jobs\<close> of \<^verbatim>\<open>flushStats\<close>: every right-hand side reads the old row. The
  completion test adds the deltas to the success and failure counts without clamping.
\<close>

definition flush_yt_row :: "JobDelta \<Rightarrow> youtube_job \<Rightarrow> youtube_job" where
  "flush_yt_row d j =
     j\<lparr>yj_PendingCount := max 0 (yj_PendingCount j + Pending d),
       yj_RunningCount := max 0 (yj_RunningCount j + Running d),
       yj_SuccessCount := max 0 (yj_SuccessCount j + Success d),
       yj_FailedCount := max 0 (yj_FailedCount j + Failed d),
       yj_Status :=
         (if yj_Status j = ''PENDING'' \<and> max 0 (yj_RunningCount j + Running d) > 0
          then ''RUNNING''
          else if yj_Status j = ''RUNNING'' \<and> max 0 (yj_PendingCount j + Pending d) \<le> 0
                  \<and> max 0 (yj_RunningCount j + Running d) \<le> 0
                  \<and> yj_SuccessCount j + yj_FailedCount j + Success d + Failed d > 0
          then ''COMPLETED''
          else yj_Status j)\<rparr>"

text \<open>
  \<open>dbErr jobID\<close> says that the statement for that job fails; its error is ignored, so that
  delta is lost. The buffer is cleared before the statements run.
\<close>

fun flush_snapshot ::
  "('d \<Rightarrow> 'r \<Rightarrow> 'r) \<Rightarrow> ('r \<Rightarrow> int) \<Rightarrow> (int \<Rightarrow> bool) \<Rightarrow> (int \<times> 'd) list \<Rightarrow> 'r list \<Rightarrow> 'r list" where
  "flush_snapshot upd k dbErr [] rows = rows"
| "flush_snapshot upd k dbErr ((jobID, delta) # rest) rows =
     flush_snapshot upd k dbErr rest
       (if dbErr jobID then rows else update_where (\<lambda>j. k j = jobID) (upd delta) rows)"

definition flushStats ::
  "(int \<Rightarrow> bool) \<Rightarrow> stats_buffer \<times> youtube_job list \<Rightarrow> stats_buffer \<times> youtube_job list" where
  "flushStats dbErr st =
     (case st of (buf, jobs) \<Rightarrow>
        if buf = [] then (buf, jobs)
        else ([], flush_snapshot flush_yt_row yj_ID dbErr buf jobs))"

definition flush_tx_row :: "JobDelta \<Rightarrow> transfer_job \<Rightarrow> transfer_job" where
  "flush_tx_row d j =
     j\<lparr>tj_PendingCount := max 0 (tj_PendingCount j + Pending d),
       tj_RunningCount := max 0 (tj_RunningCount j + Running d),
       tj_SuccessCount := max 0 (tj_SuccessCount j + Success d),
       tj_FailedCount := max 0 (tj_FailedCount j + Failed d),
       tj_Status :=
         (if tj_Status j \<in> {''PENDING'', ''PHASEDCOMPLETED''}
             \<and> max 0 (tj_RunningCount j + Running d) > 0
          then ''RUNNING'' else tj_Status j)\<rparr>"

definition flushTxStats ::
  "(int \<Rightarrow> bool) \<Rightarrow> stats_buffer \<times> transfer_job list \<Rightarrow> stats_buffer \<times> transfer_job list" where
  "flushTxStats dbErr st =
     (case st of (buf, jobs) \<Rightarrow>
        if buf = [] then (buf, jobs)
        else ([], flush_snapshot flush_tx_row tj_JobID dbErr buf jobs))"

section \<open>The tracker contract\<close>

text \<open>What the buffer holds for a job and a bucket.\<close>

definition delta_get :: "JobDelta \<Rightarrow> string \<Rightarrow> int" where
  "delta_get d b =
     (if b = ''PENDING'' then Pending d else if b = ''RUNNING'' then Running d
      else if b = ''COMPLETED'' then Success d else if b = ''FAILED'' then Failed d else 0)"

definition net :: "stats_buffer \<Rightarrow> int \<Rightarrow> string \<Rightarrow> int" where
  "net buf j b = (case map_of buf j of None \<Rightarrow> 0 | Some d \<Rightarrow> delta_get d b)"

definition in_bucket :: "string \<Rightarrow> status \<Rightarrow> int" where
  "in_bucket b s = (if getBucket s = b then 1 else 0)"

definition net_total :: "stats_buffer \<Rightarrow> int \<Rightarrow> int" where
  "net_total buf j =
     net buf j ''PENDING'' + net buf j ''RUNNING'' + net buf j ''COMPLETED'' + net buf j ''FAILED''"

definition bucket_count :: "string \<Rightarrow> status list \<Rightarrow> int" where
  "bucket_count b ss = int (length (filter (\<lambda>s. getBucket s = b) ss))"

lemma getBucket_cases:
  "getBucket s = ''PENDING'' \<or> getBucket s = ''RUNNING'' \<or> getBucket s = ''COMPLETED''
     \<or> getBucket s = ''FAILED''"
  by (simp add: getBucket_def)

lemma delta_get_bump [counter_simps]:
  "delta_get (bump_bucket (getBucket s) n d) b = delta_get d b + n * in_bucket b s"
  by (simp add: delta_get_def bump_bucket_def in_bucket_def getBucket_def)

lemma delta_get_0 [counter_simps, simp]: "delta_get JobDelta0 b = 0"
  by (simp add: delta_get_def JobDelta0_def)

lemma net_Nil [counter_simps, simp]: "net [] j b = 0"
  by (simp add: net_def)

lemma net_aset [counter_simps]:
  "net (aset j d buf) k b = (if k = j then delta_get d b else net buf k b)"
  by (simp add: net_def)

lemma in_bucket_total:
  "in_bucket ''PENDING'' s + in_bucket ''RUNNING'' s + in_bucket ''COMPLETED'' s
     + in_bucket ''FAILED'' s = 1"
  by (simp add: in_bucket_def getBucket_def)

lemma bucket_count_append [counter_simps]:
  "bucket_count b (ss @ ts) = bucket_count b ss + bucket_count b ts"
  by (simp add: bucket_count_def)

lemma bucket_count_Cons [counter_simps]:
  "bucket_count b (s # ss) = in_bucket b s + bucket_count b ss"
  by (simp add: bucket_count_def in_bucket_def)

lemma bucket_count_Nil [counter_simps, simp]: "bucket_count b [] = 0"
  by (simp add: bucket_count_def)

lemma bucket_count_update [counter_simps]:
  "i < length ss \<Longrightarrow>
     bucket_count b (ss[i := s]) = bucket_count b ss - in_bucket b (ss ! i) + in_bucket b s"
proof (induction ss arbitrary: i)
  case (Cons x xs)
  then show ?case by (cases i) (auto simp: bucket_count_Cons)
qed simp

lemma bucket_count_nonneg [simp]: "0 \<le> bucket_count b ss"
  by (simp add: bucket_count_def)

text \<open>A chain of status changes of one task, each tracked from the status before it.\<close>

primrec track_path ::
  "(int \<Rightarrow> status \<Rightarrow> status \<Rightarrow> stats_buffer \<Rightarrow> stats_buffer) \<Rightarrow> int \<Rightarrow> status \<Rightarrow> status list
     \<Rightarrow> stats_buffer \<Rightarrow> stats_buffer" where
  "track_path track j s [] buf = buf"
| "track_path track j s (s' # ss) buf = track_path track j s' ss (track j s s' buf)"

locale delta_tracker =
  fixes track :: "int \<Rightarrow> status \<Rightarrow> status \<Rightarrow> stats_buffer \<Rightarrow> stats_buffer"
  assumes net_track:
    "net (track j old new buf) k b =
       net buf k b + (if k = j then in_bucket b new - in_bucket b old else 0)"
    and keys_track: "distinct (map fst buf) \<Longrightarrow> distinct (map fst (track j old new buf))"
begin

lemma path_telescopes:
  "net (track_path track j s ss buf) k b =
     net buf k b + (if k = j then in_bucket b (last (s # ss)) - in_bucket b s else 0)"
  by (induction ss arbitrary: s buf) (auto simp: net_track)

lemma total_conserved: "net_total (track j old new buf) k = net_total buf k"
  using in_bucket_total [of old] in_bucket_total [of new]
  by (simp add: net_total_def net_track)

lemma change_matches:
  assumes "i < length ss" "base b + net buf j b = bucket_count b ss"
  shows "base b + net (track j (ss ! i) s' buf) j b = bucket_count b (ss[i := s'])"
  using assms by (simp add: net_track bucket_count_update)

end

lemma track_yt_net:
  "net (trackStatusChange j old new buf) k b =
     net buf k b + (if k = j then in_bucket b new - in_bucket b old else 0)"
  by (auto simp: trackStatusChange_def Let_def net_aset delta_get_bump in_bucket_def net_def
      split: option.splits)

lemma track_tx_net:
  "net (trackTxStatusChange j old new buf) k b =
     net buf k b + (if k = j then in_bucket b new - in_bucket b old else 0)"
  by (auto simp: trackTxStatusChange_def Let_def net_aset delta_get_bump in_bucket_def net_def
      split: option.splits)

interpretation yt_tracker: delta_tracker trackStatusChange
  by unfold_locales (simp add: track_yt_net, simp add: trackStatusChange_def Let_def)

interpretation tx_tracker: delta_tracker trackTxStatusChange
  by unfold_locales (simp add: track_tx_net, simp add: trackTxStatusChange_def Let_def)

section \<open>Properties\<close>

text \<open>C3: Tracking a task through a chain of statuses leaves in the buffer only the difference
between its last and its first bucket, and the sum of a job's four deltas never moves, for the
YouTube and for the transfer tracker.\<close>

theorem tracking_telescopes_and_conserves:
  "net (track_path trackStatusChange j s ss buf) k b =
     net buf k b + (if k = j then in_bucket b (last (s # ss)) - in_bucket b s else 0)
   \<and> net (track_path trackTxStatusChange j s ss buf) k b =
     net buf k b + (if k = j then in_bucket b (last (s # ss)) - in_bucket b s else 0)
   \<and> net_total (trackStatusChange j old new buf) k = net_total buf k
   \<and> net_total (trackTxStatusChange j old new buf) k = net_total buf k"
  by (intro conjI yt_tracker.path_telescopes tx_tracker.path_telescopes
      yt_tracker.total_conserved tx_tracker.total_conserved)

end
