(* ===== verification/CounterRuns.thy ===== *)
theory CounterRuns
  imports StatusCounters
begin

text \<open>
  Tracking and flushing interleaved. A status change of a task is two things in the code, the
  new document in Redis and the call of \<^verbatim>\<open>trackStatusChange\<close>, and a flush is several: it takes
  the buffer under the lock and then runs one \<^verbatim>\<open>UPDATE\<close> per job without it. All of them are
  separate steps here, for one job: what happens to other jobs is arbitrary, and their
  statements may fail. \<open>cs_tasks\<close> are the statuses in Redis, \<open>cs_seen\<close> the statuses as the calls of
  \<^verbatim>\<open>trackStatusChange\<close> left them, \<open>cs_sent\<close> what a flush has taken and not yet written. The
  conditions under which the row of a job counts its tasks are the steps of \<open>counter_step\<close>; the
  last section shows that the rows drift where they do not hold.
\<close>

section \<open>Steps\<close>

definition row_count :: "string \<Rightarrow> youtube_job \<Rightarrow> int" where
  "row_count b j =
     (if b = ''PENDING'' then yj_PendingCount j else if b = ''RUNNING'' then yj_RunningCount j
      else if b = ''COMPLETED'' then yj_SuccessCount j
      else if b = ''FAILED'' then yj_FailedCount j else 0)"

record counter_state =
  cs_jobs :: "youtube_job list"
  cs_buf :: stats_buffer
  cs_sent :: stats_buffer
  cs_tasks :: "int \<Rightarrow> status list"
  cs_seen :: "int \<Rightarrow> status list"

text \<open>What the counters of the job's rows are; other columns and other rows do not matter.\<close>

definition counter_rows :: "int \<Rightarrow> youtube_job list \<Rightarrow> (int \<times> int \<times> int \<times> int) list" where
  "counter_rows j jobs =
     map (\<lambda>r. (yj_PendingCount r, yj_RunningCount r, yj_SuccessCount r, yj_FailedCount r))
       (filter (\<lambda>r. yj_ID r = j) jobs)"

text \<open>The \<^verbatim>\<open>UPDATE\<close> of \<^verbatim>\<open>AddTasksToYoutubeJob\<close>, and the one of \<^verbatim>\<open>RetryYoutubeTasksLogic\<close>.\<close>

definition add_row :: "int \<Rightarrow> youtube_job \<Rightarrow> youtube_job" where
  "add_row n r = r\<lparr>yj_TotalCount := yj_TotalCount r + n, yj_PendingCount := yj_PendingCount r + n\<rparr>"

definition retry_row :: "int \<Rightarrow> youtube_job \<Rightarrow> youtube_job" where
  "retry_row n r =
     r\<lparr>yj_FailedCount := yj_FailedCount r - n, yj_PendingCount := yj_PendingCount r + n\<rparr>"

text \<open>
  The steps that keep the row of job \<open>j\<close> exact: documents change in any way; a change of the job
  is tracked from the status that was tracked before; the statement that counts added tasks; the
  statement that counts \<open>n\<close> failed tasks as pending, when their failures have left the buffer; a
  flush takes the buffer, and writes one entry, where only the statements of other jobs may fail;
  other jobs are tracked and written in any way.
\<close>

inductive counter_step :: "int \<Rightarrow> counter_state \<Rightarrow> counter_state \<Rightarrow> bool" for j where
  document: "counter_step j s (s\<lparr>cs_tasks := ts\<rparr>)"
| tracked:
    "i < length (cs_seen s j) \<Longrightarrow>
     counter_step j s (s\<lparr>cs_buf := trackStatusChange j (cs_seen s j ! i) new (cs_buf s),
                         cs_seen := (cs_seen s)(j := (cs_seen s j)[i := new])\<rparr>)"
| added:
    "counter_step j s (s\<lparr>cs_jobs := update_where (\<lambda>r. yj_ID r = j) (add_row (int n)) (cs_jobs s),
                         cs_seen := (cs_seen s)(j := cs_seen s j @ replicate n ''PENDING'')\<rparr>)"
| retried:
    "0 \<le> n \<Longrightarrow>
     \<forall>b. bucket_count b ss =
       bucket_count b (cs_seen s j) + n * in_bucket b ''PENDING'' - n * in_bucket b ''FAILED'' \<Longrightarrow>
     \<forall>r \<in> set (cs_jobs s). yj_ID r = j \<longrightarrow> n \<le> yj_FailedCount r + net (cs_sent s) j ''FAILED'' \<Longrightarrow>
     counter_step j s (s\<lparr>cs_jobs := update_where (\<lambda>r. yj_ID r = j) (retry_row n) (cs_jobs s),
                         cs_seen := (cs_seen s)(j := ss)\<rparr>)"
| taken:
    "cs_sent s = [] \<Longrightarrow> counter_step j s (s\<lparr>cs_buf := [], cs_sent := cs_buf s\<rparr>)"
| written:
    "cs_sent s = xs @ (k, d) # ys \<Longrightarrow> failed \<longrightarrow> k \<noteq> j \<Longrightarrow>
     counter_step j s
       (s\<lparr>cs_jobs := (if failed then cs_jobs s
                     else update_where (\<lambda>r. yj_ID r = k) (flush_yt_row d) (cs_jobs s)),
          cs_sent := xs @ ys\<rparr>)"
| other_tracked:
    "k \<noteq> j \<Longrightarrow> counter_step j s (s\<lparr>cs_buf := trackStatusChange k old new (cs_buf s)\<rparr>)"
| other_columns:
    "counter_rows j jobs = counter_rows j (cs_jobs s) \<Longrightarrow> counter_step j s (s\<lparr>cs_jobs := jobs\<rparr>)"

inductive counter_run :: "int \<Rightarrow> counter_state \<Rightarrow> counter_state \<Rightarrow> bool" for j where
  stop: "counter_run j s s"
| step: "counter_run j s t \<Longrightarrow> counter_step j t u \<Longrightarrow> counter_run j s u"

section \<open>Flushes\<close>

lemma flush_row_id [simp]:
  "yj_ID (flush_yt_row d j) = yj_ID j" "tj_JobID (flush_tx_row d t) = tj_JobID t"
  by (simp_all add: flush_yt_row_def flush_tx_row_def)

lemma row_count_flush:
  assumes "0 \<le> row_count b r + delta_get d b"
  shows "row_count b (flush_yt_row d r) = row_count b r + delta_get d b"
  using assms by (auto simp: row_count_def delta_get_def flush_yt_row_def split: if_splits)

text \<open>Each row is touched at most once by a flush, by its own delta.\<close>

lemma flush_snapshot_rows:
  assumes "distinct (map fst buf)" "\<And>d r. k (upd d r) = k r"
  shows "flush_snapshot upd k err buf rows =
    map (\<lambda>r. case map_of buf (k r) of None \<Rightarrow> r
           | Some d \<Rightarrow> if err (k r) then r else upd d r) rows"
  using assms(1)
proof (induction buf arbitrary: rows)
  case (Cons p buf)
  obtain j d where p: "p = (j, d)" by (cases p)
  with Cons.prems have none: "map_of buf j = None" by (simp add: map_of_eq_None_iff)
  show ?case
    using Cons p none by (auto simp: update_where_def assms(2) split: option.split)
qed simp

lemma flushStats_rows:
  assumes "flushStats err (buf, jobs) = (buf', jobs')" "distinct (map fst buf)"
  shows "buf' = [] \<and> jobs' =
    map (\<lambda>r. case map_of buf (yj_ID r) of None \<Rightarrow> r
           | Some d \<Rightarrow> if err (yj_ID r) then r else flush_yt_row d r) jobs"
  using assms by (auto simp: flushStats_def flush_snapshot_rows split: if_splits)

lemma net_middle:
  assumes "distinct (map fst (xs @ (k, d) # ys))"
  shows "net (xs @ (k, d) # ys) j b = net (xs @ ys) j b + (if j = k then delta_get d b else 0)"
    and "net (xs @ ys) k b = 0"
proof -
  have "map_of xs k = None" "map_of ys k = None"
    using assms by (auto simp: map_of_eq_None_iff)
  then show "net (xs @ (k, d) # ys) j b = net (xs @ ys) j b + (if j = k then delta_get d b else 0)"
    "net (xs @ ys) k b = 0"
    by (auto simp: net_def map_add_def split: option.splits)
qed

text \<open>The function \<open>flushStats\<close> is one way to run the steps: take the buffer, write every entry.\<close>

lemma written_run:
  assumes "\<not> err j" "counter_run j s t" "cs_sent t = sent"
  shows "counter_run j s
    (t\<lparr>cs_jobs := flush_snapshot flush_yt_row yj_ID err sent (cs_jobs t), cs_sent := []\<rparr>)"
  using assms(2,3)
proof (induction sent arbitrary: t)
  case Nil
  then have "t\<lparr>cs_jobs := flush_snapshot flush_yt_row yj_ID err [] (cs_jobs t), cs_sent := []\<rparr> = t"
    by (cases t) simp
  with Nil.prems(1) show ?case by (simp only:)
next
  case (Cons p sent)
  obtain k d where p: "p = (k, d)" by (cases p)
  let ?u = "t\<lparr>cs_jobs := (if err k then cs_jobs t
      else update_where (\<lambda>r. yj_ID r = k) (flush_yt_row d) (cs_jobs t)), cs_sent := sent\<rparr>"
  have "err k \<longrightarrow> k \<noteq> j" using assms(1) by auto
  then have "counter_step j t ?u"
    using counter_step.written [of t "[]" k d sent "err k" j] Cons.prems(2) p by simp
  with Cons.prems(1) have "counter_run j s ?u" by (rule counter_run.step)
  from Cons.IH [OF this] show ?case using p by simp
qed

lemma flush_is_run:
  assumes "\<not> err j" "cs_sent s = []" "flushStats err (cs_buf s, cs_jobs s) = (buf, jobs)"
  shows "counter_run j s (s\<lparr>cs_buf := buf, cs_jobs := jobs\<rparr>)"
proof (cases "cs_buf s = []")
  case True
  then have "s\<lparr>cs_buf := buf, cs_jobs := jobs\<rparr> = s"
    using assms(3) by (cases s) (simp add: flushStats_def)
  then show ?thesis by (simp add: counter_run.stop)
next
  case False
  let ?t = "s\<lparr>cs_buf := [], cs_sent := cs_buf s\<rparr>"
  have "counter_run j s ?t"
    using counter_run.step [OF counter_run.stop counter_step.taken [OF assms(2)]] .
  from written_run [of err, OF assms(1) this refl] show ?thesis
    using assms(2,3) False by (cases s) (simp add: flushStats_def)
qed

section \<open>The row of a job counts its tasks\<close>

definition row_exact :: "int \<Rightarrow> counter_state \<Rightarrow> bool" where
  "row_exact j s \<longleftrightarrow>
     distinct (map fst (cs_buf s)) \<and> distinct (map fst (cs_sent s)) \<and>
     (\<forall>r \<in> set (cs_jobs s). yj_ID r = j \<longrightarrow>
        (\<forall>b. row_count b r + net (cs_sent s) j b + net (cs_buf s) j b
               = bucket_count b (cs_seen s j)
             \<and> 0 \<le> row_count b r + net (cs_sent s) j b))"

lemma row_exactI:
  assumes "distinct (map fst (cs_buf s))" "distinct (map fst (cs_sent s))"
    and "\<And>r b. r \<in> set (cs_jobs s) \<Longrightarrow> yj_ID r = j \<Longrightarrow>
      row_count b r + net (cs_sent s) j b + net (cs_buf s) j b = bucket_count b (cs_seen s j)
      \<and> 0 \<le> row_count b r + net (cs_sent s) j b"
  shows "row_exact j s"
  using assms by (simp add: row_exact_def)

lemma row_exactD:
  assumes "row_exact j s" "r \<in> set (cs_jobs s)" "yj_ID r = j"
  shows "row_count b r + net (cs_sent s) j b + net (cs_buf s) j b = bucket_count b (cs_seen s j)"
    and "0 \<le> row_count b r + net (cs_sent s) j b"
  using assms by (simp_all add: row_exact_def)

lemma counter_rows_match:
  assumes "counter_rows j jobs = counter_rows j jobs'" "r \<in> set jobs" "yj_ID r = j"
  shows "\<exists>r' \<in> set jobs'. yj_ID r' = j \<and> (\<forall>b. row_count b r' = row_count b r)"
proof -
  let ?f = "\<lambda>r. (yj_PendingCount r, yj_RunningCount r, yj_SuccessCount r, yj_FailedCount r)"
  have "?f r \<in> set (counter_rows j jobs)"
    using assms(2,3) by (force simp: counter_rows_def)
  then have "?f r \<in> set (counter_rows j jobs')" by (simp only: assms(1))
  then obtain r' where "r' \<in> set jobs'" "yj_ID r' = j" "?f r' = ?f r"
    by (auto simp: counter_rows_def)
  then show ?thesis by (intro bexI [of _ r']) (auto simp: row_count_def)
qed

lemma row_count_add:
  "row_count b (add_row n r) = row_count b r + n * in_bucket b ''PENDING''"
  by (simp add: row_count_def add_row_def in_bucket_def getBucket_def)

lemma row_count_reset:
  "row_count b (retry_row n r) =
     row_count b r + n * in_bucket b ''PENDING'' - n * in_bucket b ''FAILED''"
  by (simp add: row_count_def retry_row_def in_bucket_def getBucket_def)

lemma bucket_count_replicate:
  "bucket_count b (replicate n s) = int n * in_bucket b s"
  by (induction n) (simp_all add: bucket_count_Cons algebra_simps)

lemma row_ids [simp]:
  "yj_ID (add_row n r) = yj_ID r" "yj_ID (retry_row n r) = yj_ID r"
  by (simp_all add: add_row_def retry_row_def)

lemma taken_exact:
  assumes "row_exact j s" "cs_sent s = []"
  shows "row_exact j (s\<lparr>cs_buf := [], cs_sent := cs_buf s\<rparr>)"
  using assms by (auto simp: row_exact_def)

lemma written_exact:
  assumes ex: "row_exact j s" and sent: "cs_sent s = xs @ (k, d) # ys" and ok: "failed \<longrightarrow> k \<noteq> j"
  shows "row_exact j
    (s\<lparr>cs_jobs := (if failed then cs_jobs s
                  else update_where (\<lambda>r. yj_ID r = k) (flush_yt_row d) (cs_jobs s)),
       cs_sent := xs @ ys\<rparr>)"
proof (rule row_exactI)
  have dist: "distinct (map fst (xs @ (k, d) # ys))"
    using ex sent by (simp add: row_exact_def)
  note net = net_middle [OF dist]
  let ?t = "s\<lparr>cs_jobs := (if failed then cs_jobs s
      else update_where (\<lambda>r. yj_ID r = k) (flush_yt_row d) (cs_jobs s)), cs_sent := xs @ ys\<rparr>"
  show "distinct (map fst (cs_buf ?t))" "distinct (map fst (cs_sent ?t))"
    using ex dist by (simp_all add: row_exact_def)
  fix r b
  assume r: "r \<in> set (cs_jobs ?t)" "yj_ID r = j"
  show "row_count b r + net (cs_sent ?t) j b + net (cs_buf ?t) j b = bucket_count b (cs_seen ?t j)
    \<and> 0 \<le> row_count b r + net (cs_sent ?t) j b"
  proof (cases "k = j")
    case True
    with r ok obtain r0 where r0: "r0 \<in> set (cs_jobs s)" "yj_ID r0 = j" "r = flush_yt_row d r0"
      by (auto simp: update_where_def)
    show ?thesis
      using row_exactD [OF ex r0(1,2), of b] net(1) [of j b] net(2) [of b] True r0(3)
      by (simp add: sent row_count_flush)
  next
    case False
    with r have "r \<in> set (cs_jobs s)"
      by (auto simp: update_where_def split: if_splits)
    from row_exactD [OF ex this r(2), of b] show ?thesis
      using net(1) [of j b] False by (simp add: sent)
  qed
qed

lemma row_update_exact:
  assumes ex: "row_exact j s" and id: "\<And>r. yj_ID (f r) = yj_ID r"
    and upd: "\<And>r b. r \<in> set (cs_jobs s) \<Longrightarrow> yj_ID r = j \<Longrightarrow>
      row_count b (f r) - row_count b r = bucket_count b ss - bucket_count b (cs_seen s j)
      \<and> 0 \<le> row_count b (f r) + net (cs_sent s) j b"
  shows "row_exact j (s\<lparr>cs_jobs := update_where (\<lambda>r. yj_ID r = j) f (cs_jobs s),
    cs_seen := (cs_seen s)(j := ss)\<rparr>)" (is "row_exact j ?t")
proof (rule row_exactI)
  fix r b
  assume "r \<in> set (cs_jobs ?t)" "yj_ID r = j"
  then obtain r0 where r0: "r0 \<in> set (cs_jobs s)" "yj_ID r0 = j" "r = f r0"
    by (auto simp: update_where_def id split: if_splits)
  have "row_count b r - row_count b r0 = bucket_count b ss - bucket_count b (cs_seen s j)"
    "0 \<le> row_count b r + net (cs_sent s) j b"
    using upd [OF r0(1,2), of b] r0(3) by simp_all
  then show "row_count b r + net (cs_sent ?t) j b + net (cs_buf ?t) j b = bucket_count b (cs_seen ?t j)
    \<and> 0 \<le> row_count b r + net (cs_sent ?t) j b"
    using row_exactD [OF ex r0(1,2), of b] by simp
qed (use ex in \<open>simp_all add: row_exact_def\<close>)

lemma counter_step_exact: "counter_step j s t \<Longrightarrow> row_exact j s \<Longrightarrow> row_exact j t"
proof (induction rule: counter_step.induct)
  case (document s ts)
  then show ?case by (simp add: row_exact_def)
next
  case (tracked i s new)
  then show ?case
    by (auto simp: row_exact_def yt_tracker.keys_track track_yt_net bucket_count_update
        algebra_simps)
next
  case (added s n)
  show ?case
  proof (rule row_update_exact [OF added])
    fix r b
    assume r: "r \<in> set (cs_jobs s)" "yj_ID r = j"
    show "row_count b (add_row (int n) r) - row_count b r =
        bucket_count b (cs_seen s j @ replicate n ''PENDING'') - bucket_count b (cs_seen s j)
      \<and> 0 \<le> row_count b (add_row (int n) r) + net (cs_sent s) j b"
      using row_exactD(2) [OF added r, of b]
      by (simp add: row_count_add bucket_count_append bucket_count_replicate in_bucket_def)
  qed simp
next
  case (retried n ss s)
  show ?case
  proof (rule row_update_exact [OF retried.prems])
    fix r b
    assume r: "r \<in> set (cs_jobs s)" "yj_ID r = j"
    have "n \<le> yj_FailedCount r + net (cs_sent s) j ''FAILED''"
      using retried.hyps(3) r by blast
    then have "0 \<le> row_count b (retry_row n r) + net (cs_sent s) j b"
      using row_exactD(2) [OF retried.prems r, of b] retried.hyps(1)
      by (cases "b = ''FAILED''") (auto simp: row_count_def retry_row_def split: if_splits)
    moreover have "bucket_count b ss = bucket_count b (cs_seen s j)
        + n * in_bucket b ''PENDING'' - n * in_bucket b ''FAILED''"
      using retried.hyps(2) by blast
    ultimately show "row_count b (retry_row n r) - row_count b r =
        bucket_count b ss - bucket_count b (cs_seen s j)
      \<and> 0 \<le> row_count b (retry_row n r) + net (cs_sent s) j b"
      by (simp add: row_count_reset)
  qed simp
next
  case (taken s)
  then show ?case by (simp add: taken_exact)
next
  case (written s xs k d ys failed)
  then show ?case by (simp add: written_exact)
next
  case (other_tracked k s old new)
  then show ?case by (simp add: row_exact_def yt_tracker.keys_track track_yt_net)
next
  case (other_columns jobs s)
  show ?case
  proof (rule row_exactI)
    fix r b
    assume "r \<in> set (cs_jobs (s\<lparr>cs_jobs := jobs\<rparr>))" "yj_ID r = j"
    then obtain r' where
      r': "r' \<in> set (cs_jobs s)" "yj_ID r' = j" "row_count b r' = row_count b r"
      using counter_rows_match [OF other_columns.hyps, of r] by auto
    show "row_count b r + net (cs_sent (s\<lparr>cs_jobs := jobs\<rparr>)) j b
        + net (cs_buf (s\<lparr>cs_jobs := jobs\<rparr>)) j b = bucket_count b (cs_seen (s\<lparr>cs_jobs := jobs\<rparr>) j)
      \<and> 0 \<le> row_count b r + net (cs_sent (s\<lparr>cs_jobs := jobs\<rparr>)) j b"
      using row_exactD [OF other_columns.prems r'(1,2), of b] r'(3) by simp
  qed (use other_columns.prems in \<open>simp_all add: row_exact_def\<close>)
qed

lemma counter_run_exact: "counter_run j s t \<Longrightarrow> row_exact j s \<Longrightarrow> row_exact j t"
  by (induction rule: counter_run.induct) (auto intro: counter_step_exact)

text \<open>C1: While the changes of a job's tasks are tracked, each from the status tracked before,
its row is written by the statements for added and retried tasks and by flushes, and no
statement for its row fails, whatever happens to the documents and rows of other jobs and however
flushes interleave with changes: when no change is outstanding, the flush that follows leaves in
the row exactly the number of the job's tasks in each bucket.\<close>

theorem counters_exact_after_flush:
  assumes "row_exact j s" "counter_run j s t" "cs_sent t = []"
    and "flushStats err (cs_buf t, cs_jobs t) = (buf, jobs)" "\<not> err j"
    and "cs_seen t j = cs_tasks t j" "r \<in> set jobs" "yj_ID r = j"
  shows "row_count b r = bucket_count b (cs_tasks t j)"
proof -
  have "row_exact j (t\<lparr>cs_buf := buf, cs_jobs := jobs\<rparr>)"
    using assms(1-5) by (blast intro: counter_run_exact flush_is_run)
  moreover have "buf = []" using assms(4) by (simp add: flushStats_def split: if_splits)
  ultimately show ?thesis using assms(3,6-8) by (simp add: row_exact_def)
qed

definition wit_row :: youtube_job where
  "wit_row = YoutubeJob0\<lparr>yj_ID := 7, yj_Status := ''RUNNING'', yj_TotalCount := 2,
     yj_PendingCount := 1, yj_RunningCount := 1\<rparr>"

text \<open>
  A task of job 7 is tracked as running, a change of job 8 is tracked, a flush takes both, a second
  task of job 7 completes before the flush writes, the statement for job 8 fails.
\<close>

definition wit_c0 :: counter_state where
  "wit_c0 = \<lparr>cs_jobs = [wit_row], cs_buf = [], cs_sent = [],
     cs_tasks = (\<lambda>_. [])(7 := [''PENDING'', ''METADATA_FETCHED'']),
     cs_seen = (\<lambda>_. [])(7 := [''PENDING'', ''METADATA_FETCHED''])\<rparr>"

definition wit_c1 :: counter_state where
  "wit_c1 = wit_c0\<lparr>cs_buf := trackStatusChange 8 ''PENDING'' ''FAILED''
       (trackStatusChange 7 ''PENDING'' ''RUNNING'' []),
     cs_seen := (\<lambda>_. [])(7 := [''RUNNING'', ''METADATA_FETCHED''])\<rparr>"

definition wit_c2 :: counter_state where
  "wit_c2 = wit_c1\<lparr>cs_buf := trackStatusChange 7 ''METADATA_FETCHED'' ''COMPLETED'' [],
     cs_sent := cs_buf wit_c1,
     cs_tasks := (\<lambda>_. [])(7 := [''RUNNING'', ''COMPLETED'']),
     cs_seen := (\<lambda>_. [])(7 := [''RUNNING'', ''COMPLETED''])\<rparr>"

definition wit_c3 :: counter_state where
  "wit_c3 = wit_c2\<lparr>cs_sent := [],
     cs_jobs := [wit_row\<lparr>yj_PendingCount := 0, yj_RunningCount := 2\<rparr>]\<rparr>"

lemmas wit_counter_simps =
  wit_c0_def wit_c1_def wit_c2_def wit_c3_def wit_row_def YoutubeJob0_def trackStatusChange_def
  getBucket_def bump_bucket_def JobDelta0_def flush_yt_row_def update_where_def

lemma wit_exact: "row_exact 7 wit_c0"
  by (simp add: row_exact_def wit_c0_def wit_row_def row_count_def bucket_count_def getBucket_def
      YoutubeJob0_def)

lemma wit_taken: "counter_run 7 wit_c0 (wit_c1\<lparr>cs_buf := [], cs_sent := cs_buf wit_c1\<rparr>)"
proof -
  let ?a = "wit_c0\<lparr>cs_buf := trackStatusChange 7 ''PENDING'' ''RUNNING'' [],
    cs_seen := (\<lambda>_. [])(7 := [''RUNNING'', ''METADATA_FETCHED''])\<rparr>"
  have a: "counter_step 7 wit_c0 ?a"
    using counter_step.tracked [of 0 wit_c0 7 "''RUNNING''"] by (simp add: wit_c0_def)
  have b: "counter_step 7 ?a wit_c1"
    using counter_step.other_tracked [of 8 7 ?a "''PENDING''" "''FAILED''"]
    by (simp add: wit_c0_def wit_c1_def)
  have c: "cs_sent wit_c1 = []" by (simp add: wit_c1_def wit_c0_def)
  show ?thesis
    by (rule counter_run.step [OF counter_run.step [OF counter_run.step [OF counter_run.stop a] b]
          counter_step.taken [OF c]])
qed

lemma wit_written: "counter_run 7 wit_c0 wit_c3"
proof -
  let ?b = "wit_c1\<lparr>cs_buf := [], cs_sent := cs_buf wit_c1\<rparr>"
  let ?c = "?b\<lparr>cs_tasks := (\<lambda>_. [])(7 := [''RUNNING'', ''COMPLETED''])\<rparr>"
  let ?d = "wit_c2\<lparr>cs_sent := [(8, bump_bucket ''FAILED'' 1 (bump_bucket ''PENDING'' (-1) JobDelta0))],
    cs_jobs := [wit_row\<lparr>yj_PendingCount := 0, yj_RunningCount := 2\<rparr>]\<rparr>"
  have c: "counter_step 7 ?b ?c" by (rule counter_step.document)
  have d: "counter_step 7 ?c wit_c2"
    using counter_step.tracked [of 1 ?c 7 "''COMPLETED''"]
    by (simp add: wit_c2_def wit_c1_def wit_c0_def)
  have e: "counter_step 7 wit_c2 ?d"
    using counter_step.written [of wit_c2 "[]" 7
        "bump_bucket ''RUNNING'' 1 (bump_bucket ''PENDING'' (-1) JobDelta0)"
        "[(8, bump_bucket ''FAILED'' 1 (bump_bucket ''PENDING'' (-1) JobDelta0))]" False 7]
    by (simp add: wit_counter_simps)
  have f: "counter_step 7 ?d wit_c3"
    using counter_step.written [of ?d "[]" 8
        "bump_bucket ''FAILED'' 1 (bump_bucket ''PENDING'' (-1) JobDelta0)" "[]" True 7]
    by (simp add: wit_c3_def wit_c2_def wit_c1_def wit_c0_def)
  show ?thesis
    by (rule counter_run.step [OF counter_run.step [OF counter_run.step [OF counter_run.step
          [OF wit_taken c] d] e] f])
qed

theorem counters_exact_after_flush_witness:
  "let rows = snd (flushStats (\<lambda>k. k = 8) (cs_buf wit_c3, cs_jobs wit_c3))
   in cs_buf wit_c3 \<noteq> [] \<and> row_count ''COMPLETED'' (hd rows) = 1
      \<and> bucket_count ''COMPLETED'' (cs_tasks wit_c3 7) = 1"
proof -
  let ?r = "wit_row\<lparr>yj_PendingCount := 0, yj_RunningCount := 1, yj_SuccessCount := 1\<rparr>"
  have f: "flushStats (\<lambda>k. k = 8) (cs_buf wit_c3, cs_jobs wit_c3) = ([], [?r])"
    by (simp add: flushStats_def wit_counter_simps)
  have "row_count ''COMPLETED'' ?r = bucket_count ''COMPLETED'' (cs_tasks wit_c3 7)"
    by (rule counters_exact_after_flush [OF wit_exact wit_written _ f])
      (simp_all add: wit_counter_simps)
  then show ?thesis
    using f by (simp add: wit_counter_simps bucket_count_def)
qed

section \<open>Completion by a flush\<close>


definition open_net :: "stats_buffer \<Rightarrow> int \<Rightarrow> int" where
  "open_net buf j = net buf j ''PENDING'' + net buf j ''RUNNING''"











lemma open_net_Nil [simp]: "open_net [] j = 0"
  by (simp add: open_net_def)














section \<open>Where the rows drift\<close>

text \<open>
  \<^verbatim>\<open>AcquireTasks\<close> turns a task of a retry queue into \<^verbatim>\<open>PENDING\<close> without tracking it. If it had
  failed, the row, exact for what was tracked, is completed while the task waits.
\<close>

lemma untracked_reopen_completes_early:
  "\<exists>s jobs. row_exact 7 s \<and> cs_seen s 7 = [''FAILED'', ''COMPLETED'']
     \<and> cs_tasks s 7 = [''PENDING'', ''COMPLETED'']
     \<and> flushStats (\<lambda>_. False) (cs_buf s, cs_jobs s) = ([], jobs)
     \<and> map yj_Status (cs_jobs s) = [''RUNNING''] \<and> map yj_Status jobs = [''COMPLETED'']"
proof (intro exI conjI)
  let ?s = "\<lparr>cs_jobs = [wit_row\<lparr>yj_PendingCount := 0, yj_FailedCount := 1\<rparr>],
    cs_buf = trackStatusChange 7 ''RUNNING'' ''COMPLETED'' [], cs_sent = [],
    cs_tasks = (\<lambda>_. [])(7 := [''PENDING'', ''COMPLETED'']),
    cs_seen = (\<lambda>_. [])(7 := [''FAILED'', ''COMPLETED''])\<rparr>"
  show "row_exact 7 ?s"
    by (auto simp: row_exact_def row_count_def bucket_count_def in_bucket_def track_yt_net
        wit_row_def YoutubeJob0_def getBucket_def yt_tracker.keys_track)
  show "flushStats (\<lambda>_. False) (cs_buf ?s, cs_jobs ?s)
    = ([], [wit_row\<lparr>yj_PendingCount := 0, yj_RunningCount := 0, yj_SuccessCount := 1,
        yj_FailedCount := 1, yj_Status := ''COMPLETED''\<rparr>])"
    by (simp add: flushStats_def wit_counter_simps)
qed (simp_all add: wit_row_def)

text \<open>
  If it was in a running state, its later changes are tracked from \<^verbatim>\<open>PENDING\<close>: its only task is
  completed, and the row keeps one running task and stays \<^verbatim>\<open>RUNNING\<close>.
\<close>

lemma untracked_reset_never_completes:
  "snd (flushStats (\<lambda>_. False)
     (track_path trackStatusChange 7 ''PENDING'' [''RUNNING'', ''COMPLETED''] [],
      [wit_row\<lparr>yj_PendingCount := 0\<rparr>]))
   = [wit_row\<lparr>yj_PendingCount := 0, yj_RunningCount := 1, yj_SuccessCount := 1\<rparr>]"
  by (simp add: flushStats_def wit_counter_simps)

text \<open>The delta of a job whose statement fails is gone: the row keeps its old counts.\<close>

lemma failed_update_loses_delta:
  assumes "flushStats err (buf, jobs) = (buf', jobs')" "err j" "distinct (map fst buf)"
  shows "buf' = [] \<and> filter (\<lambda>r. yj_ID r = j) jobs' = filter (\<lambda>r. yj_ID r = j) jobs"
proof -
  have "filter (\<lambda>r. yj_ID r = j)
      (map (\<lambda>r. case map_of buf (yj_ID r) of None \<Rightarrow> r
        | Some d \<Rightarrow> if err (yj_ID r) then r else flush_yt_row d r) jobs)
    = filter (\<lambda>r. yj_ID r = j) jobs"
    using assms(2) by (induction jobs) (auto split: option.splits)
  then show ?thesis using flushStats_rows [OF assms(1,3)] by simp
qed

end
