(* ===== verification/RedisClient.thy ===== *)
theory RedisClient
  imports Models
begin

text \<open>
  The Redis server is a service outside the repository, so every handler takes the function
  that executes one command as a parameter (\<open>rx :: rexec\<close>). This theory holds the commands the
  handlers issue, the shape of the replies, the documented behaviour of those commands
  (\<open>redis_ref\<close>) and the hypotheses on \<open>rx\<close> that the properties name: \<open>redis_up\<close> (every command
  is answered as documented) and \<open>redis_sound\<close> (a command that is answered without an error is
  answered as documented; one that fails may do anything to the keyspace). A stored string is
  represented by what \<^verbatim>\<open>json.Unmarshal\<close> makes of it: a task document, a number, or text that is
  no document.
\<close>

named_theorems redis_simps \<open>evaluation of commands\<close>

datatype rstr =
  YtDoc youtube_task | TxDoc transfer_task | FfDoc ffmpeg_task | Num int | Txt string

datatype rdata =
  RS rstr | RL "string list" | RZ "(int \<times> string) list" | RH "(string \<times> string) list"

type_synonym redis_db = "string \<rightharpoonup> rdata"

datatype redis_cmd =
    SET string rstr
  | GET string
  | MGET "string list"
  | DEL "string list"
  | EXISTS string
  | SETNX string rstr
  | INCRBY string int
  | RPUSH string "string list"
  | LPOP string
  | LLEN string
  | LREM string string
  | LRANGE string int int
  | ZADD string "(int \<times> string) list"
  | ZREM string string
  | ZCARD string
  | ZRANGE string int int
  | ZREVRANGE string int int
  | ZRANGEBYSCORE string int nat
  | HEXISTS string string
  | HSET string string string
  | SADD string string
  | SREM string string
  | ZREMRANGEBYRANK string int int

datatype reply =
    RErr | RNil | ROk | RInt int | RStr rstr | RBulk string | RArr "string list"
  | RVals "rstr option list"

type_synonym rexec = "redis_db \<Rightarrow> redis_cmd \<Rightarrow> redis_db \<times> reply"

section \<open>Documents\<close>

text \<open>\<^verbatim>\<open>json.Marshal\<close> of a task never fails and \<^verbatim>\<open>json.Unmarshal\<close> reads it back.\<close>

fun unmarshal_yt :: "rstr \<Rightarrow> youtube_task option" where
  "unmarshal_yt (YtDoc t) = Some t"
| "unmarshal_yt _ = None"

fun unmarshal_tx :: "rstr \<Rightarrow> transfer_task option" where
  "unmarshal_tx (TxDoc t) = Some t"
| "unmarshal_tx _ = None"

fun unmarshal_ff :: "rstr \<Rightarrow> ffmpeg_task option" where
  "unmarshal_ff (FfDoc t) = Some t"
| "unmarshal_ff _ = None"

text \<open>\<^verbatim>\<open>GET\<close> of a counter followed by \<^verbatim>\<open>Sscanf("%d")\<close>; a missing key leaves the variable at 0.\<close>

fun scan_num :: "reply \<Rightarrow> int" where
  "scan_num (RStr (Num n)) = n"
| "scan_num (RStr (Txt s)) = sscanf_d s"
| "scan_num _ = 0"

section \<open>Sorted sets\<close>

fun str_less :: "string \<Rightarrow> string \<Rightarrow> bool" where
  "str_less _ [] = False"
| "str_less [] (_ # _) = True"
| "str_less (a # as) (b # bs) =
     ((of_char a :: nat) < of_char b \<or> (a = b \<and> str_less as bs))"

definition z_before :: "int \<times> string \<Rightarrow> int \<times> string \<Rightarrow> bool" where
  "z_before p q = (fst p < fst q \<or> (fst p = fst q \<and> str_less (snd p) (snd q)))"

fun z_insert :: "int \<times> string \<Rightarrow> (int \<times> string) list \<Rightarrow> (int \<times> string) list" where
  "z_insert p [] = [p]"
| "z_insert p (q # qs) = (if z_before q p then q # z_insert p qs else p # q # qs)"

definition z_remove :: "string \<Rightarrow> (int \<times> string) list \<Rightarrow> (int \<times> string) list" where
  "z_remove m zs = filter (\<lambda>p. snd p \<noteq> m) zs"

definition z_add :: "int \<times> string \<Rightarrow> (int \<times> string) list \<Rightarrow> (int \<times> string) list" where
  "z_add p zs = z_insert p (z_remove (snd p) zs)"

text \<open>Range by index, both ends inclusive, negative indices from the end.\<close>

definition z_index :: "nat \<Rightarrow> int \<Rightarrow> int" where
  "z_index n i = (if i < 0 then int n + i else i)"

definition z_slice :: "int \<Rightarrow> int \<Rightarrow> 'a list \<Rightarrow> 'a list" where
  "z_slice a b xs =
     (let lo = max 0 (z_index (length xs) a); hi = z_index (length xs) b
      in take (nat (hi - lo + 1)) (drop (nat lo) xs))"

text \<open>What is left when that range is removed.\<close>

definition z_cut :: "int \<Rightarrow> int \<Rightarrow> 'a list \<Rightarrow> 'a list" where
  "z_cut a b xs =
     (let lo = max 0 (z_index (length xs) a); hi = max (lo - 1) (z_index (length xs) b)
      in take (nat lo) xs @ drop (nat (hi + 1)) xs)"

definition zs_of :: "rdata option \<Rightarrow> (int \<times> string) list option" where
  "zs_of d = (case d of None \<Rightarrow> Some [] | Some (RZ zs) \<Rightarrow> Some zs | _ \<Rightarrow> None)"

definition ls_of :: "rdata option \<Rightarrow> string list option" where
  "ls_of d = (case d of None \<Rightarrow> Some [] | Some (RL l) \<Rightarrow> Some l | _ \<Rightarrow> None)"

definition hs_of :: "rdata option \<Rightarrow> (string \<times> string) list option" where
  "hs_of d = (case d of None \<Rightarrow> Some [] | Some (RH h) \<Rightarrow> Some h | _ \<Rightarrow> None)"

definition put_list :: "string \<Rightarrow> string list \<Rightarrow> redis_db \<Rightarrow> redis_db" where
  "put_list k l db = db(k := if l = [] then None else Some (RL l))"

definition put_zset :: "string \<Rightarrow> (int \<times> string) list \<Rightarrow> redis_db \<Rightarrow> redis_db" where
  "put_zset k zs db = db(k := if zs = [] then None else Some (RZ zs))"

definition str_of :: "rdata option \<Rightarrow> rstr option" where
  "str_of d = (case d of Some (RS v) \<Rightarrow> Some v | _ \<Rightarrow> None)"

section \<open>The documented commands\<close>

fun redis_ref :: rexec where
  "redis_ref db (SET k v) = (db(k \<mapsto> RS v), ROk)"
| "redis_ref db (GET k) =
     (db, case db k of None \<Rightarrow> RNil | Some (RS v) \<Rightarrow> RStr v | Some _ \<Rightarrow> RErr)"
| "redis_ref db (MGET ks) = (db, RVals (map (\<lambda>k. str_of (db k)) ks))"
| "redis_ref db (DEL ks) = (foldl (\<lambda>d k. d(k := None)) db ks, ROk)"
| "redis_ref db (EXISTS k) = (db, RInt (if db k = None then 0 else 1))"
| "redis_ref db (SETNX k v) =
     (if db k = None then (db(k \<mapsto> RS v), RInt 1) else (db, RInt 0))"
| "redis_ref db (INCRBY k n) =
     (case db k of
        None \<Rightarrow> (db(k \<mapsto> RS (Num n)), RInt n)
      | Some (RS (Num m)) \<Rightarrow> (db(k \<mapsto> RS (Num (m + n))), RInt (m + n))
      | Some _ \<Rightarrow> (db, RErr))"
| "redis_ref db (RPUSH k vs) =
     (case ls_of (db k) of None \<Rightarrow> (db, RErr)
      | Some l \<Rightarrow> (put_list k (l @ vs) db, RInt (int (length (l @ vs)))))"
| "redis_ref db (LPOP k) =
     (case ls_of (db k) of None \<Rightarrow> (db, RErr)
      | Some [] \<Rightarrow> (db, RNil)
      | Some (x # l) \<Rightarrow> (put_list k l db, RBulk x))"
| "redis_ref db (LLEN k) =
     (db, case ls_of (db k) of None \<Rightarrow> RErr | Some l \<Rightarrow> RInt (int (length l)))"
| "redis_ref db (LREM k v) =
     (case ls_of (db k) of None \<Rightarrow> (db, RErr)
      | Some l \<Rightarrow> (put_list k (filter (\<lambda>x. x \<noteq> v) l) db,
                  RInt (int (length (filter (\<lambda>x. x = v) l)))))"
| "redis_ref db (LRANGE k a b) =
     (db, case ls_of (db k) of None \<Rightarrow> RErr | Some l \<Rightarrow> RArr (z_slice a b l))"
| "redis_ref db (ZADD k ms) =
     (case zs_of (db k) of None \<Rightarrow> (db, RErr)
      | Some zs \<Rightarrow> (put_zset k (foldl (\<lambda>z p. z_add p z) zs ms) db, ROk))"
| "redis_ref db (ZREM k m) =
     (case zs_of (db k) of None \<Rightarrow> (db, RErr)
      | Some zs \<Rightarrow> (put_zset k (z_remove m zs) db, ROk))"
| "redis_ref db (ZCARD k) =
     (db, case zs_of (db k) of None \<Rightarrow> RErr | Some zs \<Rightarrow> RInt (int (length zs)))"
| "redis_ref db (ZRANGE k a b) =
     (db, case zs_of (db k) of None \<Rightarrow> RErr | Some zs \<Rightarrow> RArr (z_slice a b (map snd zs)))"
| "redis_ref db (ZREVRANGE k a b) =
     (db, case zs_of (db k) of None \<Rightarrow> RErr | Some zs \<Rightarrow> RArr (z_slice a b (map snd (rev zs))))"
| "redis_ref db (ZRANGEBYSCORE k lo n) =
     (db, case zs_of (db k) of None \<Rightarrow> RErr
          | Some zs \<Rightarrow> RArr (take n (map snd (filter (\<lambda>p. lo \<le> fst p) zs))))"
| "redis_ref db (HEXISTS k f) =
     (db, case hs_of (db k) of None \<Rightarrow> RErr
          | Some h \<Rightarrow> RInt (if f \<in> fst ` set h then 1 else 0))"
| "redis_ref db (HSET k f v) =
     (case hs_of (db k) of None \<Rightarrow> (db, RErr) | Some h \<Rightarrow> (db(k \<mapsto> RH (aset f v h)), ROk))"
| "redis_ref db (SADD k m) =
     (case hs_of (db k) of None \<Rightarrow> (db, RErr)
      | Some h \<Rightarrow> if m \<in> fst ` set h then (db, RInt 0)
                  else (db(k \<mapsto> RH (h @ [(m, [])])), RInt 1))"
| "redis_ref db (SREM k m) =
     (case hs_of (db k) of None \<Rightarrow> (db, RErr)
      | Some h \<Rightarrow> (db(k := (let h' = adel m h in if h' = [] then None else Some (RH h'))),
                  RInt (if m \<in> fst ` set h then 1 else 0)))"
| "redis_ref db (ZREMRANGEBYRANK k a b) =
     (case zs_of (db k) of None \<Rightarrow> (db, RErr)
      | Some zs \<Rightarrow> (put_zset k (z_cut a b zs) db, RInt (int (length zs) - int (length (z_cut a b zs)))))"

definition redis_up :: "rexec \<Rightarrow> bool" where
  "redis_up rx = (\<forall>db c. rx db c = redis_ref db c)"

definition redis_sound :: "rexec \<Rightarrow> bool" where
  "redis_sound rx = (\<forall>db c. snd (rx db c) \<noteq> RErr \<longrightarrow> rx db c = redis_ref db c)"

lemma redis_upD: "redis_up rx \<Longrightarrow> rx = redis_ref"
  by (auto simp: redis_up_def)

lemma redis_up_ref [simp]: "redis_up redis_ref"
  by (simp add: redis_up_def)

lemma redis_up_sound: "redis_up rx \<Longrightarrow> redis_sound rx"
  by (simp add: redis_up_def redis_sound_def)

section \<open>Pipelines\<close>

text \<open>
  \<^verbatim>\<open>pipe.Exec\<close> sends the queued commands in order; each is executed whatever the others reply,
  and the call fails when some reply is an error.
\<close>

fun rpipe :: "rexec \<Rightarrow> redis_db \<Rightarrow> redis_cmd list \<Rightarrow> redis_db \<times> reply list" where
  "rpipe rx db [] = (db, [])"
| "rpipe rx db (c # cs) =
     (let (db', r) = rx db c; (db'', rs) = rpipe rx db' cs in (db'', r # rs))"

definition pipe_failed :: "reply list \<Rightarrow> bool" where
  "pipe_failed rs = (RErr \<in> set rs)"

definition rrun :: "rexec \<Rightarrow> redis_db \<Rightarrow> redis_cmd list \<Rightarrow> redis_db" where
  "rrun rx db cs = fst (rpipe rx db cs)"

lemma rrun_Nil [redis_simps, simp]: "rrun rx db [] = db"
  by (simp add: rrun_def)

lemma rrun_Cons [redis_simps]: "rrun rx db (c # cs) = rrun rx (fst (rx db c)) cs"
  by (simp add: rrun_def split: prod.split)

lemma rrun_append [redis_simps]: "rrun rx db (cs @ ds) = rrun rx (rrun rx db cs) ds"
  by (induction cs arbitrary: db) (simp_all add: rrun_Cons)

lemma fst_rpipe [simp]: "fst (rpipe rx db cs) = rrun rx db cs"
  by (simp add: rrun_def)

lemma length_rpipe [simp]: "length (snd (rpipe rx db cs)) = length cs"
  by (induction cs arbitrary: db) (simp_all split: prod.split, metis snd_conv)

text \<open>Commands touch only the keys they name.\<close>

fun cmd_keys :: "redis_cmd \<Rightarrow> string set" where
  "cmd_keys (SET k v) = {k}"
| "cmd_keys (DEL ks) = set ks"
| "cmd_keys (SETNX k v) = {k}"
| "cmd_keys (INCRBY k n) = {k}"
| "cmd_keys (RPUSH k vs) = {k}"
| "cmd_keys (LPOP k) = {k}"
| "cmd_keys (LREM k v) = {k}"
| "cmd_keys (ZADD k ms) = {k}"
| "cmd_keys (ZREM k m) = {k}"
| "cmd_keys (HSET k f v) = {k}"
| "cmd_keys (SADD k m) = {k}"
| "cmd_keys (SREM k m) = {k}"
| "cmd_keys (ZREMRANGEBYRANK k a b) = {k}"
| "cmd_keys _ = {}"

lemma foldl_del: "foldl (\<lambda>d k. d(k := None)) db ks k' = (if k' \<in> set ks then None else db k')"
  by (induction ks arbitrary: db) auto

lemma redis_ref_frame: "k \<notin> cmd_keys c \<Longrightarrow> fst (redis_ref db c) k = db k"
  by (cases c) (auto simp: foldl_del put_list_def put_zset_def Let_def
      split: option.split rdata.split rstr.split list.split)

lemma rrun_frame:
  "(\<And>c. c \<in> set cs \<Longrightarrow> k \<notin> cmd_keys c) \<Longrightarrow> rrun redis_ref db cs k = db k"
  by (induction cs arbitrary: db) (simp_all add: rrun_Cons redis_ref_frame)

text \<open>
  What a command leaves under a key depends on that key alone, so the content of a key after a
  pipeline is decided by the commands that name it.
\<close>

lemma redis_ref_local:
  assumes "db k = db' k"
  shows "fst (redis_ref db c) k = fst (redis_ref db' c) k"
proof (cases "k \<in> cmd_keys c")
  case True
  then show ?thesis
    by (cases c; cases "db' k") (auto simp: assms foldl_del put_list_def put_zset_def Let_def
        split: option.split rdata.split rstr.split list.split)
next
  case False
  then show ?thesis by (simp add: redis_ref_frame assms)
qed

lemma rrun_local: "db k = db' k \<Longrightarrow> rrun redis_ref db cs k = rrun redis_ref db' cs k"
proof (induction cs arbitrary: db db')
  case (Cons c cs)
  have "fst (redis_ref db c) k = fst (redis_ref db' c) k"
    by (rule redis_ref_local) (rule Cons.prems)
  then show ?case unfolding rrun_Cons by (rule Cons.IH)
qed simp

lemma rrun_filter:
  "rrun redis_ref db cs k = rrun redis_ref db (filter (\<lambda>c. k \<in> cmd_keys c) cs) k"
proof (induction cs arbitrary: db)
  case (Cons c cs)
  show ?case
  proof (cases "k \<in> cmd_keys c")
    case True
    then show ?thesis by (simp add: rrun_Cons) (rule Cons.IH)
  next
    case False
    then have "fst (redis_ref db c) k = db k" by (rule redis_ref_frame)
    then have "rrun redis_ref (fst (redis_ref db c)) cs k = rrun redis_ref db cs k"
      by (rule rrun_local)
    also note Cons.IH
    finally show ?thesis using False by (simp add: rrun_Cons)
  qed
qed simp

text \<open>Pushing onto a list, many times.\<close>

lemma ls_of_put_list [redis_simps, simp]:
  "ls_of (put_list k l db k') = (if k' = k then Some l else ls_of (db k'))"
  by (simp add: put_list_def ls_of_def)

lemma rrun_rpushes:
  assumes "ls_of (db k) = Some l"
  shows "ls_of (rrun redis_ref db (map (\<lambda>v. RPUSH k v) vss) k) = Some (l @ concat vss)"
  using assms by (induction vss arbitrary: db l) (auto simp: rrun_Cons)

lemma zs_of_put_zset [redis_simps, simp]:
  "zs_of (put_zset k zs db k') = (if k' = k then Some zs else zs_of (db k'))"
  by (simp add: put_zset_def zs_of_def)

lemma set_z_insert [simp]: "set (z_insert p zs) = insert p (set zs)"
  by (induction zs) auto

lemma set_z_add: "set (z_add p zs) = insert p {q \<in> set zs. snd q \<noteq> snd p}"
  by (auto simp: z_add_def z_remove_def)

text \<open>A lower score than every member comes first, a higher one last.\<close>

lemma z_insert_last:
  "(\<And>q. q \<in> set zs \<Longrightarrow> fst q < fst p) \<Longrightarrow> z_insert p zs = zs @ [p]"
  by (induction zs) (auto simp: z_before_def)

lemma z_add_last:
  assumes "\<And>q. q \<in> set zs \<Longrightarrow> fst q < fst p" "\<And>q. q \<in> set zs \<Longrightarrow> snd q \<noteq> snd p"
  shows "z_add p zs = zs @ [p]"
proof -
  have "z_remove (snd p) zs = zs" using assms(2) by (simp add: z_remove_def)
  then show ?thesis using assms(1) by (simp add: z_add_def z_insert_last)
qed

end
