(* ===== verification/World.thy ===== *)
theory World
  imports RedisClient StatusCounters
begin

text \<open>
  The state the API server works on: the Redis keyspace, the Postgres tables, the process-wide
  maps of \<^verbatim>\<open>task_handler.go\<close>, the clock, and the goroutines that have been started and not run
  yet. A handler takes the outside services (\<open>svc\<close>) and the world and returns the new world and
  the response; \<^verbatim>\<open>go f(x)\<close> appends a value to \<open>w_spawned\<close>, which \<open>run_go\<close> of a later theory
  executes, so that the interleavings with other requests are explicit sequences of steps.
\<close>

section \<open>Services\<close>

text \<open>
  \<open>rx\<close> executes one Redis command. \<open>dbErr label i\<close> says that the SQL statement named by the label
  fails for row \<open>i\<close>; a statement that fails leaves its table unchanged. \<open>flexible_yt\<close> stands for
  \<^verbatim>\<open>unmarshalYoutubeTaskWithFlexibleTime\<close>, the second parser tried on a document that
  \<^verbatim>\<open>json.Unmarshal\<close> rejects because of its time strings; its result is arbitrary here.
\<close>

record svc =
  rx :: rexec
  dbErr :: "string \<Rightarrow> int \<Rightarrow> bool"
  flexible_yt :: "rstr \<Rightarrow> youtube_task option"

definition db_up :: "svc \<Rightarrow> bool" where
  "db_up S = (\<forall>l i. \<not> dbErr S l i)"

definition svc_up :: "svc \<Rightarrow> bool" where
  "svc_up S = (redis_up (rx S) \<and> db_up S)"

definition svc_ref :: svc where
  "svc_ref = \<lparr>rx = redis_ref, dbErr = (\<lambda>_ _. False), flexible_yt = (\<lambda>_. None)\<rparr>"

lemma svc_up_ref [simp]: "svc_up svc_ref"
  by (simp add: svc_up_def svc_ref_def db_up_def)

lemma svc_ref_sel [simp]:
  "rx svc_ref = redis_ref" "dbErr svc_ref l i = False" "flexible_yt svc_ref v = None"
  by (simp_all add: svc_ref_def)

lemma svc_upD: "svc_up S \<Longrightarrow> rx S = redis_ref" "svc_up S \<Longrightarrow> dbErr S l i = False"
  by (auto simp: svc_up_def db_up_def dest: redis_upD)

lemma rx_up: "redis_up (rx S) \<Longrightarrow> rx S = redis_ref"
  by (rule redis_upD)

section \<open>State\<close>

datatype fill_key = FillJob int | FillKey string

datatype gojob =
    GoFillYt int
  | GoFillTx int
  | GoFillFf int
  | GoRetryTx int status
  | GoRetryYt int status
  | GoRetryNonCompleted int string
  | GoAddYtTasks int "string list"
  | GoAddTxTasks int "string list"
  | GoCleanupTx int
  | GoCleanupYt int
  | GoCleanupYtAll "int list"
  | GoCleanupFf int

record world =
  w_redis :: redis_db
  w_now :: time
  w_ytJobs :: "youtube_job list"
  w_ytRecs :: "youtube_task_record list"
  w_txJobs :: "transfer_job list"
  w_txTasks :: "transfer_task list"
  w_ffJobs :: "ffmpeg_job list"
  w_pipelines :: "pipeline_job list"
  w_jobBuffers :: "(int \<times> youtube_task list) list"
  w_txJobBuffers :: "(int \<times> transfer_task list) list"
  w_ffmpegJobBuffers :: "(int \<times> ffmpeg_task list) list"
  w_fillingMap :: "fill_key set"
  w_statsBuffer :: stats_buffer
  w_txStatsBuffer :: stats_buffer
  w_jobShardingMode :: "int \<rightharpoonup> bool"
  w_jobMachineNameCache :: "int \<rightharpoonup> string"
  w_txAcquireRequestCount :: "32 word"
  w_spawned :: "gojob list"

definition world0 :: world where
  "world0 = \<lparr>w_redis = Map.empty, w_now = 1, w_ytJobs = [], w_ytRecs = [], w_txJobs = [],
     w_txTasks = [], w_ffJobs = [], w_pipelines = [], w_jobBuffers = [], w_txJobBuffers = [],
     w_ffmpegJobBuffers = [], w_fillingMap = {}, w_statsBuffer = [], w_txStatsBuffer = [],
     w_jobShardingMode = Map.empty, w_jobMachineNameCache = Map.empty,
     w_txAcquireRequestCount = 0, w_spawned = []\<rparr>"

definition redis_do :: "svc \<Rightarrow> redis_cmd \<Rightarrow> world \<Rightarrow> world \<times> reply" where
  "redis_do S c w = (case rx S (w_redis w) c of (db, r) \<Rightarrow> (w\<lparr>w_redis := db\<rparr>, r))"

definition redis_set :: "svc \<Rightarrow> redis_cmd \<Rightarrow> world \<Rightarrow> world" where
  "redis_set S c w = fst (redis_do S c w)"

definition redis_pipe :: "svc \<Rightarrow> redis_cmd list \<Rightarrow> world \<Rightarrow> world \<times> reply list" where
  "redis_pipe S cs w = (case rpipe (rx S) (w_redis w) cs of (db, rs) \<Rightarrow> (w\<lparr>w_redis := db\<rparr>, rs))"

definition spawn :: "gojob \<Rightarrow> world \<Rightarrow> world" where
  "spawn g w = w\<lparr>w_spawned := w_spawned w @ [g]\<rparr>"

text \<open>
  The two accesses to \<^verbatim>\<open>fillingMap\<close> in a trigger, a \<^verbatim>\<open>Load\<close> and a \<^verbatim>\<open>Store\<close>: each is atomic, the
  pair is not. The functions for the triggers run them one after the other, as a handler does that
  nothing interrupts; the theory \<^verbatim>\<open>Background\<close> interleaves them.
\<close>

definition filling :: "fill_key \<Rightarrow> world \<Rightarrow> bool" where
  "filling k w = (k \<in> w_fillingMap w)"

definition store_filling :: "fill_key \<Rightarrow> world \<Rightarrow> world" where
  "store_filling k w = w\<lparr>w_fillingMap := insert k (w_fillingMap w)\<rparr>"

lemma store_filling_sel [simp]:
  "w_redis (store_filling k w) = w_redis w"
  "w_jobBuffers (store_filling k w) = w_jobBuffers w"
  "w_txJobBuffers (store_filling k w) = w_txJobBuffers w"
  "w_ffmpegJobBuffers (store_filling k w) = w_ffmpegJobBuffers w"
  "w_spawned (store_filling k w) = w_spawned w"
  "w_fillingMap (store_filling k w) = insert k (w_fillingMap w)"
  by (simp_all add: store_filling_def)

lemma redis_do_up [redis_simps]:
  "redis_up (rx S) \<Longrightarrow> redis_do S c w =
     (w\<lparr>w_redis := fst (redis_ref (w_redis w) c)\<rparr>, snd (redis_ref (w_redis w) c))"
  by (simp add: redis_do_def rx_up split_beta)

lemma redis_pipe_up [redis_simps]:
  "redis_up (rx S) \<Longrightarrow> redis_pipe S cs w =
     (w\<lparr>w_redis := rrun redis_ref (w_redis w) cs\<rparr>, snd (rpipe redis_ref (w_redis w) cs))"
  by (simp add: redis_pipe_def rx_up split_beta)

section \<open>Responses\<close>

datatype body =
    BError string
  | BMessage string
  | BStatus string
  | BCount int
  | BAdded int int
  | BYtTasks "youtube_task list"
  | BYtPage "youtube_task list" int
  | BTxTasks "transfer_task list"
  | BFfTasks "ffmpeg_task list"
  | BTxJob transfer_job
  | BYtJob youtube_job
  | BFfJob ffmpeg_job
  | BTxJobs "transfer_job list"
  | BFfJobs "ffmpeg_job list"
  | BYtRecord youtube_task_record
  | BPipeline pipeline_job
  | BInvalid string nat nat nat
  | BOffset int int int int
  | BNone

type_synonym response = "nat \<times> body"

abbreviation StatusOK :: nat where "StatusOK \<equiv> 200"
abbreviation StatusCreated :: nat where "StatusCreated \<equiv> 201"
abbreviation StatusAccepted :: nat where "StatusAccepted \<equiv> 202"
abbreviation StatusBadRequest :: nat where "StatusBadRequest \<equiv> 400"
abbreviation StatusNotFound :: nat where "StatusNotFound \<equiv> 404"
abbreviation StatusInternalServerError :: nat where "StatusInternalServerError \<equiv> 500"

end
