(* ===== verification/Routing.thy ===== *)
theory Routing
  imports World
begin

text \<open>
  Redis key names and the routing of tasks to machines: the sharding mode of a transfer job, the
  deduplication shard and the bucket of a task (\<^verbatim>\<open>task_handler.go\<close> lines 74 to 112, \<^verbatim>\<open>fnv32\<close>),
  and the cached machine name of a YouTube job with the queue names derived from it.
\<close>

unbundle bit_operations_syntax

named_theorems key_defs \<open>definitions of key names\<close>

section \<open>Constants\<close>

abbreviation BufferSize :: nat where "BufferSize \<equiv> 2000"
abbreviation FetchBatchSize :: int where "FetchBatchSize \<equiv> 100"
abbreviation BufferLowWater :: nat where "BufferLowWater \<equiv> 100"
abbreviation TxFetchBatchSize :: int where "TxFetchBatchSize \<equiv> 1000"
abbreviation DedupShards :: "32 word" where "DedupShards \<equiv> 256"
abbreviation TaskBucketSize :: int where "TaskBucketSize \<equiv> 50000"
abbreviation LargeFileThresholdBytes :: int where
  "LargeFileThresholdBytes \<equiv> 1000 * 1024 * 1024"
abbreviation IncrementalIdleScanThreshold :: int where "IncrementalIdleScanThreshold \<equiv> 2"

section \<open>Key names\<close>

definition yt_task_key :: "int \<Rightarrow> string" where
  [key_defs]: "yt_task_key i = ''task:'' @ itoa i"
definition yt_job_key :: "int \<Rightarrow> string" where
  [key_defs]: "yt_job_key j = ''job:'' @ itoa j @ '':tasks''"
definition yt_offset_key :: "int \<Rightarrow> string" where
  [key_defs]: "yt_offset_key j = ''job:'' @ itoa j @ '':offset''"
definition yt_lock_key :: "int \<Rightarrow> string" where
  [key_defs]: "yt_lock_key j = ''job:'' @ itoa j @ '':lock''"

definition tx_task_key :: "int \<Rightarrow> string" where
  [key_defs]: "tx_task_key i = ''tx:task:'' @ itoa i"
definition tx_sharded_task_key :: "int \<Rightarrow> int \<Rightarrow> string" where
  [key_defs]: "tx_sharded_task_key j i = ''tx:task:'' @ itoa j @ '':'' @ itoa i"
definition tx_job_key :: "int \<Rightarrow> string" where
  [key_defs]: "tx_job_key j = ''tx:job:'' @ itoa j @ '':tasks''"
definition tx_bucket_key :: "int \<Rightarrow> int \<Rightarrow> string" where
  [key_defs]: "tx_bucket_key j b = ''tx:job:'' @ itoa j @ '':tasks:'' @ itoa b"
definition tx_offset_key :: "int \<Rightarrow> string" where
  [key_defs]: "tx_offset_key j = ''tx:job:'' @ itoa j @ '':offset''"
definition tx_max_id_key :: "int \<Rightarrow> string" where
  [key_defs]: "tx_max_id_key j = ''tx:job:'' @ itoa j @ '':max_id''"
definition tx_lock_key :: "int \<Rightarrow> string" where
  [key_defs]: "tx_lock_key j = ''tx:job:'' @ itoa j @ '':lock''"
definition tx_dedup_key :: "int \<Rightarrow> string" where
  [key_defs]: "tx_dedup_key j = ''tx:job:'' @ itoa j @ '':dedup''"
definition tx_dedup_shard_key :: "int \<Rightarrow> int \<Rightarrow> string" where
  [key_defs]: "tx_dedup_shard_key j s = ''tx:job:'' @ itoa j @ '':dedup:'' @ itoa s"

definition ff_task_key :: "int \<Rightarrow> string" where
  [key_defs]: "ff_task_key i = ''ff:task:'' @ itoa i"
definition ff_job_key :: "int \<Rightarrow> string" where
  [key_defs]: "ff_job_key j = ''ff:job:'' @ itoa j @ '':tasks''"
definition ff_offset_key :: "int \<Rightarrow> string" where
  [key_defs]: "ff_offset_key j = ''ff:job:'' @ itoa j @ '':offset''"
definition ff_lock_key :: "int \<Rightarrow> string" where
  [key_defs]: "ff_lock_key j = ''ff:job:'' @ itoa j @ '':lock''"

definition download_queue :: "string \<Rightarrow> string" where
  [key_defs]: "download_queue m = ''queue:youtube:download_ready:'' @ m"
definition metadata_queue :: "string \<Rightarrow> string" where
  [key_defs]: "metadata_queue m = ''queue:youtube:metadata_retry:'' @ m"

section \<open>Transfer jobs: sharding\<close>

text \<open>
  A job is legacy when its old sorted set exists; the answer is cached for the life of the
  process. A failed \<^verbatim>\<open>EXISTS\<close> leaves the Go variable at 0 and counts as "does not exist".
\<close>

definition isJobSharded :: "svc \<Rightarrow> int \<Rightarrow> world \<Rightarrow> world \<times> bool" where
  "isJobSharded S jobID w =
     (case w_jobShardingMode w jobID of
        Some v \<Rightarrow> (w, v)
      | None \<Rightarrow>
          (let (w1, r) = redis_do S (EXISTS (tx_job_key jobID)) w;
               sharded = (case r of RInt n \<Rightarrow> n = 0 | _ \<Rightarrow> True)
           in (w1\<lparr>w_jobShardingMode := (w_jobShardingMode w1)(jobID \<mapsto> sharded)\<rparr>, sharded)))"

text \<open>FNV-1a on 32-bit words (\<^verbatim>\<open>hash/fnv\<close>).\<close>

definition fnv32 :: "string \<Rightarrow> 32 word" where
  "fnv32 key = foldl (\<lambda>h c. (h XOR of_nat (of_char c)) * 16777619) 2166136261 key"

definition getDedupShardKey :: "int \<Rightarrow> string \<Rightarrow> string" where
  "getDedupShardKey jobID src = tx_dedup_shard_key jobID (uint (fnv32 src mod DedupShards))"

definition getTaskBucketKey :: "int \<Rightarrow> int \<Rightarrow> string" where
  "getTaskBucketKey jobID taskID = tx_bucket_key jobID (go_div taskID TaskBucketSize)"

definition getTxTaskKey :: "svc \<Rightarrow> int \<Rightarrow> int \<Rightarrow> world \<Rightarrow> world \<times> string" where
  "getTxTaskKey S jobID taskID w =
     (let (w1, sharded) = isJobSharded S jobID w
      in (w1, if sharded then tx_sharded_task_key jobID taskID else tx_task_key taskID))"

section \<open>YouTube jobs: machines and queues\<close>

text \<open>
  The lookup is cached, a failed query as the empty name; nothing invalidates the cache. The label
  \<^verbatim>\<open>youtube_jobs.machine_name\<close> names the query for \<open>dbErr\<close>.
\<close>

definition getJobMachineName :: "svc \<Rightarrow> int \<Rightarrow> world \<Rightarrow> world \<times> string" where
  "getJobMachineName S jobID w =
     (case w_jobMachineNameCache w jobID of
        Some m \<Rightarrow> (w, m)
      | None \<Rightarrow>
          (let m = (case find_row yj_ID jobID (w_ytJobs w) of
                      Some j \<Rightarrow> if dbErr S ''youtube_jobs.machine_name'' jobID then []
                                else yj_MachineName j
                    | None \<Rightarrow> [])
           in (w\<lparr>w_jobMachineNameCache := (w_jobMachineNameCache w)(jobID \<mapsto> m)\<rparr>, m)))"

definition shouldProcessTask :: "svc \<Rightarrow> int \<Rightarrow> string \<Rightarrow> world \<Rightarrow> world \<times> bool" where
  "shouldProcessTask S taskJobID workerMachineName w =
     (let (w1, m) = getJobMachineName S taskJobID w
      in (w1, if m = [] then True else m = workerMachineName))"

definition getDownloadQueueName :: "svc \<Rightarrow> int \<Rightarrow> world \<Rightarrow> world \<times> string" where
  "getDownloadQueueName S jobID w =
     (let (w1, m) = getJobMachineName S jobID w
      in (w1, if m = [] then download_queue ''all'' else download_queue m))"

definition getMetadataQueueName :: "svc \<Rightarrow> int \<Rightarrow> world \<Rightarrow> world \<times> string" where
  "getMetadataQueueName S jobID w =
     (let (w1, m) = getJobMachineName S jobID w
      in (w1, if m = [] then metadata_queue ''all'' else metadata_queue m))"

text \<open>The queues a worker's acquire request polls, in order.\<close>

definition acquire_queues :: "(string \<Rightarrow> string) \<Rightarrow> string \<Rightarrow> string list" where
  "acquire_queues queue machineName =
     (if machineName \<noteq> [] then [queue machineName, queue ''all''] else [queue ''all''])"

section \<open>Facts\<close>

lemma fnv32_shard_bound: "uint (fnv32 src mod DedupShards) < 256"
  by (simp add: uint_mod_distrib)

lemma shard_key_inj [simp]:
  "tx_dedup_shard_key j s = tx_dedup_shard_key j' s' \<longleftrightarrow> j = j' \<and> s = s'"
  by (auto simp: key_defs)

lemma bucket_key_inj [simp]:
  "tx_bucket_key j b = tx_bucket_key j' b' \<longleftrightarrow> j = j' \<and> b = b'"
  by (auto simp: key_defs)

lemma sharded_task_key_inj [simp]:
  "tx_sharded_task_key j i = tx_sharded_task_key j' i' \<longleftrightarrow> j = j' \<and> i = i'"
  by (auto simp: key_defs)

lemma simple_key_inj [simp]:
  "yt_task_key i = yt_task_key i' \<longleftrightarrow> i = i'"
  "tx_task_key i = tx_task_key i' \<longleftrightarrow> i = i'"
  "ff_task_key i = ff_task_key i' \<longleftrightarrow> i = i'"
  "download_queue m = download_queue m' \<longleftrightarrow> m = m'"
  "metadata_queue m = metadata_queue m' \<longleftrightarrow> m = m'"
  by (simp_all add: key_defs)

lemma queue_kinds_differ [simp]:
  "download_queue m \<noteq> metadata_queue m'" "metadata_queue m \<noteq> download_queue m'"
  by (simp_all add: key_defs)

lemma getJobMachineName_frame [simp]:
  "w_redis (fst (getJobMachineName S j w)) = w_redis w"
  "w_ytJobs (fst (getJobMachineName S j w)) = w_ytJobs w"
  "w_statsBuffer (fst (getJobMachineName S j w)) = w_statsBuffer w"
  "w_now (fst (getJobMachineName S j w)) = w_now w"
  "w_jobBuffers (fst (getJobMachineName S j w)) = w_jobBuffers w"
  by (simp_all add: getJobMachineName_def Let_def split: option.split)

text \<open>The answer is stable: asking again gives the same name and changes nothing.\<close>

lemma getJobMachineName_again:
  "getJobMachineName S j (fst (getJobMachineName S j w)) = getJobMachineName S j w"
  by (auto simp: getJobMachineName_def Let_def split: option.split)

end
