(* ===== verification/OffsetBuffer.thy ===== *)
theory OffsetBuffer
  imports Routing
begin

text \<open>
  The prefetch buffers. \<^verbatim>\<open>fillJobBuffer\<close>, \<^verbatim>\<open>fillLeagcyTxJobBuffer\<close> and \<^verbatim>\<open>fillFfmpegJobBuffer\<close>
  of \<^verbatim>\<open>task_handler.go\<close> are three copies of one routine that differ in their keys, the
  batch size and the buffer they write; \<open>offset_fill\<close> is that routine with the differences as
  parameters, and the locale \<open>offset_filler\<close> states what a buffer has to provide for it. Its
  client lemmas say that refills and drains together deliver every pending task of the job
  once and in order. A channel is the list of the tasks waiting in it; a refill runs without
  interruption (its Redis lock keeps other refills of the job out).
\<close>

section \<open>The routine\<close>

text \<open>
  The loop over the \<^verbatim>\<open>MGET\<close> answer: \<^verbatim>\<open>processed\<close> counts every item looked at, except the one that
  found the channel full.
\<close>

fun fill_scan ::
  "(rstr \<Rightarrow> 't option) \<Rightarrow> ('t \<Rightarrow> status) \<Rightarrow> nat \<Rightarrow> rstr option list \<Rightarrow> 't list \<Rightarrow> nat \<Rightarrow> 't list \<times> nat"
where
  "fill_scan dec st cap [] ch processed = (ch, processed)"
| "fill_scan dec st cap (item # items) ch processed =
     (case item of
        None \<Rightarrow> fill_scan dec st cap items ch (Suc processed)
      | Some v \<Rightarrow>
          (case dec v of
             None \<Rightarrow> fill_scan dec st cap items ch (Suc processed)
           | Some t \<Rightarrow>
               if st t \<noteq> ''PENDING'' then fill_scan dec st cap items ch (Suc processed)
               else if length ch < cap then fill_scan dec st cap items (ch @ [t]) (Suc processed)
               else (ch, processed)))"

definition offset_fill_body ::
  "svc \<Rightarrow> string \<Rightarrow> string \<Rightarrow> string \<Rightarrow> int \<Rightarrow> (rstr \<Rightarrow> 't option) \<Rightarrow> ('t \<Rightarrow> status)
     \<Rightarrow> (world \<Rightarrow> 't list option) \<Rightarrow> ('t list \<Rightarrow> world \<Rightarrow> world) \<Rightarrow> world \<Rightarrow> world" where
  "offset_fill_body S offsetKey jobKey prefix batch dec st getb setb w =
     (let (w1, off) = redis_do S (GET offsetKey) w; offset = scan_num off;
          (w2, r) = redis_do S (ZRANGE jobKey offset (offset + batch - 1)) w1
      in case r of
           RArr ids \<Rightarrow>
             if ids = [] then w2
             else (let (w3, m) = redis_do S (MGET (map (\<lambda>i. prefix @ i) ids)) w2
                   in case m of
                        RVals items \<Rightarrow>
                          (case getb w3 of
                             None \<Rightarrow> w3
                           | Some ch \<Rightarrow>
                               (let (ch', processed) = fill_scan dec st BufferSize items ch 0;
                                    w4 = setb ch' w3
                                in if processed > 0
                                   then redis_set S (SET offsetKey (Num (offset + int processed))) w4
                                   else w4))
                      | _ \<Rightarrow> w3)
         | _ \<Rightarrow> w2)"

text \<open>The lock is taken with \<^verbatim>\<open>SetNX\<close> and deleted on every way out.\<close>

definition offset_fill ::
  "svc \<Rightarrow> string \<Rightarrow> string \<Rightarrow> string \<Rightarrow> string \<Rightarrow> int \<Rightarrow> (rstr \<Rightarrow> 't option) \<Rightarrow> ('t \<Rightarrow> status)
     \<Rightarrow> (world \<Rightarrow> 't list option) \<Rightarrow> ('t list \<Rightarrow> world \<Rightarrow> world) \<Rightarrow> world \<Rightarrow> world" where
  "offset_fill S lockKey offsetKey jobKey prefix batch dec st getb setb w =
     (let (w1, r) = redis_do S (SETNX lockKey (Num 1)) w
      in if r \<noteq> RInt 1 then w1
         else redis_set S (DEL [lockKey])
                (offset_fill_body S offsetKey jobKey prefix batch dec st getb setb w1))"

section \<open>The scan\<close>

text \<open>The pending tasks of a list of \<^verbatim>\<open>MGET\<close> answers.\<close>

definition doc_of :: "(rstr \<Rightarrow> 't option) \<Rightarrow> rstr option \<Rightarrow> 't option" where
  "doc_of dec item = Option.bind item dec"

definition pending_docs :: "(rstr \<Rightarrow> 't option) \<Rightarrow> ('t \<Rightarrow> status) \<Rightarrow> rstr option list \<Rightarrow> 't list" where
  "pending_docs dec st items =
     filter (\<lambda>t. st t = ''PENDING'') (map the (filter (\<lambda>d. d \<noteq> None) (map (doc_of dec) items)))"

lemma pending_docs_Nil [simp]: "pending_docs dec st [] = []"
  by (simp add: pending_docs_def)

lemma pending_docs_append [simp]:
  "pending_docs dec st (xs @ ys) = pending_docs dec st xs @ pending_docs dec st ys"
  by (simp add: pending_docs_def)

lemma pending_docs_Cons:
  "pending_docs dec st (x # xs) =
     (case doc_of dec x of
        None \<Rightarrow> pending_docs dec st xs
      | Some t \<Rightarrow> (if st t = ''PENDING'' then [t] else []) @ pending_docs dec st xs)"
  by (simp add: pending_docs_def split: option.split)

lemma length_pending_docs: "length (pending_docs dec st items) \<le> length items"
  by (induction items) (auto simp: pending_docs_Cons split: option.split)

text \<open>
  What the scan does: it appends the pending documents of the items it counted, and it stops
  before the end only in front of a pending task with the channel full.
\<close>

lemma fill_scan_Cons:
  "fill_scan dec st cap (item # items) ch p =
     (case doc_of dec item of
        None \<Rightarrow> fill_scan dec st cap items ch (Suc p)
      | Some t \<Rightarrow>
          if st t \<noteq> ''PENDING'' then fill_scan dec st cap items ch (Suc p)
          else if length ch < cap then fill_scan dec st cap items (ch @ [t]) (Suc p)
          else (ch, p))"
  by (cases item) (simp_all add: doc_of_def)

declare fill_scan.simps(2) [simp del]

lemma fill_scan_spec:
  assumes "fill_scan dec st cap items ch p = (ch', p')"
  shows "\<exists>n \<le> length items. p' = p + n \<and> ch' = ch @ pending_docs dec st (take n items)
    \<and> (n < length items \<longrightarrow> cap \<le> length ch') \<and> (length ch \<le> cap \<longrightarrow> length ch' \<le> cap)"
  using assms
proof (induction items arbitrary: ch p)
  case Nil
  then show ?case by simp
next
  case (Cons item items)
  have lift: ?case if eq: "fill_scan dec st cap items c (Suc p) = (ch', p')"
    and c: "c = ch @ pending_docs dec st [item]" "length ch \<le> cap \<longrightarrow> length c \<le> cap" for c
  proof -
    from Cons.IH [OF eq] obtain n where n: "n \<le> length items" "p' = Suc p + n"
      "ch' = c @ pending_docs dec st (take n items)" "n < length items \<longrightarrow> cap \<le> length ch'"
      "length c \<le> cap \<longrightarrow> length ch' \<le> cap" by blast
    have "pending_docs dec st (take (Suc n) (item # items))
        = pending_docs dec st [item] @ pending_docs dec st (take n items)"
      by (simp add: pending_docs_Cons split: option.split)
    with n c show ?thesis by (intro exI [of _ "Suc n"]) auto
  qed
  show ?case
  proof (cases "doc_of dec item")
    case None
    with Cons.prems show ?thesis
      by - (rule lift [of ch], auto simp: fill_scan_Cons pending_docs_Cons)
  next
    case (Some t)
    consider "st t \<noteq> ''PENDING''" | "st t = ''PENDING''" "length ch < cap"
      | "st t = ''PENDING''" "cap \<le> length ch" by linarith
    then show ?thesis
    proof cases
      case 1
      with Cons.prems Some show ?thesis
        by - (rule lift [of ch], auto simp: fill_scan_Cons pending_docs_Cons)
    next
      case 2
      with Cons.prems Some show ?thesis
        by - (rule lift [of "ch @ [t]"], auto simp: fill_scan_Cons pending_docs_Cons)
    next
      case 3
      with Cons.prems Some show ?thesis by (intro exI [of _ 0]) (auto simp: fill_scan_Cons)
    qed
  qed
qed

section \<open>The contract of a buffer\<close>

text \<open>The documents of a job in the order of its sorted set, and its stored offset.\<close>

definition job_items :: "string \<Rightarrow> string \<Rightarrow> redis_db \<Rightarrow> rstr option list" where
  "job_items jobKey prefix db =
     (case zs_of (db jobKey) of
        None \<Rightarrow> [] | Some zs \<Rightarrow> map (\<lambda>i. str_of (db (prefix @ i))) (map snd zs))"

definition offset_at :: "string \<Rightarrow> redis_db \<Rightarrow> int" where
  "offset_at offsetKey db = scan_num (snd (redis_ref db (GET offsetKey)))"

text \<open>A refill, or a consumer taking up to \<open>n\<close> tasks out of the channel.\<close>

datatype buf_event = Refill | Drain nat

fun buf_run ::
  "(world \<Rightarrow> world) \<Rightarrow> (world \<Rightarrow> 't list option) \<Rightarrow> ('t list \<Rightarrow> world \<Rightarrow> world) \<Rightarrow> buf_event list
     \<Rightarrow> world \<times> 't list \<Rightarrow> world \<times> 't list" where
  "buf_run fill getb setb [] s = s"
| "buf_run fill getb setb (Refill # es) (w, d) = buf_run fill getb setb es (fill w, d)"
| "buf_run fill getb setb (Drain n # es) (w, d) =
     (case getb w of
        None \<Rightarrow> buf_run fill getb setb es (w, d)
      | Some ch \<Rightarrow> buf_run fill getb setb es (setb (drop n ch) w, d @ take n ch))"

lemma buf_run_append:
  "buf_run fill getb setb (es @ fs) s = buf_run fill getb setb fs (buf_run fill getb setb es s)"
  by (induction fill getb setb es s rule: buf_run.induct) (simp_all split: option.split)

lemma z_slice_batch:
  "0 < b \<Longrightarrow> z_slice (int n) (int n + b - 1) xs = take (nat b) (drop n xs)"
  by (simp add: z_slice_def z_index_def Let_def)

locale offset_filler =
  fixes lockKey offsetKey jobKey prefix :: string
    and batch :: int
    and dec :: "rstr \<Rightarrow> 't option"
    and st :: "'t \<Rightarrow> status"
    and getb :: "world \<Rightarrow> 't list option"
    and setb :: "'t list \<Rightarrow> world \<Rightarrow> world"
  assumes getb_setb: "getb (setb ch w) = Some ch"
    and getb_redis: "getb (w\<lparr>w_redis := db\<rparr>) = getb w"
    and redis_setb: "w_redis (setb ch w) = w_redis w"
    and keys_apart: "offsetKey \<noteq> jobKey" "lockKey \<noteq> jobKey" "lockKey \<noteq> offsetKey"
    and docs_apart: "prefix @ i \<noteq> offsetKey" "prefix @ i \<noteq> lockKey"
    and batch_pos: "0 < batch" "batch \<le> int BufferSize"
begin

lemma job_items_frame:
  assumes "\<And>k. k \<noteq> offsetKey \<Longrightarrow> k \<noteq> lockKey \<Longrightarrow> db' k = db k"
  shows "job_items jobKey prefix db' = job_items jobKey prefix db"
proof -
  have "db' jobKey = db jobKey" using assms keys_apart by metis
  moreover have "db' (prefix @ i) = db (prefix @ i)" for i using assms docs_apart by metis
  ultimately show ?thesis by (simp add: job_items_def split: option.split)
qed

text \<open>One refill of a channel whose lock is free.\<close>

lemma fill_body:
  assumes up: "redis_up (rx S)" and ch: "getb w = Some ch"
    and zs: "zs_of (w_redis w jobKey) \<noteq> None" and off: "offset_at offsetKey (w_redis w) = int k"
    and w': "w' = offset_fill_body S offsetKey jobKey prefix batch dec st getb setb w"
  shows "\<exists>n ch'. n \<le> nat batch \<and> getb w' = Some ch'
    \<and> offset_at offsetKey (w_redis w') = int (k + n)
    \<and> ch' = ch @ pending_docs dec st (take n (drop k (job_items jobKey prefix (w_redis w))))
    \<and> n \<le> length (job_items jobKey prefix (w_redis w)) - k
    \<and> (n < min (nat batch) (length (job_items jobKey prefix (w_redis w)) - k)
         \<longrightarrow> BufferSize \<le> length ch')
    \<and> (\<forall>key. key \<noteq> offsetKey \<longrightarrow> w_redis w' key = w_redis w key)"
proof -
  obtain zs where zs: "zs_of (w_redis w jobKey) = Some zs" using zs by blast
  let ?ids = "take (nat batch) (drop k (map snd zs))"
  let ?items = "map (\<lambda>i. str_of (w_redis w (prefix @ i))) ?ids"
  have items: "?items = take (nat batch) (drop k (job_items jobKey prefix (w_redis w)))"
    by (simp add: job_items_def zs take_map drop_map)
  have len: "length (job_items jobKey prefix (w_redis w)) = length zs"
    by (simp add: job_items_def zs)
  have off': "scan_num (snd (redis_ref (w_redis w) (GET offsetKey))) = int k"
    using off by (simp add: offset_at_def)
  note body = w' [unfolded offset_fill_body_def Let_def redis_do_up [OF up] prod.case]
  show ?thesis
  proof (cases "?ids = []")
    case True
    have "w' = w"
      using body off' True by (simp add: zs z_slice_batch batch_pos)
    with True ch off show ?thesis by (intro exI [of _ 0] exI [of _ ch]) (auto simp: len)
  next
    case False
    obtain ch' p where scan: "fill_scan dec st BufferSize ?items ch 0 = (ch', p)" by fastforce
    from fill_scan_spec [OF this] have p: "p \<le> length ?items"
      "ch' = ch @ pending_docs dec st (take p ?items)"
      "p < length ?items \<longrightarrow> BufferSize \<le> length ch'" by auto
    have w'': "w' = (if 0 < p then redis_set S (SET offsetKey (Num (int k + int p))) (setb ch' w)
        else setb ch' w)"
      using body off' False scan ch by (simp add: zs z_slice_batch batch_pos getb_redis comp_def)
    have "take p ?items = take p (drop k (job_items jobKey prefix (w_redis w)))"
      using p(1) unfolding items by (auto simp: min_def split: if_splits)
    moreover have "length ?items = min (nat batch) (length zs - k)" by simp
    moreover have "getb w' = Some ch'"
      using w'' by (simp add: redis_set_def redis_do_up [OF up] getb_redis getb_setb)
    moreover have "offset_at offsetKey (w_redis w') = int (k + p)"
      using w'' off by (auto simp: redis_set_def redis_do_up [OF up] redis_setb offset_at_def)
    moreover have "\<forall>key. key \<noteq> offsetKey \<longrightarrow> w_redis w' key = w_redis w key"
      using w'' by (auto simp: redis_set_def redis_do_up [OF up] redis_setb)
    ultimately show ?thesis using p len by (intro exI [of _ p] exI [of _ ch']) auto
  qed
qed

lemma fill_locked:
  assumes "redis_up (rx S)" "w_redis w lockKey \<noteq> None"
  shows "offset_fill S lockKey offsetKey jobKey prefix batch dec st getb setb w = w"
  using assms by (auto simp: offset_fill_def redis_do_up)

text \<open>The state between requests: lock free, keyspace well typed, a channel within its capacity.\<close>

definition ready :: "rstr option list \<Rightarrow> nat \<Rightarrow> 't list \<Rightarrow> world \<Rightarrow> bool" where
  "ready items k ch w \<longleftrightarrow>
     getb w = Some ch \<and> w_redis w lockKey = None \<and> zs_of (w_redis w jobKey) \<noteq> None
     \<and> offset_at offsetKey (w_redis w) = int k \<and> k \<le> length items
     \<and> job_items jobKey prefix (w_redis w) = items"

lemma fill_step:
  assumes up: "redis_up (rx S)" and r: "ready items k ch w"
  shows "\<exists>n ch'. ready items (k + n) ch'
      (offset_fill S lockKey offsetKey jobKey prefix batch dec st getb setb w)
    \<and> n \<le> nat batch \<and> ch' = ch @ pending_docs dec st (take n (drop k items))
    \<and> (n < min (nat batch) (length items - k) \<longrightarrow> BufferSize \<le> length ch')"
proof -
  let ?w1 = "w\<lparr>w_redis := (w_redis w)(lockKey \<mapsto> RS (Num 1))\<rparr>"
  define w2 where "w2 = offset_fill_body S offsetKey jobKey prefix batch dec st getb setb ?w1"
  have frame: "job_items jobKey prefix (w_redis ?w1) = items"
    using r by (subst job_items_frame [where db = "w_redis w"]) (auto simp: ready_def)
  have "getb ?w1 = Some ch" "zs_of (w_redis ?w1 jobKey) \<noteq> None"
    "offset_at offsetKey (w_redis ?w1) = int k"
    using r keys_apart by (auto simp: ready_def getb_redis offset_at_def)
  from fill_body [OF up this w2_def, unfolded frame] obtain n ch' where n: "n \<le> nat batch"
    "getb w2 = Some ch'" "offset_at offsetKey (w_redis w2) = int (k + n)"
    "ch' = ch @ pending_docs dec st (take n (drop k items))" "n \<le> length items - k"
    "n < min (nat batch) (length items - k) \<longrightarrow> BufferSize \<le> length ch'"
    "\<forall>key. key \<noteq> offsetKey \<longrightarrow> w_redis w2 key = w_redis ?w1 key" by blast
  let ?w3 = "redis_set S (DEL [lockKey]) w2"
  have eq: "offset_fill S lockKey offsetKey jobKey prefix batch dec st getb setb w = ?w3"
    using r by (simp add: offset_fill_def redis_do_up [OF up] ready_def w2_def)
  have w3: "w_redis ?w3 = (w_redis w2)(lockKey := None)" "getb ?w3 = getb w2"
    by (simp_all add: redis_set_def redis_do_up [OF up] getb_redis)
  have same: "w_redis ?w3 key = w_redis w key" if "key \<noteq> offsetKey" "key \<noteq> lockKey" for key
    using n(7) that by (simp add: w3)
  then have "job_items jobKey prefix (w_redis ?w3) = items"
    using r by (subst job_items_frame [where db = "w_redis w"]) (auto simp: ready_def)
  moreover have "w_redis ?w3 jobKey = w_redis w jobKey" using same keys_apart by metis
  moreover have "offset_at offsetKey (w_redis ?w3) = int (k + n)"
    using n(3) keys_apart by (simp add: w3 offset_at_def)
  ultimately have "ready items (k + n) ch' ?w3"
    using r n w3 by (auto simp: ready_def)
  then show ?thesis using n eq by auto
qed

abbreviation fill :: "svc \<Rightarrow> world \<Rightarrow> world" where
  "fill S \<equiv> offset_fill S lockKey offsetKey jobKey prefix batch dec st getb setb"

lemma drain_step:
  "ready items k ch w \<Longrightarrow> ready items k (drop n ch) (setb (drop n ch) w)"
  by (auto simp: ready_def getb_setb redis_setb)

text \<open>
  Whatever the order of refills and drains, what has been delivered followed by what waits in the
  channel is the pending part of the scanned prefix: nothing is skipped, repeated or reordered.
\<close>

lemma run_delivers_prefix:
  assumes up: "redis_up (rx S)" and r: "ready items k ch w"
    and d: "d @ ch = pending_docs dec st (take k items)"
  shows "\<exists>k' ch' w' d'. buf_run (fill S) getb setb es (w, d) = (w', d')
     \<and> ready items k' ch' w' \<and> d' @ ch' = pending_docs dec st (take k' items)"
  using r d
proof (induction es arbitrary: w d k ch)
  case Nil
  then show ?case by auto
next
  case (Cons e es)
  show ?case
  proof (cases e)
    case Refill
    from fill_step [OF up Cons.prems(1)] obtain n ch' where n: "ready items (k + n) ch' (fill S w)"
      "ch' = ch @ pending_docs dec st (take n (drop k items))" by blast
    have "d @ ch' = pending_docs dec st (take (k + n) items)"
      using Cons.prems(2) n(2) by (simp add: take_add flip: append_assoc)
    from Cons.IH [OF n(1) this] Refill show ?thesis by simp
  next
    case (Drain n)
    have "getb w = Some ch" using Cons.prems(1) by (simp add: ready_def)
    moreover have "(d @ take n ch) @ drop n ch = pending_docs dec st (take k items)"
      using Cons.prems(2) by simp
    from Cons.IH [OF drain_step [OF Cons.prems(1)] this]
    have "\<exists>k' ch' w' d'. buf_run (fill S) getb setb es (setb (drop n ch) w, d @ take n ch) = (w', d')
     \<and> ready items k' ch' w' \<and> d' @ ch' = pending_docs dec st (take k' items)" .
    ultimately show ?thesis using Drain by simp
  qed
qed

text \<open>Progress: with the channel emptied after each refill, every round scans a full batch.\<close>

lemma rounds_deliver:
  assumes up: "redis_up (rx S)" and r: "ready items k [] w"
  shows "\<exists>w'. buf_run (fill S) getb setb (concat (replicate m [Refill, Drain BufferSize]))
       (w, pending_docs dec st (take k items))
     = (w', pending_docs dec st (take (k + m * nat batch) items))
     \<and> ready items (min (length items) (k + m * nat batch)) [] w'"
  using r
proof (induction m arbitrary: k w)
  case 0
  then show ?case by (auto simp: ready_def min_def)
next
  case (Suc m)
  from fill_step [OF up Suc.prems] obtain n ch' where n: "ready items (k + n) ch' (fill S w)"
    "n \<le> nat batch" "ch' = pending_docs dec st (take n (drop k items))"
    "n < min (nat batch) (length items - k) \<longrightarrow> BufferSize \<le> length ch'" by auto
  have len: "length ch' \<le> n" using length_pending_docs n(3) by (metis length_take min.bounded_iff)
  have full: "n = min (nat batch) (length items - k)"
  proof (rule ccontr)
    assume "n \<noteq> min (nat batch) (length items - k)"
    moreover have "k + n \<le> length items" using n(1) by (simp add: ready_def)
    ultimately have "n < min (nat batch) (length items - k)" using n(2) by linarith
    moreover have "nat batch \<le> BufferSize" using batch_pos(2) by linarith
    ultimately show False using n(4) len by linarith
  qed
  have dr: "drop BufferSize ch' = []" "take BufferSize ch' = ch'"
    using len n(2) batch_pos(2) by simp_all
  have getb: "getb (fill S w) = Some ch'" using n(1) by (simp add: ready_def)
  let ?w = "setb [] (fill S w)"
  have rd: "ready items (k + n) [] ?w" using drain_step [OF n(1), of BufferSize] dr by simp
  have pd: "pending_docs dec st (take k items) @ ch' = pending_docs dec st (take (k + n) items)"
    using n(3) by (simp add: take_add)
  have tk: "take (k + n + m * nat batch) items = take (k + Suc m * nat batch) items"
    using full by (cases "nat batch \<le> length items - k") (auto simp: min_def add.assoc)
  have mn: "min (length items) (k + n + m * nat batch) = min (length items) (k + Suc m * nat batch)"
    using full by (auto simp: min_def)
  from Suc.IH [OF rd] show ?case
    using getb dr pd tk mn by simp
qed

end

end
