(* ===== verification/YoutubeTasks.thy ===== *)
theory YoutubeTasks
  imports OffsetBuffer
begin

text \<open>
  The YouTube half of \<^verbatim>\<open>task_handler.go\<close>: the prefetch buffer of a job, batch insertion, update,
  fetch and deletion of tasks, the addition of tasks to a job, and the acquire endpoint with its
  three sources (download queues, metadata queues, buffers); and the record endpoint of
  \<^verbatim>\<open>youtube_task_handler.go\<close>.
\<close>

section \<open>Buffers\<close>

definition get_yt_buffer :: "int \<Rightarrow> world \<Rightarrow> youtube_task list option" where
  "get_yt_buffer j w = map_of (w_jobBuffers w) j"

definition set_yt_buffer :: "int \<Rightarrow> youtube_task list \<Rightarrow> world \<Rightarrow> world" where
  "set_yt_buffer j ch w = w\<lparr>w_jobBuffers := aset j ch (w_jobBuffers w)\<rparr>"

definition ensureBuffer :: "int \<Rightarrow> world \<Rightarrow> world" where
  "ensureBuffer jobID w =
     (if get_yt_buffer jobID w = None then set_yt_buffer jobID [] w else w)"

definition triggerRefill :: "int \<Rightarrow> world \<Rightarrow> world" where
  "triggerRefill jobID w =
     (if filling (FillJob jobID) w then w
      else spawn (GoFillYt jobID) (store_filling (FillJob jobID) w))"

definition fillJobBuffer :: "svc \<Rightarrow> int \<Rightarrow> world \<Rightarrow> world" where
  "fillJobBuffer S jobID =
     offset_fill S (yt_lock_key jobID) (yt_offset_key jobID) (yt_job_key jobID) ''task:''
       FetchBatchSize unmarshal_yt yt_Status (get_yt_buffer jobID) (set_yt_buffer jobID)"

text \<open>
  The ticker's pass over the active jobs. The branch for an empty buffer with pending tasks has an
  empty body in the source.
\<close>

definition check_refill_yt :: "youtube_job \<Rightarrow> world \<Rightarrow> world" where
  "check_refill_yt job w =
     (let w1 = ensureBuffer (yj_ID job) w
      in case get_yt_buffer (yj_ID job) w1 of
           None \<Rightarrow> w1
         | Some ch \<Rightarrow> if length ch < BufferLowWater then triggerRefill (yj_ID job) w1 else w1)"

definition checkAndRefillBuffers :: "svc \<Rightarrow> world \<Rightarrow> world" where
  "checkAndRefillBuffers S w =
     (if dbErr S ''youtube_jobs.active'' 0 then w
      else fold check_refill_yt
             (filter (\<lambda>j. yj_Status j \<in> {StatusPending, StatusRunning}) (w_ytJobs w)) w)"

section \<open>Batch insertion\<close>

definition insert_cmds :: "youtube_task list \<Rightarrow> redis_cmd list" where
  "insert_cmds tasks =
     concat (map (\<lambda>t. [SET (yt_task_key (yt_ID t)) (YtDoc t),
                       ZADD (yt_job_key (yt_JobID t)) [(yt_ID t, itoa (yt_ID t))]]) tasks)"

definition BatchInsert :: "svc \<Rightarrow> youtube_task list option \<Rightarrow> world \<Rightarrow> world \<times> response" where
  "BatchInsert S req w =
     (case req of
        None \<Rightarrow> (w, StatusBadRequest, BError ''bind'')
      | Some tasks \<Rightarrow>
          if tasks = [] then (w, StatusOK, BMessage ''No tasks to insert'')
          else (let (w1, rs) = redis_pipe S (insert_cmds tasks) w
                in if pipe_failed rs
                   then (w1, StatusInternalServerError, BError ''Failed to save tasks: '')
                   else (w1, StatusOK, BCount (int (length tasks)))))"

section \<open>Batch update\<close>

text \<open>
  The fields of an existing task after one update, in the order of the source: a field of the
  update that is empty keeps the old value, a restart clears the failure flags, and the start and
  completion times are set once.
\<close>

definition merge_update :: "time \<Rightarrow> youtube_task \<Rightarrow> youtube_task \<Rightarrow> youtube_task" where
  "merge_update now u existing =
     (let keep = (\<lambda>new old. if new \<noteq> ([]::string) then new else old);
          e1 = existing
            \<lparr>yt_Status := keep (yt_Status u) (yt_Status existing),
             yt_ErrorMessage := keep (yt_ErrorMessage u) (yt_ErrorMessage existing),
             yt_WorkerID := keep (yt_WorkerID u) (yt_WorkerID existing),
             yt_IsDownloadFail := (yt_IsDownloadFail u \<or> yt_IsDownloadFail existing)\<rparr>;
          e2 = (if yt_Status u = ''RUNNING'' \<or> yt_Status u = ''PENDING''
                   \<or> yt_Status u = ''METADATA_PROCESSING''
                then e1\<lparr>yt_IsDownloadFail := False, yt_ErrorMessage := []\<rparr> else e1);
          e3 = e2
            \<lparr>yt_URL := keep (yt_URL u) (yt_URL existing),
             yt_AudioURL := keep (yt_AudioURL u) (yt_AudioURL existing),
             yt_AudioSize := (if yt_AudioSize u \<noteq> 0 then yt_AudioSize u else yt_AudioSize existing),
             yt_VideoURL := keep (yt_VideoURL u) (yt_VideoURL existing),
             yt_VideoSize := (if yt_VideoSize u \<noteq> 0 then yt_VideoSize u else yt_VideoSize existing),
             yt_Title := keep (yt_Title u) (yt_Title existing),
             yt_VideoID := keep (yt_VideoID u) (yt_VideoID existing),
             yt_UpdatedAt := now\<rparr>;
          e4 = (if (yt_Status u = ''RUNNING'' \<or> yt_Status u = ''METADATA_PROCESSING'')
                   \<and> yt_StartedAt e3 = 0
                then e3\<lparr>yt_StartedAt := now\<rparr> else e3)
      in if (yt_Status u = ''COMPLETED'' \<or> yt_Status u = ''FAILED'') \<and> yt_CompletedAt e4 = 0
         then e4\<lparr>yt_CompletedAt := now\<rparr> else e4)"

text \<open>The download queue a task goes to when its metadata arrives.\<close>

definition ready_queue :: "string \<Rightarrow> string \<Rightarrow> string" where
  "ready_queue jobMachineName workerMachineName =
     (if jobMachineName = [] then
        (if workerMachineName \<noteq> [] then download_queue workerMachineName
         else download_queue ''all'')
      else download_queue jobMachineName)"

definition parse_existing :: "svc \<Rightarrow> rstr \<Rightarrow> youtube_task option" where
  "parse_existing S v =
     (case unmarshal_yt v of Some t \<Rightarrow> Some t | None \<Rightarrow> flexible_yt S v)"

text \<open>One iteration: the statistics change at once, the writes are queued on the pipeline.\<close>

definition update_one ::
  "svc \<Rightarrow> string \<Rightarrow> youtube_task \<Rightarrow> rstr option \<Rightarrow> world \<times> redis_cmd list
     \<Rightarrow> world \<times> redis_cmd list" where
  "update_one S workerMachineName u val acc =
     (case acc of (w, cmds) \<Rightarrow>
        (case Option.bind val (parse_existing S) of
           None \<Rightarrow> (w, cmds)
         | Some existing \<Rightarrow>
             (let oldStatus = yt_Status existing;
                  e = merge_update (w_now w) u existing;
                  w1 = (if yt_Status u \<noteq> [] \<and> yt_JobID e \<noteq> 0
                        then w\<lparr>w_statsBuffer :=
                               trackStatusChange (yt_JobID e) oldStatus (yt_Status e)
                                 (w_statsBuffer w)\<rparr>
                        else w);
                  save = SET (yt_task_key (yt_ID e)) (YtDoc e)
                    # (if yt_JobID e \<noteq> 0
                       then [ZADD (yt_job_key (yt_JobID e)) [(yt_ID e, itoa (yt_ID e))]] else [])
              in if yt_Status u = ''METADATA_FETCHED'' \<and> oldStatus \<noteq> ''METADATA_FETCHED''
                    \<and> (yt_AudioURL e \<noteq> [] \<or> yt_VideoURL e \<noteq> [])
                 then (let (w2, m) = getJobMachineName S (yt_JobID e) w1
                       in (w2, cmds @ save
                               @ [RPUSH (ready_queue m workerMachineName) [itoa (yt_ID e)]]))
                 else (w1, cmds @ save))))"

fun update_all ::
  "svc \<Rightarrow> string \<Rightarrow> youtube_task list \<Rightarrow> rstr option list \<Rightarrow> world \<times> redis_cmd list
     \<Rightarrow> world \<times> redis_cmd list" where
  "update_all S m (u # us) (v # vs) acc = update_all S m us vs (update_one S m u v acc)"
| "update_all S m _ _ acc = acc"

text \<open>
  The body is an object with \<^verbatim>\<open>updates\<close> and \<^verbatim>\<open>machine_name\<close>, a bare array, or neither; an object
  without updates is parsed again as an array, which fails.
\<close>

datatype update_body = BodyObject "youtube_task list" string | BodyArray "youtube_task list" | BodyBad

definition parse_updates :: "update_body \<Rightarrow> (youtube_task list \<times> string) option" where
  "parse_updates b =
     (case b of
        BodyObject us m \<Rightarrow> if us \<noteq> [] then Some (us, m) else None
      | BodyArray us \<Rightarrow> Some (us, [])
      | BodyBad \<Rightarrow> None)"

definition BatchUpdate :: "svc \<Rightarrow> update_body \<Rightarrow> world \<Rightarrow> world \<times> response" where
  "BatchUpdate S body w =
     (case parse_updates body of
        None \<Rightarrow> (w, StatusBadRequest, BError ''Invalid request format: '')
      | Some (updates, workerMachineName) \<Rightarrow>
          if updates = [] then (w, StatusOK, BMessage ''No updates'')
          else (let (w1, r) = redis_do S (MGET (map (\<lambda>u. yt_task_key (yt_ID u)) updates)) w
                in case r of
                     RVals vals \<Rightarrow>
                       (let (w2, cmds) = update_all S workerMachineName updates vals (w1, []);
                            (w3, rs) = redis_pipe S cmds w2
                        in if pipe_failed rs
                           then (w3, StatusInternalServerError, BError ''Failed to update tasks: '')
                           else (w3, StatusOK, BStatus ''updated''))
                   | _ \<Rightarrow> (w1, StatusInternalServerError,
                           BError ''Failed to fetch existing tasks: '')))"

section \<open>Fetch and delete\<close>

definition record_to_task :: "youtube_task_record \<Rightarrow> youtube_task" where
  "record_to_task r = YoutubeTask0
     \<lparr>yt_ID := yr_ID r, yt_JobID := yr_JobID r, yt_URL := yr_URL r, yt_Status := yr_Status r,
      yt_WorkerID := yr_WorkerID r, yt_Title := yr_Title r, yt_VideoID := yr_VideoID r,
      yt_AudioURL := yr_AudioURL r, yt_AudioSize := yr_AudioSize r, yt_VideoURL := yr_VideoURL r,
      yt_VideoSize := yr_VideoSize r, yt_ErrorMessage := yr_ErrorMessage r,
      yt_CreatedAt := yr_CreatedAt r, yt_UpdatedAt := yr_UpdatedAt r\<rparr>"

text \<open>\<^verbatim>\<open>OFFSET o LIMIT l\<close>; GORM leaves out a non-positive offset and a negative limit.\<close>

definition sql_page :: "int \<Rightarrow> int \<Rightarrow> 'a list \<Rightarrow> 'a list" where
  "sql_page off lim rows =
     (let r = (if off > 0 then drop (nat off) rows else rows)
      in if lim \<ge> 0 then take (nat lim) r else r)"

record fetch_request =
  fr_JobID :: int
  fr_Limit :: int
  fr_Offset :: int
  fr_Status :: status

definition BatchFetch :: "svc \<Rightarrow> fetch_request option \<Rightarrow> world \<Rightarrow> response" where
  "BatchFetch S req w =
     (case req of
        None \<Rightarrow> (StatusBadRequest, BError ''bind'')
      | Some q \<Rightarrow>
          (let rows = filter (\<lambda>r. yr_JobID r = fr_JobID q
                 \<and> (fr_Status q \<noteq> [] \<longrightarrow> yr_Status r = fr_Status q)) (w_ytRecs w);
               total = int (length rows)
           in if dbErr S ''youtube_task_records.count'' (fr_JobID q)
              then (StatusInternalServerError, BError ''Failed to get count: '')
              else if total = 0 then (StatusOK, BYtPage [] 0)
              else if dbErr S ''youtube_task_records.find'' (fr_JobID q)
              then (StatusInternalServerError, BError ''Failed to fetch tasks: '')
              else (StatusOK,
                    BYtPage (map record_to_task
                      (sql_page (fr_Offset q) (fr_Limit q) (sort_key yr_ID rows))) total)))"

fun delete_cmds :: "string list \<Rightarrow> rstr option list \<Rightarrow> redis_cmd list" where
  "delete_cmds (k # ks) (v # vs) =
     (case v of
        None \<Rightarrow> []
      | Some d \<Rightarrow>
          (case unmarshal_yt d of
             Some t \<Rightarrow> [ZREM (yt_job_key (yt_JobID t)) (itoa (yt_ID t))] | None \<Rightarrow> [])
          @ [DEL [k]]) @ delete_cmds ks vs"
| "delete_cmds _ _ = []"

definition BatchDelete :: "svc \<Rightarrow> int list option \<Rightarrow> world \<Rightarrow> world \<times> response" where
  "BatchDelete S req w =
     (case req of
        None \<Rightarrow> (w, StatusBadRequest, BError ''bind'')
      | Some ids \<Rightarrow>
          if ids = [] then (w, StatusOK, BStatus ''no ids'')
          else (let keys = map yt_task_key ids; (w1, r) = redis_do S (MGET keys) w
                in case r of
                     RVals vals \<Rightarrow>
                       (let (w2, rs) = redis_pipe S (delete_cmds keys vals) w1
                        in if pipe_failed rs
                           then (w2, StatusInternalServerError, BError ''Failed to delete tasks: '')
                           else (w2, StatusOK, BStatus ''deleted''))
                   | _ \<Rightarrow> (w1, StatusInternalServerError,
                           BError ''Failed to fetch tasks for deletion: '')))"

section \<open>Adding tasks to a job\<close>

text \<open>
  The first free identifier: one above the highest in the job's sorted set, or the job's own range.
\<close>

definition next_task_id :: "int \<Rightarrow> reply \<Rightarrow> int" where
  "next_task_id jobID r =
     (case r of RArr (m # _) \<Rightarrow> sscanf_d m + 1 | _ \<Rightarrow> jobID * 1000000)"

definition new_records :: "time \<Rightarrow> int \<Rightarrow> int \<Rightarrow> string list \<Rightarrow> youtube_task_record list" where
  "new_records now jobID startID urls =
     map (\<lambda>(i, url). YoutubeTaskRecord0
            \<lparr>yr_ID := startID + int i, yr_JobID := jobID, yr_URL := url, yr_Status := ''PENDING'',
             yr_CreatedAt := now, yr_UpdatedAt := now\<rparr>) (enumerate 0 urls)"

definition new_tasks :: "time \<Rightarrow> int \<Rightarrow> int \<Rightarrow> string list \<Rightarrow> youtube_task list" where
  "new_tasks now jobID startID urls =
     map (\<lambda>(i, url). YoutubeTask0
            \<lparr>yt_ID := startID + int i, yt_JobID := jobID, yt_URL := url, yt_Status := ''PENDING'',
             yt_CreatedAt := now, yt_UpdatedAt := now\<rparr>) (enumerate 0 urls)"

text \<open>
  Phase one inserts all records in statements of at most 1000 rows, cut within batches of 2000; a
  statement that fails is skipped and the task still counts as added.
\<close>

definition insert_records ::
  "svc \<Rightarrow> youtube_task_record list \<Rightarrow> youtube_task_record list \<Rightarrow> youtube_task_record list" where
  "insert_records S dbBatch rows =
     (case dbBatch of
        [] \<Rightarrow> rows
      | r # _ \<Rightarrow>
          if dbErr S ''youtube_task_records.create'' (yr_ID r) then rows
          else fold (insert_do_nothing yr_ID) dbBatch rows)"

definition add_tasks_mysql ::
  "svc \<Rightarrow> int \<Rightarrow> int \<Rightarrow> string list \<Rightarrow> world \<Rightarrow> world" where
  "add_tasks_mysql S jobID startID urls w =
     w\<lparr>w_ytRecs := fold (\<lambda>batch rows. fold (insert_records S) (batches 1000 batch) rows)
         (batches 2000 (new_records (w_now w) jobID startID urls)) (w_ytRecs w)\<rparr>"

text \<open>
  Phase two writes one batch with one pipeline, which is built again and tried up to three times.
\<close>

definition add_batch_cmds :: "int \<Rightarrow> string \<Rightarrow> youtube_task list \<Rightarrow> redis_cmd list" where
  "add_batch_cmds jobID queueName tasks =
     map (\<lambda>t. SET (yt_task_key (yt_ID t)) (YtDoc t)) tasks
     @ [ZADD (yt_job_key jobID) (map (\<lambda>t. (yt_ID t, itoa (yt_ID t))) tasks),
        RPUSH queueName (map (\<lambda>t. itoa (yt_ID t)) tasks)]"

fun pipe_retry :: "svc \<Rightarrow> nat \<Rightarrow> redis_cmd list \<Rightarrow> world \<Rightarrow> world \<times> bool" where
  "pipe_retry S 0 cmds w = (w, False)"
| "pipe_retry S (Suc n) cmds w =
     (let (w1, rs) = redis_pipe S cmds w
      in if pipe_failed rs then pipe_retry S n cmds w1 else (w1, True))"

text \<open>A batch that fails three times has its task keys deleted and stops the phase.\<close>

fun add_tasks_redis ::
  "svc \<Rightarrow> int \<Rightarrow> string \<Rightarrow> youtube_task list list \<Rightarrow> world \<Rightarrow> world \<times> bool" where
  "add_tasks_redis S jobID queueName [] w = (w, True)"
| "add_tasks_redis S jobID queueName (b # bs) w =
     (let (w1, ok) = pipe_retry S 3 (add_batch_cmds jobID queueName b) w
      in if ok then add_tasks_redis S jobID queueName bs w1
         else (fst (redis_pipe S (map (\<lambda>t. DEL [yt_task_key (yt_ID t)]) b) w1), False))"

text \<open>The number of tasks added, with \<open>False\<close> for the error return.\<close>

definition AddTasksToJob :: "svc \<Rightarrow> int \<Rightarrow> string list \<Rightarrow> world \<Rightarrow> world \<times> int \<times> bool" where
  "AddTasksToJob S jobID urls w =
     (if urls = [] then (w, 0, True)
      else (let (w1, queueName) = getMetadataQueueName S jobID w;
                (w2, r) = redis_do S (ZREVRANGE (yt_job_key jobID) 0 0) w1;
                startID = next_task_id jobID r;
                w3 = add_tasks_mysql S jobID startID urls w2;
                (w4, ok) = add_tasks_redis S jobID queueName
                             (batches 2000 (new_tasks (w_now w) jobID startID urls)) w3
            in (w4, int (length urls), ok)))"

section \<open>Acquiring tasks\<close>

record acquire_request =
  ar_WorkerID :: string
  ar_MachineName :: string
  ar_Stage :: string
  ar_Limit :: int

text \<open>
  Download stage. One pop tries the queues in order and reports the last answer: a task, an empty
  queue, or an error.
\<close>

fun pop_download :: "svc \<Rightarrow> string list \<Rightarrow> world \<Rightarrow> world \<times> reply" where
  "pop_download S [] w = (w, RBulk [])"
| "pop_download S (q # qs) w =
     (let (w1, r) = redis_do S (LPOP q) w
      in case r of
           RBulk i \<Rightarrow> (w1, r)
         | _ \<Rightarrow> if qs = [] then (w1, r) else pop_download S qs w1)"

fun acquire_download ::
  "svc \<Rightarrow> string list \<Rightarrow> nat \<Rightarrow> world \<Rightarrow> string list \<Rightarrow> youtube_task list \<Rightarrow> world \<times> youtube_task list"
where
  "acquire_download S qs 0 w seen tasks = (w, tasks)"
| "acquire_download S qs (Suc n) w seen tasks =
     (let (w1, r) = pop_download S qs w
      in case r of
           RNil \<Rightarrow> (w1, tasks)
         | RBulk i \<Rightarrow>
             if i \<in> set seen then acquire_download S qs n w1 seen tasks
             else (let (w2, g) = redis_do S (GET (''task:'' @ i)) w1;
                       tasks' = (case g of
                                   RStr v \<Rightarrow> (case unmarshal_yt v of
                                                Some t \<Rightarrow> tasks @ [t] | None \<Rightarrow> tasks)
                                 | _ \<Rightarrow> tasks)
                   in acquire_download S qs n w2 (i # seen) tasks')
         | _ \<Rightarrow> acquire_download S qs n w1 seen tasks)"

text \<open>
  Metadata stage, first source. A pop that finds no task in any queue ends the loop, an error
  counting as an empty queue.
\<close>

fun pop_metadata :: "svc \<Rightarrow> string list \<Rightarrow> world \<Rightarrow> world \<times> string option" where
  "pop_metadata S [] w = (w, None)"
| "pop_metadata S (q # qs) w =
     (let (w1, r) = redis_do S (LPOP q) w
      in case r of RBulk i \<Rightarrow> (w1, Some i) | _ \<Rightarrow> pop_metadata S qs w1)"

text \<open>
  A popped task is read, skipped when it is missing, unreadable or COMPLETED, and written back as
  PENDING when it is in another status.
\<close>

definition accept_metadata ::
  "svc \<Rightarrow> string \<Rightarrow> world \<Rightarrow> world \<times> youtube_task option" where
  "accept_metadata S i w =
     (let (w1, g) = redis_do S (GET (''task:'' @ i)) w
      in case g of
           RStr v \<Rightarrow>
             (case parse_existing S v of
                None \<Rightarrow> (w1, None)
              | Some t \<Rightarrow>
                  if yt_Status t = ''COMPLETED'' then (w1, None)
                  else if yt_Status t \<noteq> ''PENDING'' then
                    (let t' = t\<lparr>yt_Status := ''PENDING'', yt_WorkerID := [], yt_ErrorMessage := [],
                                yt_UpdatedAt := w_now w1\<rparr>
                     in (redis_set S (SET (''task:'' @ i) (YtDoc t')) w1, Some t'))
                  else (w1, Some t))
         | _ \<Rightarrow> (w1, None))"

text \<open>The loop has no counter; \<open>fuel\<close> bounds its iterations and \<open>None\<close> is "does not return".\<close>

fun acquire_retry ::
  "nat \<Rightarrow> svc \<Rightarrow> string list \<Rightarrow> nat \<Rightarrow> world \<Rightarrow> string list \<Rightarrow> youtube_task list
     \<Rightarrow> (world \<times> youtube_task list) option" where
  "acquire_retry 0 S qs limit w seen tasks = None"
| "acquire_retry (Suc fuel) S qs limit w seen tasks =
     (if length tasks \<ge> limit then Some (w, tasks)
      else (let (w1, r) = pop_metadata S qs w
            in case r of
                 None \<Rightarrow> Some (w1, tasks)
               | Some i \<Rightarrow>
                   if i \<in> set seen then acquire_retry fuel S qs limit w1 seen tasks
                   else (let (w2, t) = accept_metadata S i w1
                         in acquire_retry fuel S qs limit w2 (i # seen)
                              (case t of Some t' \<Rightarrow> tasks @ [t'] | None \<Rightarrow> tasks))))"

text \<open>
  Metadata stage, second source: drain one job's channel. A task of another machine is taken out of
  the channel and dropped; a request without a machine name is not filtered.
\<close>

fun drain_channel ::
  "svc \<Rightarrow> string \<Rightarrow> nat \<Rightarrow> youtube_task list \<Rightarrow> world \<Rightarrow> youtube_task list
     \<Rightarrow> world \<times> youtube_task list \<times> youtube_task list" where
  "drain_channel S m limit [] w tasks = (w, [], tasks)"
| "drain_channel S m limit (t # ch) w tasks =
     (if length tasks \<ge> limit then (w, t # ch, tasks)
      else if m \<noteq> [] then
        (let (w1, ok) = shouldProcessTask S (yt_JobID t) m w
         in drain_channel S m limit ch w1 (if ok then tasks @ [t] else tasks))
      else drain_channel S m limit ch w (tasks @ [t]))"

fun acquire_buffers ::
  "svc \<Rightarrow> string \<Rightarrow> nat \<Rightarrow> int list \<Rightarrow> world \<Rightarrow> youtube_task list \<Rightarrow> world \<times> youtube_task list" where
  "acquire_buffers S m limit [] w tasks = (w, tasks)"
| "acquire_buffers S m limit (jid # jids) w tasks =
     (if length tasks \<ge> limit then (w, tasks)
      else case get_yt_buffer jid w of
             None \<Rightarrow> acquire_buffers S m limit jids w tasks
           | Some ch \<Rightarrow>
               (let w1 = (if length ch < BufferLowWater then triggerRefill jid w else w);
                    (w2, ch', tasks') = drain_channel S m limit ch w1 tasks
                in acquire_buffers S m limit jids (set_yt_buffer jid ch' w2) tasks'))"

text \<open>\<open>jobIDs\<close> is the order in which Go ranges over the map of buffers.\<close>

definition AcquireTasks ::
  "nat \<Rightarrow> svc \<Rightarrow> int list \<Rightarrow> acquire_request option \<Rightarrow> world \<Rightarrow> (world \<times> response) option" where
  "AcquireTasks fuel S jobIDs req w =
     (case req of
        None \<Rightarrow> Some (w, StatusBadRequest, BError ''bind'')
      | Some q \<Rightarrow>
          (let limit = nat (if ar_Limit q \<le> 0 then 10 else ar_Limit q);
               stage = (if ar_Stage q = [] then ''metadata'' else ar_Stage q);
               m = ar_MachineName q
           in if stage = ''download'' then
                (let (w1, tasks) = acquire_download S (acquire_queues download_queue m) limit w [] []
                 in Some (w1, StatusOK, BYtTasks tasks))
              else
                (case acquire_retry fuel S (acquire_queues metadata_queue m) limit w [] [] of
                   None \<Rightarrow> None
                 | Some (w1, tasks) \<Rightarrow>
                     if length tasks \<ge> limit \<or> jobIDs = []
                     then Some (w1, StatusOK, BYtTasks tasks)
                     else (let (w2, tasks') = acquire_buffers S m limit jobIDs w1 tasks
                           in Some (w2, StatusOK, BYtTasks tasks')))))"

section \<open>Task records\<close>

text \<open>
  \<^verbatim>\<open>UpdateYoutubeTaskRecord\<close>: looked up by job and task, created when missing (a row with the
  same primary key under another job makes the insert fail; an empty status becomes the column
  default), else updated in nine columns.
\<close>

definition UpdateYoutubeTaskRecord ::
  "svc \<Rightarrow> youtube_task_record option \<Rightarrow> world \<Rightarrow> world \<times> response" where
  "UpdateYoutubeTaskRecord S req w =
     (case req of
        None \<Rightarrow> (w, StatusBadRequest, BError ''bind'')
      | Some task \<Rightarrow>
          if yr_JobID task = 0 \<or> yr_ID task = 0
          then (w, StatusBadRequest, BError ''job_id and id are required'')
          else if dbErr S ''youtube_task_records.first'' (yr_ID task)
          then (w, StatusInternalServerError, BError ''Failed to query task record: '')
          else
            (case find (\<lambda>r. yr_JobID r = yr_JobID task \<and> yr_ID r = yr_ID task) (w_ytRecs w) of
               None \<Rightarrow>
                 (if yr_ID task \<in> yr_ID ` set (w_ytRecs w)
                     \<or> dbErr S ''youtube_task_records.create'' (yr_ID task)
                  then (w, StatusInternalServerError, BError ''Failed to create task record: '')
                  else (let new = task
                          \<lparr>yr_Status := (if yr_Status task = [] then ''PENDING'' else yr_Status task),
                           yr_CreatedAt := (if yr_CreatedAt task = 0 then w_now w
                                            else yr_CreatedAt task),
                           yr_UpdatedAt := (if yr_UpdatedAt task = 0 then w_now w
                                            else yr_UpdatedAt task)\<rparr>
                        in (w\<lparr>w_ytRecs := w_ytRecs w @ [new]\<rparr>, StatusCreated, BYtRecord new)))
             | Some existing \<Rightarrow>
                 (if dbErr S ''youtube_task_records.updates'' (yr_ID task)
                  then (w, StatusInternalServerError, BError ''Failed to update task record: '')
                  else (let upd = (\<lambda>r. r
                          \<lparr>yr_Status := yr_Status task, yr_WorkerID := yr_WorkerID task,
                           yr_Title := yr_Title task, yr_VideoID := yr_VideoID task,
                           yr_AudioURL := yr_AudioURL task, yr_AudioSize := yr_AudioSize task,
                           yr_VideoURL := yr_VideoURL task, yr_VideoSize := yr_VideoSize task,
                           yr_ErrorMessage := yr_ErrorMessage task, yr_UpdatedAt := w_now w\<rparr>)
                        in (w\<lparr>w_ytRecs := update_where (\<lambda>r. yr_ID r = yr_ID existing) upd
                               (w_ytRecs w)\<rparr>, StatusOK, BYtRecord (upd existing))))))"

end
