(* ===== verification/YoutubeUpdateFacts.thy ===== *)
theory YoutubeUpdateFacts
  imports YoutubeTasks
begin

text \<open>
  Facts about \<^verbatim>\<open>BatchUpdate\<close>: what one update queues on the pipeline does not depend on the
  updates before it, so the pipeline of a request is the concatenation of the commands of its
  updates; from that, the stored document of every updated task and the content of every
  download queue after a request.
\<close>

section \<open>Machine names do not move during a request\<close>

lemma machine_name_stable [simp]:
  "snd (getJobMachineName S j (fst (getJobMachineName S i w))) = snd (getJobMachineName S j w)"
  by (auto simp: getJobMachineName_def Let_def split: option.splits)

lemma machine_name_cong:
  assumes "w_jobMachineNameCache w' = w_jobMachineNameCache w" "w_ytJobs w' = w_ytJobs w"
  shows "snd (getJobMachineName S j w') = snd (getJobMachineName S j w)"
  using assms by (auto simp: getJobMachineName_def Let_def split: option.splits)

section \<open>One update\<close>

definition update_doc :: "svc \<Rightarrow> world \<Rightarrow> youtube_task \<Rightarrow> rstr option \<Rightarrow> youtube_task option" where
  "update_doc S w u val =
     map_option (merge_update (w_now w) u) (Option.bind val (parse_existing S))"

definition becomes_ready :: "svc \<Rightarrow> world \<Rightarrow> youtube_task \<Rightarrow> rstr option \<Rightarrow> bool" where
  "becomes_ready S w u val =
     (case Option.bind val (parse_existing S) of
        None \<Rightarrow> False
      | Some e \<Rightarrow> yt_Status u = ''METADATA_FETCHED'' \<and> yt_Status e \<noteq> ''METADATA_FETCHED''
          \<and> (yt_AudioURL (merge_update (w_now w) u e) \<noteq> []
             \<or> yt_VideoURL (merge_update (w_now w) u e) \<noteq> []))"

definition update_cmds ::
  "svc \<Rightarrow> string \<Rightarrow> world \<Rightarrow> youtube_task \<Rightarrow> rstr option \<Rightarrow> redis_cmd list" where
  "update_cmds S m w u val =
     (case update_doc S w u val of
        None \<Rightarrow> []
      | Some e \<Rightarrow>
          SET (yt_task_key (yt_ID e)) (YtDoc e)
          # (if yt_JobID e \<noteq> 0
             then [ZADD (yt_job_key (yt_JobID e)) [(yt_ID e, itoa (yt_ID e))]] else [])
          @ (if becomes_ready S w u val
             then [RPUSH (ready_queue (snd (getJobMachineName S (yt_JobID e) w)) m)
                    [itoa (yt_ID e)]] else []))"

text \<open>The parts of the world that decide the commands of an update.\<close>

definition names_of :: "svc \<Rightarrow> world \<Rightarrow> int \<Rightarrow> string" where
  "names_of S w j = snd (getJobMachineName S j w)"

lemma names_of_name [simp]: "names_of S (fst (getJobMachineName S i w)) = names_of S w"
  by (rule ext) (simp add: names_of_def)

lemma names_of_stats [simp]: "names_of S (w\<lparr>w_statsBuffer := b\<rparr>) = names_of S w"
  unfolding names_of_def by (rule ext, rule machine_name_cong) simp_all

definition same_view :: "svc \<Rightarrow> world \<Rightarrow> world \<Rightarrow> bool" where
  "same_view S w w' \<longleftrightarrow> w_redis w' = w_redis w \<and> w_now w' = w_now w \<and> names_of S w' = names_of S w"

lemma same_view_refl [simp]: "same_view S w w"
  by (simp add: same_view_def)

lemma same_view_trans: "same_view S w w' \<Longrightarrow> same_view S w' w'' \<Longrightarrow> same_view S w w''"
  by (simp add: same_view_def)

lemma same_viewD:
  assumes "same_view S w w'"
  shows "w_redis w' = w_redis w" "w_now w' = w_now w" "names_of S w' = names_of S w"
  using assms by (simp_all add: same_view_def)

lemma update_cmds_view: "same_view S w w' \<Longrightarrow> update_cmds S m w' = update_cmds S m w"
  unfolding update_cmds_def update_doc_def becomes_ready_def names_of_def [symmetric]
  by (intro ext) (simp only: same_viewD)

lemma merge_update_ids [simp]:
  "yt_ID (merge_update now u e) = yt_ID e" "yt_JobID (merge_update now u e) = yt_JobID e"
  by (simp_all add: merge_update_def Let_def)

lemma update_one_eq:
  "\<exists>w'. update_one S m u val (w, cmds) = (w', cmds @ update_cmds S m w u val) \<and> same_view S w w'"
proof (cases "Option.bind val (parse_existing S)")
  case None
  then show ?thesis by (simp add: update_one_def update_cmds_def update_doc_def)
next
  case (Some e)
  define w1 where "w1 = (if yt_Status u \<noteq> [] \<and> yt_JobID e \<noteq> 0
    then w\<lparr>w_statsBuffer := trackStatusChange (yt_JobID e) (yt_Status e)
             (yt_Status (merge_update (w_now w) u e)) (w_statsBuffer w)\<rparr> else w)"
  have v: "same_view S w (fst (getJobMachineName S (yt_JobID e) w1))" "same_view S w w1"
    by (simp_all add: w1_def same_view_def)
  have name: "snd (getJobMachineName S (yt_JobID e) w1) = snd (getJobMachineName S (yt_JobID e) w)"
    using v(2) by (simp add: same_view_def flip: names_of_def)
  have "update_one S m u val (w, cmds) =
      (if becomes_ready S w u val then fst (getJobMachineName S (yt_JobID e) w1) else w1,
       cmds @ update_cmds S m w u val)"
    unfolding update_one_def prod.case Some option.case merge_update_ids Let_def w1_def [symmetric]
    by (cases "becomes_ready S w u val")
      (auto simp: update_cmds_def update_doc_def becomes_ready_def Some name split_beta)
  with v show ?thesis by simp
qed

lemma update_all_eq:
  assumes "length vals = length us"
  shows "\<exists>w'. update_all S m us vals (w, cmds)
      = (w', cmds @ concat (map2 (update_cmds S m w) us vals)) \<and> same_view S w w'"
  using assms
proof (induction us vals arbitrary: w cmds rule: list_induct2')
  case (4 u us v vs)
  obtain w1 where w1: "update_one S m u v (w, cmds) = (w1, cmds @ update_cmds S m w u v)"
    "same_view S w w1" using update_one_eq by blast
  from "4.IH" [of w1 "cmds @ update_cmds S m w u v"] "4.prems" obtain w2 where
    "update_all S m us vs (w1, cmds @ update_cmds S m w u v)
      = (w2, (cmds @ update_cmds S m w u v) @ concat (map2 (update_cmds S m w1) us vs))"
    "same_view S w1 w2" by auto
  moreover have "update_cmds S m w1 = update_cmds S m w"
    by (rule update_cmds_view [OF w1(2)])
  ultimately show ?case using w1 same_view_trans by fastforce
qed simp_all

section \<open>The whole request\<close>

text \<open>What the request reads for each update, and the keyspace it leaves.\<close>

definition stored :: "world \<Rightarrow> youtube_task \<Rightarrow> rstr option" where
  "stored w u = str_of (w_redis w (yt_task_key (yt_ID u)))"

lemma BatchUpdate_redis:
  assumes up: "redis_up (rx S)" and p: "parse_updates body = Some (us, m)" "us \<noteq> []"
  shows "w_redis (fst (BatchUpdate S body w)) =
    rrun redis_ref (w_redis w) (concat (map (\<lambda>u. update_cmds S m w u (stored w u)) us))"
proof -
  obtain w2 where w2: "update_all S m us (map (stored w) us) (w, [])
      = (w2, concat (map2 (update_cmds S m w) us (map (stored w) us)))" "same_view S w w2"
    using update_all_eq [of "map (stored w) us" us S m w "[]"] by auto
  have m2: "map2 f us (map g us) = map (\<lambda>u. f u (g u)) us" for f :: "youtube_task \<Rightarrow> rstr option \<Rightarrow> redis_cmd list" and g
    by (induction us) auto
  have docs: "map (\<lambda>k. str_of (w_redis w k)) (map (\<lambda>u. yt_task_key (yt_ID u)) us) = map (stored w) us"
    by (simp add: stored_def)
  show ?thesis
    using p w2 by (simp add: BatchUpdate_def redis_do_up [OF up] redis_pipe_up [OF up] comp_def
        docs [unfolded map_map comp_def] m2 same_viewD(1) split_beta)
qed

text \<open>The documents carry the identifier of their key.\<close>

definition own_ids :: "svc \<Rightarrow> world \<Rightarrow> youtube_task list \<Rightarrow> bool" where
  "own_ids S w us \<longleftrightarrow>
     (\<forall>u \<in> set us. \<forall>e. Option.bind (stored w u) (parse_existing S) = Some e \<longrightarrow> yt_ID e = yt_ID u)"

lemma key_families_apart [simp]:
  "yt_task_key i \<noteq> yt_job_key j" "yt_task_key i \<noteq> download_queue q"
  "download_queue q \<noteq> yt_job_key j" "download_queue q \<noteq> yt_task_key i"
  "yt_task_key i \<noteq> metadata_queue q" "yt_job_key j \<noteq> metadata_queue q"
  "yt_job_key j \<noteq> yt_task_key i" "metadata_queue q \<noteq> yt_task_key i" "metadata_queue q \<noteq> yt_job_key j"
  by (simp_all add: key_defs)

lemma ready_queue_download: "\<exists>x. ready_queue a b = download_queue x"
  by (auto simp: ready_queue_def)

lemma ready_queue_not_task [simp]: "yt_task_key i \<noteq> ready_queue a b" "yt_job_key j \<noteq> ready_queue a b"
  by (auto simp: ready_queue_def key_defs)

lemma update_cmds_task_key:
  assumes "\<And>e. update_doc S w u val = Some e \<Longrightarrow> yt_ID e = yt_ID u"
  shows "filter (\<lambda>c. yt_task_key i \<in> cmd_keys c) (update_cmds S m w u val) =
    (case update_doc S w u val of
       Some e \<Rightarrow> if yt_ID u = i then [SET (yt_task_key i) (YtDoc e)] else []
     | None \<Rightarrow> [])"
  using assms by (cases "update_doc S w u val") (simp_all add: update_cmds_def)

lemma update_cmds_queue:
  "filter (\<lambda>c. download_queue q \<in> cmd_keys c) (update_cmds S m w u val) =
    (case update_doc S w u val of
       Some e \<Rightarrow> if becomes_ready S w u val
                   \<and> ready_queue (snd (getJobMachineName S (yt_JobID e) w)) m = download_queue q
                 then [RPUSH (download_queue q) [itoa (yt_ID e)]] else []
     | None \<Rightarrow> [])"
  by (cases "update_doc S w u val") (simp_all add: update_cmds_def)

lemma filter_concat_map:
  "filter P (concat (map f xs)) = concat (map (\<lambda>x. filter P (f x)) xs)"
  by (induction xs) auto

lemma own_idsD:
  "own_ids S w us \<Longrightarrow> u \<in> set us \<Longrightarrow> update_doc S w u (stored w u) = Some e \<Longrightarrow> yt_ID e = yt_ID u"
  unfolding own_ids_def update_doc_def map_option_eq_Some by (metis merge_update_ids(1))

lemma own_ids_tl: "own_ids S w (u # us) \<Longrightarrow> own_ids S w us"
  unfolding own_ids_def by (meson list.set_intros(2))

text \<open>Of all commands of a request with distinct tasks, one names the key of an updated task.\<close>

lemma request_task_cmds:
  assumes "own_ids S w us" "distinct (map yt_ID us)"
  shows "filter (\<lambda>c. yt_task_key i \<in> cmd_keys c)
      (concat (map (\<lambda>u. update_cmds S m w u (stored w u)) us)) =
    (case find_row yt_ID i us of
       None \<Rightarrow> []
     | Some u \<Rightarrow> (case update_doc S w u (stored w u) of
                   None \<Rightarrow> [] | Some e \<Rightarrow> [SET (yt_task_key i) (YtDoc e)]))"
  using assms
proof (induction us)
  case (Cons u us)
  have own: "own_ids S w us" and d: "distinct (map yt_ID us)" 
    using own_ids_tl [OF Cons.prems(1)] Cons.prems(2) by simp_all
  have one: "filter (\<lambda>c. yt_task_key i \<in> cmd_keys c) (update_cmds S m w u (stored w u)) =
    (case update_doc S w u (stored w u) of
       Some e \<Rightarrow> if yt_ID u = i then [SET (yt_task_key i) (YtDoc e)] else [] | None \<Rightarrow> [])"
    by (rule update_cmds_task_key, rule own_idsD [OF Cons.prems(1)]) simp_all
  have none: "find_row yt_ID i us = None" if "yt_ID u = i"
    using that Cons.prems(2) by (auto simp: find_row_None)
  show ?case
    using Cons.IH [OF own d] one none
    by (cases "yt_ID u = i"; cases "update_doc S w u (stored w u)") simp_all
qed simp

text \<open>The fields of a merge, one by one.\<close>

abbreviation keep :: "string \<Rightarrow> string \<Rightarrow> string" where
  "keep new old \<equiv> (if new \<noteq> [] then new else old)"

definition restarts :: "status \<Rightarrow> bool" where
  "restarts s = (s = ''RUNNING'' \<or> s = ''PENDING'' \<or> s = ''METADATA_PROCESSING'')"

lemma merge_update_sel:
  "yt_Status (merge_update now u e) = keep (yt_Status u) (yt_Status e)"
  "yt_ErrorMessage (merge_update now u e) =
     (if restarts (yt_Status u) then [] else keep (yt_ErrorMessage u) (yt_ErrorMessage e))"
  "yt_WorkerID (merge_update now u e) = keep (yt_WorkerID u) (yt_WorkerID e)"
  "yt_IsDownloadFail (merge_update now u e) =
     (\<not> restarts (yt_Status u) \<and> (yt_IsDownloadFail u \<or> yt_IsDownloadFail e))"
  "yt_URL (merge_update now u e) = keep (yt_URL u) (yt_URL e)"
  "yt_AudioURL (merge_update now u e) = keep (yt_AudioURL u) (yt_AudioURL e)"
  "yt_AudioSize (merge_update now u e) =
     (if yt_AudioSize u \<noteq> 0 then yt_AudioSize u else yt_AudioSize e)"
  "yt_VideoURL (merge_update now u e) = keep (yt_VideoURL u) (yt_VideoURL e)"
  "yt_VideoSize (merge_update now u e) =
     (if yt_VideoSize u \<noteq> 0 then yt_VideoSize u else yt_VideoSize e)"
  "yt_Title (merge_update now u e) = keep (yt_Title u) (yt_Title e)"
  "yt_VideoID (merge_update now u e) = keep (yt_VideoID u) (yt_VideoID e)"
  "yt_UpdatedAt (merge_update now u e) = now"
  "yt_CreatedAt (merge_update now u e) = yt_CreatedAt e"
  "yt_StartedAt (merge_update now u e) =
     (if (yt_Status u = ''RUNNING'' \<or> yt_Status u = ''METADATA_PROCESSING'') \<and> yt_StartedAt e = 0
      then now else yt_StartedAt e)"
  "yt_CompletedAt (merge_update now u e) =
     (if (yt_Status u = ''COMPLETED'' \<or> yt_Status u = ''FAILED'') \<and> yt_CompletedAt e = 0
      then now else yt_CompletedAt e)"
  unfolding merge_update_def Let_def restarts_def
  subgoal by simp
  subgoal by simp
  subgoal by simp
  subgoal by simp
  subgoal by simp
  subgoal by simp
  subgoal by simp
  subgoal by simp
  subgoal by simp
  subgoal by simp
  subgoal by simp
  subgoal by simp
  subgoal by simp
  subgoal by simp
  subgoal by simp
  done

section \<open>Properties\<close>

text \<open>C7: A batch update stores, for every updated task that can be read, the merge of the old
document with the update, and leaves every other task's document as it was.\<close>

theorem BatchUpdate_stores_merged_documents:
  assumes "redis_up (rx S)" "parse_updates body = Some (us, m)" "us \<noteq> []"
    and "own_ids S w us" "distinct (map yt_ID us)"
  shows "w_redis (fst (BatchUpdate S body w)) (yt_task_key i) =
    (case find_row yt_ID i us of
       None \<Rightarrow> w_redis w (yt_task_key i)
     | Some u \<Rightarrow> (case Option.bind (stored w u) (parse_existing S) of
                   None \<Rightarrow> w_redis w (yt_task_key i)
                 | Some e \<Rightarrow> Some (RS (YtDoc (merge_update (w_now w) u e)))))"
  unfolding BatchUpdate_redis [OF assms(1-3)]
  by (subst rrun_filter, unfold request_task_cmds [OF assms(4,5)])
    (simp add: update_doc_def rrun_Cons split: option.split)

definition wit_update_world :: world where
  "wit_update_world = world0\<lparr>w_now := 5, w_redis := [yt_task_key 7 \<mapsto>
     RS (YtDoc (YoutubeTask0\<lparr>yt_ID := 7, yt_JobID := 3, yt_Status := ''METADATA_PROCESSING'',
       yt_URL := ''u''\<rparr>))]\<rparr>"

definition wit_update :: youtube_task where
  "wit_update = YoutubeTask0\<lparr>yt_ID := 7, yt_Status := ''METADATA_FETCHED'', yt_VideoURL := ''v''\<rparr>"

lemma wit_update_id [simp]: "yt_ID wit_update = 7"
  by (simp add: wit_update_def)

lemma wit_update_facts:
  "stored wit_update_world wit_update = Some (YtDoc (YoutubeTask0\<lparr>yt_ID := 7, yt_JobID := 3,
     yt_Status := ''METADATA_PROCESSING'', yt_URL := ''u''\<rparr>))"
  "w_now wit_update_world = 5" "own_ids svc_ref wit_update_world [wit_update]"
  "parse_updates (BodyObject [wit_update] ''gpu1'') = Some ([wit_update], ''gpu1'')"
  by (simp_all add: stored_def wit_update_world_def wit_update_def world0_def str_of_def
      own_ids_def parse_existing_def parse_updates_def YoutubeTask0_def)

theorem BatchUpdate_stores_merged_documents_witness:
  "w_redis (fst (BatchUpdate svc_ref (BodyObject [wit_update] ''gpu1'') wit_update_world))
     (yt_task_key 7) =
   Some (RS (YtDoc (YoutubeTask0\<lparr>yt_ID := 7, yt_JobID := 3, yt_Status := ''METADATA_FETCHED'',
     yt_URL := ''u'', yt_VideoURL := ''v'', yt_UpdatedAt := 5\<rparr>)))"
  using BatchUpdate_stores_merged_documents [of svc_ref "BodyObject [wit_update] ''gpu1''"
      "[wit_update]" "''gpu1''" wit_update_world 7]
  by (simp add: wit_update_facts parse_existing_def,
      simp add: wit_update_def merge_update_def YoutubeTask0_def)

text \<open>C8: A task is pushed to a download queue exactly when an update makes it METADATA_FETCHED with
a media URL; the pushes keep the order of the updates, go to the queue of the job's machine (or of
the reporting worker, or to the shared one), and a repeated report of a task that is already
METADATA_FETCHED pushes nothing.\<close>

definition ready_ids ::
  "svc \<Rightarrow> string \<Rightarrow> string \<Rightarrow> world \<Rightarrow> youtube_task list \<Rightarrow> string list" where
  "ready_ids S m q w us =
     concat (map (\<lambda>u. case update_doc S w u (stored w u) of
         Some e \<Rightarrow> if becomes_ready S w u (stored w u)
                      \<and> ready_queue (snd (getJobMachineName S (yt_JobID e) w)) m = download_queue q
                    then [itoa (yt_ID e)] else []
       | None \<Rightarrow> []) us)"

lemma rrun_concat_rpushes:
  assumes "ls_of (db k) = Some l"
    and "\<And>x. x \<in> set xs \<Longrightarrow> f x = map (\<lambda>v. RPUSH k [v]) (g x)"
  shows "ls_of (rrun redis_ref db (concat (map f xs)) k) = Some (l @ concat (map g xs))"
proof -
  have "concat (map f xs) = map (\<lambda>v. RPUSH k v) (map (\<lambda>v. [v]) (concat (map g xs)))"
    using assms(2) by (induction xs) auto
  moreover have "concat (map (\<lambda>v. [v]) ys) = ys" for ys :: "string list"
    by (induction ys) auto
  ultimately show ?thesis
    using rrun_rpushes [of db k l "map (\<lambda>v. [v]) (concat (map g xs))", OF assms(1)] by simp
qed

theorem BatchUpdate_queues_ready_tasks:
  assumes "redis_up (rx S)" "parse_updates body = Some (us, m)" "us \<noteq> []"
    and "ls_of (w_redis w (download_queue q)) = Some l"
  shows "ls_of (w_redis (fst (BatchUpdate S body w)) (download_queue q))
    = Some (l @ ready_ids S m q w us)"
  unfolding BatchUpdate_redis [OF assms(1-3)] ready_ids_def
  by (subst rrun_filter, unfold filter_concat_map update_cmds_queue,
      rule rrun_concat_rpushes [where db = "w_redis w", OF assms(4)])
    (simp split: option.split)

theorem BatchUpdate_queues_ready_tasks_witness:
  "ls_of (w_redis (fst (BatchUpdate svc_ref (BodyObject [wit_update] ''gpu1'') wit_update_world))
     (download_queue ''gpu1'')) = Some [itoa 7]"
proof -
  have l: "ls_of (w_redis wit_update_world (download_queue ''gpu1'')) = Some []"
    by (simp add: wit_update_world_def ls_of_def key_defs)
  have d: "update_doc svc_ref wit_update_world wit_update (stored wit_update_world wit_update) =
      Some (merge_update 5 wit_update (YoutubeTask0\<lparr>yt_ID := 7, yt_JobID := 3,
        yt_Status := ''METADATA_PROCESSING'', yt_URL := ''u''\<rparr>))"
    by (simp add: update_doc_def wit_update_facts parse_existing_def)
  have b: "becomes_ready svc_ref wit_update_world wit_update (stored wit_update_world wit_update)"
    by (simp add: becomes_ready_def wit_update_facts parse_existing_def,
        simp add: merge_update_def wit_update_def YoutubeTask0_def)
  have j: "snd (getJobMachineName svc_ref 3 wit_update_world) = []"
    by (simp add: getJobMachineName_def wit_update_world_def world0_def)
  have "ready_ids svc_ref ''gpu1'' ''gpu1'' wit_update_world [wit_update] = [itoa 7]"
    using d b j by (simp add: ready_ids_def ready_queue_def)
  with BatchUpdate_queues_ready_tasks [OF _ wit_update_facts(4) _ l, of svc_ref] show ?thesis
    by simp
qed

text \<open>C9: Reporting the same update again changes only the time of the last update: the merge keeps
the identity of the task, every field the update leaves empty, and the first start and completion
times, and a restart has cleared the failure flag and message.\<close>

theorem merge_update_replay:
  assumes "now \<noteq> 0"
  shows "merge_update now' u (merge_update now u e) = (merge_update now u e)\<lparr>yt_UpdatedAt := now'\<rparr>
    \<and> yt_ID (merge_update now u e) = yt_ID e \<and> yt_JobID (merge_update now u e) = yt_JobID e
    \<and> (yt_CompletedAt e \<noteq> 0 \<longrightarrow> yt_CompletedAt (merge_update now u e) = yt_CompletedAt e)
    \<and> (yt_StartedAt e \<noteq> 0 \<longrightarrow> yt_StartedAt (merge_update now u e) = yt_StartedAt e)
    \<and> (yt_Status u \<in> {''COMPLETED'', ''FAILED''} \<longrightarrow> yt_CompletedAt (merge_update now u e) \<noteq> 0)
    \<and> (yt_Status u \<in> {''RUNNING'', ''PENDING'', ''METADATA_PROCESSING''} \<longrightarrow>
         \<not> yt_IsDownloadFail (merge_update now u e) \<and> yt_ErrorMessage (merge_update now u e) = [])"
proof -
  have idem: "merge_update now' u (merge_update now u e) = (merge_update now u e)\<lparr>yt_UpdatedAt := now'\<rparr>"
    using assms by (intro youtube_task.equality) (simp_all add: merge_update_sel, blast)
  moreover have "yt_Status u \<in> {''RUNNING'', ''PENDING'', ''METADATA_PROCESSING''} \<longrightarrow>
      \<not> yt_IsDownloadFail (merge_update now u e) \<and> yt_ErrorMessage (merge_update now u e) = []"
    by (simp add: merge_update_sel restarts_def)
  ultimately show ?thesis using assms by (simp add: merge_update_sel)
qed

theorem merge_update_replay_witness:
  "merge_update 9 wit_update (merge_update 5 wit_update YoutubeTask0)
     = (merge_update 5 wit_update YoutubeTask0)\<lparr>yt_UpdatedAt := 9\<rparr>"
  using merge_update_replay [of 5 9 wit_update YoutubeTask0] by simp

section \<open>Who polls the queue of a task\<close>

text \<open>C4: A worker polls the download and the metadata queue named for a job exactly when
\<^verbatim>\<open>shouldProcessTask\<close> admits it or the job is bound to a machine called all. The queue on which
\<^verbatim>\<open>BatchUpdate\<close> puts a task whose metadata has arrived is polled by the same workers if the job is
bound to a machine, and otherwise, although every worker is admitted then, only by the machine that
reported the metadata, unless that gave no name or the name all.\<close>

theorem queues_agree_with_machine_filter:
  "(snd (getDownloadQueueName S j w) \<in> set (acquire_queues download_queue m)
      \<longleftrightarrow> snd (shouldProcessTask S j m w) \<or> snd (getJobMachineName S j w) = ''all'')
   \<and> (snd (getMetadataQueueName S j w) \<in> set (acquire_queues metadata_queue m)
      \<longleftrightarrow> snd (shouldProcessTask S j m w) \<or> snd (getJobMachineName S j w) = ''all'')
   \<and> (ready_queue (snd (getJobMachineName S j w)) reporter \<in> set (acquire_queues download_queue m)
      \<longleftrightarrow> (if snd (getJobMachineName S j w) = []
           then reporter \<in> {[], ''all'', m}
           else snd (shouldProcessTask S j m w) \<or> snd (getJobMachineName S j w) = ''all''))"
  by (auto simp: getDownloadQueueName_def getMetadataQueueName_def shouldProcessTask_def
      ready_queue_def acquire_queues_def split_beta)

text \<open>
  A second worker is admitted to the task of an unbound job, and does not poll the queue the
  first worker's report put it on.
\<close>

lemma unbound_task_waits_for_reporter:
  "snd (shouldProcessTask svc_ref 3 ''gpu2'' wit_update_world)
   \<and> ready_queue (snd (getJobMachineName svc_ref 3 wit_update_world)) ''gpu1''
       \<notin> set (acquire_queues download_queue ''gpu2'')"
  by (simp add: shouldProcessTask_def getJobMachineName_def wit_update_world_def world0_def
      ready_queue_def acquire_queues_def)

end
