(* ===== verification/YoutubeBufferFacts.thy ===== *)
theory YoutubeBufferFacts
  imports YoutubeTasks
begin

text \<open>
  The YouTube prefetch buffer meets the contract of \<^verbatim>\<open>OffsetBuffer\<close>: its interpretation, and the
  properties that follow for \<^verbatim>\<open>fillJobBuffer\<close> and its consumers.
\<close>

lemma yt_buffer_lens [simp]:
  "get_yt_buffer j (set_yt_buffer j ch w) = Some ch"
  "get_yt_buffer j (w\<lparr>w_redis := db\<rparr>) = get_yt_buffer j w"
  "w_redis (set_yt_buffer j ch w) = w_redis w"
  by (simp_all add: get_yt_buffer_def set_yt_buffer_def)

interpretation yt_filler: offset_filler "yt_lock_key j" "yt_offset_key j" "yt_job_key j" "''task:''"
    FetchBatchSize unmarshal_yt yt_Status "get_yt_buffer j" "set_yt_buffer j" for j :: int
  by unfold_locales (simp_all add: key_defs)

lemma fillJobBuffer_fill: "fillJobBuffer S j = yt_filler.fill j S"
  by (simp add: fillJobBuffer_def)

lemma yt_fresh_ready:
  assumes "get_yt_buffer j w = Some []" "w_redis w (yt_lock_key j) = None"
    and "w_redis w (yt_offset_key j) = None" "zs_of (w_redis w (yt_job_key j)) \<noteq> None"
  shows "yt_filler.ready j (job_items (yt_job_key j) ''task:'' (w_redis w)) 0 [] w"
  using assms by (simp add: yt_filler.ready_def offset_at_def)

section \<open>Properties\<close>

text \<open>C5: From an empty channel and no stored offset, after any sequence of refills and of workers
taking tasks, the tasks handed out followed by those still waiting are exactly the pending tasks of
the scanned prefix of the job, in order: none is skipped and none is repeated.\<close>

theorem yt_buffer_delivers_exactly_once:
  assumes "redis_up (rx S)" "get_yt_buffer j w = Some []" "w_redis w (yt_lock_key j) = None"
    and "w_redis w (yt_offset_key j) = None" "zs_of (w_redis w (yt_job_key j)) \<noteq> None"
  shows "\<exists>k ch w' d. buf_run (fillJobBuffer S j) (get_yt_buffer j) (set_yt_buffer j) es (w, []) = (w', d)
     \<and> get_yt_buffer j w' = Some ch \<and> offset_at (yt_offset_key j) (w_redis w') = int k
     \<and> d @ ch = pending_docs unmarshal_yt yt_Status
                  (take k (job_items (yt_job_key j) ''task:'' (w_redis w)))"
  using yt_filler.run_delivers_prefix [OF assms(1) yt_fresh_ready [OF assms(2-5)], of "[]" es]
  unfolding fillJobBuffer_fill yt_filler.ready_def by auto

definition wit_yt_task :: "int \<Rightarrow> youtube_task" where
  "wit_yt_task i = YoutubeTask0\<lparr>yt_ID := i, yt_JobID := 3, yt_Status := ''PENDING''\<rparr>"

definition wit_yt_world :: world where
  "wit_yt_world = world0\<lparr>w_redis := [yt_job_key 3 \<mapsto> RZ [(7, itoa 7)],
     yt_task_key 7 \<mapsto> RS (YtDoc (wit_yt_task 7))], w_jobBuffers := [(3, [])]\<rparr>"

lemma wit_yt_world_facts:
  "get_yt_buffer 3 wit_yt_world = Some []" "w_redis wit_yt_world (yt_lock_key 3) = None"
  "w_redis wit_yt_world (yt_offset_key 3) = None"
  "zs_of (w_redis wit_yt_world (yt_job_key 3)) = Some [(7, itoa 7)]"
  "job_items (yt_job_key 3) ''task:'' (w_redis wit_yt_world) = [Some (YtDoc (wit_yt_task 7))]"
  by (simp_all add: wit_yt_world_def get_yt_buffer_def world0_def key_defs zs_of_def job_items_def
      str_of_def)

theorem yt_buffer_delivers_exactly_once_witness:
  "\<exists>k ch w' d. buf_run (fillJobBuffer svc_ref 3) (get_yt_buffer 3) (set_yt_buffer 3)
       [Refill, Drain 1] (wit_yt_world, []) = (w', d)
     \<and> get_yt_buffer 3 w' = Some ch \<and> offset_at (yt_offset_key 3) (w_redis w') = int k
     \<and> d @ ch = pending_docs unmarshal_yt yt_Status (take k [Some (YtDoc (wit_yt_task 7))])"
  using yt_buffer_delivers_exactly_once [of svc_ref 3 wit_yt_world "[Refill, Drain 1]"]
  by (simp add: wit_yt_world_facts svc_ref_def)

text \<open>C6: Every pending task of a job is handed out: with workers emptying the channel between
refills, as many rounds as the job has hundreds of tasks deliver all of them, in order.\<close>

theorem yt_buffer_delivers_all:
  assumes "redis_up (rx S)" "get_yt_buffer j w = Some []" "w_redis w (yt_lock_key j) = None"
    and "w_redis w (yt_offset_key j) = None" "zs_of (w_redis w (yt_job_key j)) = Some zs"
    and "length zs \<le> m * 100"
  shows "snd (buf_run (fillJobBuffer S j) (get_yt_buffer j) (set_yt_buffer j)
       (concat (replicate m [Refill, Drain BufferSize])) (w, []))
     = pending_docs unmarshal_yt yt_Status (job_items (yt_job_key j) ''task:'' (w_redis w))"
proof -
  have "zs_of (w_redis w (yt_job_key j)) \<noteq> None" using assms(5) by simp
  from yt_filler.rounds_deliver [OF assms(1) yt_fresh_ready [OF assms(2-4) this], of m]
  show ?thesis using assms(5,6) unfolding fillJobBuffer_fill by (auto simp: job_items_def)
qed

theorem yt_buffer_delivers_all_witness:
  "snd (buf_run (fillJobBuffer svc_ref 3) (get_yt_buffer 3) (set_yt_buffer 3)
       [Refill, Drain BufferSize] (wit_yt_world, [])) = [wit_yt_task 7]"
  using yt_buffer_delivers_all [of svc_ref 3 wit_yt_world "[(7, itoa 7)]" 1]
  by (simp add: wit_yt_world_facts svc_ref_def pending_docs_Cons doc_of_def wit_yt_task_def)

end
