(* ===== verification/YoutubeAcquireFacts.thy ===== *)
theory YoutubeAcquireFacts
  imports YoutubeUpdateFacts YoutubeBufferFacts
begin

text \<open>
  Facts about \<^verbatim>\<open>AcquireTasks\<close>: what the polled queues hold is one sequence (\<open>queued\<close>); the
  download stage serves its prefix, and the metadata loop, which has no counter in the source,
  ends because each iteration takes one entry off that sequence.
\<close>

section \<open>The polled queues as one sequence\<close>

definition typed_queues :: "string list \<Rightarrow> world \<Rightarrow> bool" where
  "typed_queues qs w = (\<forall>q \<in> set qs. ls_of (w_redis w q) \<noteq> None)"

definition queued :: "string list \<Rightarrow> world \<Rightarrow> string list" where
  "queued qs w = concat (map (\<lambda>q. the (ls_of (w_redis w q))) qs)"

lemma queued_Cons: "queued (q # qs) w = the (ls_of (w_redis w q)) @ queued qs w"
  by (simp add: queued_def)

lemma queued_Nil [simp]: "queued [] w = []"
  by (simp add: queued_def)

lemma queued_cong:
  "(\<And>q. q \<in> set qs \<Longrightarrow> w_redis w' q = w_redis w q) \<Longrightarrow> queued qs w' = queued qs w"
  by (simp add: queued_def cong: map_cong)

lemma typed_cong:
  "(\<And>q. q \<in> set qs \<Longrightarrow> w_redis w' q = w_redis w q) \<Longrightarrow> typed_queues qs w' = typed_queues qs w"
  by (simp add: typed_queues_def)

text \<open>One pop, whatever the rest of the handler does with an error: the head of the sequence.\<close>

definition popped :: "string list \<Rightarrow> world \<Rightarrow> string list \<Rightarrow> world \<Rightarrow> bool" where
  "popped qs w L w' \<longleftrightarrow> typed_queues qs w' \<and> queued qs w' = L
     \<and> w_jobBuffers w' = w_jobBuffers w \<and> (\<forall>k. k \<notin> set qs \<longrightarrow> w_redis w' k = w_redis w k)"

lemma lpop_empty:
  assumes "redis_up (rx S)" "ls_of (w_redis w q) = Some []"
  shows "redis_do S (LPOP q) w = (w, RNil)"
  using assms by (simp add: redis_do_up)

lemma lpop_cons:
  assumes "redis_up (rx S)" "ls_of (w_redis w q) = Some (i # l)"
  shows "redis_do S (LPOP q) w = (w\<lparr>w_redis := put_list q l (w_redis w)\<rparr>, RBulk i)"
  using assms by (simp add: redis_do_up)

lemma popped_head:
  assumes "typed_queues (q # qs) w" "q \<notin> set qs" "ls_of (w_redis w q) = Some (i # l)"
  shows "popped (q # qs) w (l @ queued qs w) (w\<lparr>w_redis := put_list q l (w_redis w)\<rparr>)"
proof -
  let ?w = "w\<lparr>w_redis := put_list q l (w_redis w)\<rparr>"
  have same: "w_redis ?w k = w_redis w k" if "k \<noteq> q" for k
    using that by (simp add: put_list_def)
  then have "queued qs ?w = queued qs w"
    using assms(2) by (intro queued_cong same) auto
  then show ?thesis
    using assms same by (auto simp: popped_def queued_Cons typed_queues_def)
qed

lemma popped_tail:
  assumes "typed_queues (q # qs) w" "q \<notin> set qs" "ls_of (w_redis w q) = Some []"
    and "popped qs w L w'"
  shows "popped (q # qs) w L w'"
  using assms by (auto simp: popped_def queued_Cons typed_queues_def)

lemma pop_download_spec:
  assumes "redis_up (rx S)" "typed_queues qs w" "distinct qs" "qs \<noteq> []"
  shows "case queued qs w of
           [] \<Rightarrow> pop_download S qs w = (w, RNil)
         | i # L \<Rightarrow> \<exists>w'. pop_download S qs w = (w', RBulk i) \<and> popped qs w L w'"
  using assms
proof (induction qs arbitrary: w)
  case (Cons q qs)
  obtain l where l: "ls_of (w_redis w q) = Some l"
    using Cons.prems(2) by (auto simp: typed_queues_def)
  have t: "typed_queues qs w" using Cons.prems(2) by (simp add: typed_queues_def)
  show ?case
  proof (cases l)
    case Nil
    show ?thesis
    proof (cases "qs = []")
      case True
      then show ?thesis
        using l Nil by (simp add: queued_Cons lpop_empty [OF Cons.prems(1)])
    next
      case False
      have "pop_download S (q # qs) w = pop_download S qs w"
        using l Nil False by (simp add: lpop_empty [OF Cons.prems(1)])
      moreover have "queued (q # qs) w = queued qs w" using l Nil by (simp add: queued_Cons)
      ultimately show ?thesis
        using Cons.IH [OF Cons.prems(1) t _ False] Cons.prems(3)
          popped_tail [OF Cons.prems(2)] l Nil
        by (cases "queued qs w") auto
    qed
  next
    case (Cons i l')
    then show ?thesis
      using l popped_head [OF Cons.prems(2)] Cons.prems(3)
      by (simp add: queued_Cons lpop_cons [OF Cons.prems(1)])
  qed
qed simp

lemma pop_metadata_spec:
  assumes "redis_up (rx S)" "typed_queues qs w" "distinct qs"
  shows "case queued qs w of
           [] \<Rightarrow> pop_metadata S qs w = (w, None)
         | i # L \<Rightarrow> \<exists>w'. pop_metadata S qs w = (w', Some i) \<and> popped qs w L w'"
  using assms
proof (induction qs arbitrary: w)
  case (Cons q qs)
  obtain l where l: "ls_of (w_redis w q) = Some l"
    using Cons.prems(2) by (auto simp: typed_queues_def)
  have t: "typed_queues qs w" using Cons.prems(2) by (simp add: typed_queues_def)
  show ?case
  proof (cases l)
    case Nil
    have "pop_metadata S (q # qs) w = pop_metadata S qs w"
      using l Nil by (simp add: lpop_empty [OF Cons.prems(1)])
    moreover have "queued (q # qs) w = queued qs w" using l Nil by (simp add: queued_Cons)
    ultimately show ?thesis
      using Cons.IH [OF Cons.prems(1) t] Cons.prems(3) popped_tail [OF Cons.prems(2)] l Nil
      by (cases "queued qs w") auto
  next
    case (Cons i l')
    then show ?thesis
      using l popped_head [OF Cons.prems(2)] Cons.prems(3)
      by (simp add: queued_Cons lpop_cons [OF Cons.prems(1)])
  qed
qed simp

text \<open>The queues of a request are distinct, and no task document is one of them.\<close>

definition queues_apart :: "string list \<Rightarrow> bool" where
  "queues_apart qs \<longleftrightarrow> distinct qs \<and> (\<forall>i. ''task:'' @ i \<notin> set qs)"

lemma acquire_queues_apart:
  "m \<noteq> ''all'' \<Longrightarrow> queues_apart (acquire_queues download_queue m)"
  "m \<noteq> ''all'' \<Longrightarrow> queues_apart (acquire_queues metadata_queue m)"
  by (auto simp: acquire_queues_def queues_apart_def key_defs)

lemma acquire_queues_nonempty [simp]: "acquire_queues f m \<noteq> []"
  by (simp add: acquire_queues_def)

section \<open>Download stage\<close>

fun first_new :: "string list \<Rightarrow> string list \<Rightarrow> string list" where
  "first_new seen [] = []"
| "first_new seen (i # is) = (if i \<in> set seen then first_new seen is else i # first_new (i # seen) is)"

lemma set_first_new: "set (first_new seen is) = set is - set seen"
  by (induction seen "is" rule: first_new.induct) auto

lemma distinct_first_new: "distinct (first_new seen is)"
  by (induction seen "is" rule: first_new.induct) (auto simp: set_first_new)

definition task_doc :: "world \<Rightarrow> string \<Rightarrow> youtube_task option" where
  "task_doc w i = Option.bind (str_of (w_redis w (''task:'' @ i))) unmarshal_yt"

lemma get_task_reply:
  "redis_up (rx S) \<Longrightarrow> redis_do S (GET k) w =
     (w, case w_redis w k of None \<Rightarrow> RNil | Some (RS v) \<Rightarrow> RStr v | Some _ \<Rightarrow> RErr)"
  by (simp add: redis_do_up)

lemma get_task_doc:
  assumes "redis_up (rx S)"
  shows "(case snd (redis_do S (GET (''task:'' @ i)) w) of
            RStr v \<Rightarrow> (case unmarshal_yt v of Some t \<Rightarrow> tasks @ [t] | None \<Rightarrow> tasks)
          | _ \<Rightarrow> tasks) = tasks @ (case task_doc w i of Some t \<Rightarrow> [t] | None \<Rightarrow> [])"
  by (simp add: get_task_reply [OF assms] task_doc_def str_of_def
      split: option.split rdata.split)

lemma acquire_download_spec:
  assumes "redis_up (rx S)" "typed_queues qs w" "queues_apart qs" "qs \<noteq> []"
  shows "\<exists>w'. acquire_download S qs n w seen tasks =
      (w', tasks @ List.map_filter (task_doc w) (first_new seen (take n (queued qs w))))
    \<and> popped qs w (drop n (queued qs w)) w'"
  using assms
proof (induction n arbitrary: w seen tasks)
  case 0
  then show ?case by (auto simp: popped_def map_filter_simps)
next
  case (Suc n)
  note pop = pop_download_spec [OF Suc.prems(1,2) _ Suc.prems(4)]
  show ?case
  proof (cases "queued qs w")
    case Nil
    then show ?thesis
      using pop Suc.prems by (auto simp: queues_apart_def popped_def map_filter_simps)
  next
    case (Cons i L)
    then obtain w1 where w1: "pop_download S qs w = (w1, RBulk i)" "popped qs w L w1"
      using pop Suc.prems(3) by (auto simp: queues_apart_def)
    have t1: "typed_queues qs w1" "queued qs w1 = L" using w1(2) by (simp_all add: popped_def)
    have docs: "task_doc w1 = task_doc w"
      using w1(2) Suc.prems(3) by (auto simp: popped_def queues_apart_def task_doc_def)
    have step: "popped qs w (drop n L) w'" if "popped qs w1 (drop n L) w'" for w'
      using that w1(2) by (simp add: popped_def)
    note get = get_task_doc [OF Suc.prems(1), where i = i and w = w1 and tasks = tasks]
    have fst_get: "fst (redis_do S (GET (''task:'' @ i)) w1) = w1"
      by (simp add: get_task_reply [OF Suc.prems(1)])
    show ?thesis
    proof (cases "i \<in> set seen")
      case True
      from Suc.IH [OF Suc.prems(1) t1(1) Suc.prems(3,4), of seen tasks] True w1 step
      show ?thesis by (auto simp: Cons t1(2) docs)
    next
      case False
      define tasks' where "tasks' = tasks @ (case task_doc w i of Some t \<Rightarrow> [t] | None \<Rightarrow> [])"
      have "acquire_download S qs (Suc n) w seen tasks = acquire_download S qs n w1 (i # seen) tasks'"
        using w1(1) False get fst_get by (simp add: split_beta tasks'_def docs)
      moreover from Suc.IH [OF Suc.prems(1) t1(1) Suc.prems(3,4), of "i # seen" tasks'] obtain w' where
        "acquire_download S qs n w1 (i # seen) tasks' =
          (w', tasks' @ List.map_filter (task_doc w) (first_new (i # seen) (take n L)))"
        "popped qs w1 (drop n L) w'" by (auto simp: t1(2) docs)
      ultimately show ?thesis
        using step False by (auto simp: Cons tasks'_def map_filter_simps split: option.split)
    qed
  qed
qed

section \<open>Metadata stage\<close>

lemma accept_metadata_frame:
  assumes "redis_up (rx S)"
  shows "\<exists>w' t. accept_metadata S i w = (w', t)
    \<and> (\<forall>k. k \<noteq> ''task:'' @ i \<longrightarrow> w_redis w' k = w_redis w k) \<and> w_jobBuffers w' = w_jobBuffers w
    \<and> (\<forall>t'. t = Some t' \<longrightarrow> yt_Status t' = ''PENDING'')"
proof (cases "w_redis w (''task:'' @ i)")
  case None
  then show ?thesis by (simp add: accept_metadata_def get_task_reply [OF assms])
next
  case (Some d)
  then show ?thesis
    by (cases d) (auto simp: accept_metadata_def get_task_reply [OF assms] redis_set_def Let_def
        redis_do_up [OF assms] split: option.split)
qed

lemma popped_accept:
  assumes "popped qs w L w1" "queues_apart qs"
    and "\<forall>k. k \<noteq> ''task:'' @ i \<longrightarrow> w_redis w2 k = w_redis w1 k"
  shows "typed_queues qs w2" "queued qs w2 = L"
proof -
  have same: "w_redis w2 q = w_redis w1 q" if "q \<in> set qs" for q
    using assms(2,3) that unfolding queues_apart_def by metis
  show "typed_queues qs w2" "queued qs w2 = L"
    using assms(1) typed_cong [of qs w2 w1] queued_cong [of qs w2 w1] same
    by (auto simp: popped_def)
qed

text \<open>
  With as much fuel as there are entries, and one more, the loop returns; it keeps to the limit
  and hands out only tasks that are PENDING now.
\<close>

lemma acquire_retry_spec:
  assumes "redis_up (rx S)" "typed_queues qs w" "queues_apart qs" "length (queued qs w) < fuel"
    and "\<forall>t \<in> set tasks. yt_Status t = ''PENDING''" "length tasks \<le> limit"
  shows "\<exists>w' ts. acquire_retry fuel S qs limit w seen tasks = Some (w', ts)
    \<and> length ts \<le> limit \<and> (\<forall>t \<in> set ts. yt_Status t = ''PENDING'')
    \<and> w_jobBuffers w' = w_jobBuffers w \<and> (length ts < limit \<longrightarrow> queued qs w' = [])"
  using assms
proof (induction fuel arbitrary: w seen tasks)
  case (Suc fuel)
  note pop = pop_metadata_spec [OF Suc.prems(1,2)]
  show ?case
  proof (cases "length tasks \<ge> limit")
    case True
    then show ?thesis using Suc.prems by auto
  next
    case limit: False
    show ?thesis
    proof (cases "queued qs w")
      case Nil
      then show ?thesis
        using pop Suc.prems limit by (simp add: queues_apart_def)
    next
      case (Cons i L)
      then obtain w1 where w1: "pop_metadata S qs w = (w1, Some i)" "popped qs w L w1"
        using pop Suc.prems(3) by (auto simp: queues_apart_def)
      show ?thesis
      proof (cases "i \<in> set seen")
        case True
        from Suc.IH [of w1 tasks seen] w1 True limit Suc.prems Cons show ?thesis
          by (simp add: popped_def)
      next
        case False
        obtain w2 t where t: "accept_metadata S i w1 = (w2, t)"
          "\<forall>k. k \<noteq> ''task:'' @ i \<longrightarrow> w_redis w2 k = w_redis w1 k" "w_jobBuffers w2 = w_jobBuffers w1"
          "\<forall>t'. t = Some t' \<longrightarrow> yt_Status t' = ''PENDING''"
          using accept_metadata_frame [OF Suc.prems(1)] by meson
        note q = popped_accept [OF w1(2) Suc.prems(3) t(2)]
        define tasks' where "tasks' = (case t of Some t' \<Rightarrow> tasks @ [t'] | None \<Rightarrow> tasks)"
        have "\<forall>t \<in> set tasks'. yt_Status t = ''PENDING''" "length tasks' \<le> limit"
          using t(4) Suc.prems(5) limit by (auto simp: tasks'_def split: option.split)
        from Suc.IH [OF Suc.prems(1) q(1) Suc.prems(3) _ this, of "i # seen"] Suc.prems(4)
        show ?thesis using w1 t False limit Cons by (simp add: q(2) tasks'_def popped_def)
      qed
    qed
  qed
qed simp

lemma drain_channel_limit:
  assumes "length tasks \<le> limit" "\<forall>t \<in> set tasks \<union> set ch. P t"
  shows "\<exists>w' ch' ts. drain_channel S m limit ch w tasks = (w', ch', ts)
    \<and> length ts \<le> limit \<and> (\<forall>t \<in> set ts \<union> set ch'. P t) \<and> w_jobBuffers w' = w_jobBuffers w"
  using assms
proof (induction S m limit ch w tasks rule: drain_channel.induct)
  case (2 S m limit t ch w tasks)
  show ?case
  proof (cases "length tasks \<ge> limit")
    case True
    then show ?thesis using "2.prems" by auto
  next
    case lim: False
    show ?thesis
    proof (cases "m = []")
      case True
      with lim "2.IH"(2) "2.prems" show ?thesis by auto
    next
      case False
      obtain w1 ok where w1: "shouldProcessTask S (yt_JobID t) m w = (w1, ok)" by fastforce
      then have "w_jobBuffers w1 = w_jobBuffers w"
        by (auto simp: shouldProcessTask_def split_beta)
      with lim False w1 "2.IH"(1) [OF lim False refl, of w1 ok] "2.prems" show ?thesis
        by (cases ok) auto
    qed
  qed
qed auto

text \<open>What every buffered task satisfies, every task handed out of the buffers satisfies.\<close>

definition buffers_all :: "(youtube_task \<Rightarrow> bool) \<Rightarrow> world \<Rightarrow> bool" where
  "buffers_all P w = (\<forall>j ch. get_yt_buffer j w = Some ch \<longrightarrow> (\<forall>t \<in> set ch. P t))"

lemma acquire_buffers_limit:
  assumes "length tasks \<le> limit" "\<forall>t \<in> set tasks. P t" "buffers_all P w"
  shows "\<exists>w' ts. acquire_buffers S m limit js w tasks = (w', ts) \<and> length ts \<le> limit
    \<and> (\<forall>t \<in> set ts. P t)"
  using assms
proof (induction js arbitrary: w tasks)
  case (Cons j js)
  show ?case
  proof (cases "length tasks \<ge> limit")
    case True
    with Cons.prems show ?thesis by auto
  next
    case lim: False
    show ?thesis
    proof (cases "get_yt_buffer j w")
      case None
      with lim Cons show ?thesis by simp
    next
      case (Some ch)
      define w1 where "w1 = (if length ch < BufferLowWater then triggerRefill j w else w)"
      have b1: "w_jobBuffers w1 = w_jobBuffers w"
        by (simp add: w1_def triggerRefill_def spawn_def)
      have "\<forall>t \<in> set tasks \<union> set ch. P t"
        using Cons.prems(2,3) Some by (auto simp: buffers_all_def)
      from drain_channel_limit [OF Cons.prems(1) this, of S m w1] obtain w2 ch' ts where d:
        "drain_channel S m limit ch w1 tasks = (w2, ch', ts)" "length ts \<le> limit"
        "\<forall>t \<in> set ts \<union> set ch'. P t" "w_jobBuffers w2 = w_jobBuffers w1" by blast
      have "buffers_all P (set_yt_buffer j ch' w2)"
        using Cons.prems(3) d(3,4) b1
        by (auto simp: buffers_all_def get_yt_buffer_def set_yt_buffer_def split: if_splits)
      from Cons.IH [OF d(2) _ this] d lim Some show ?thesis
        by (simp add: w1_def [symmetric])
    qed
  qed
qed auto

section \<open>Properties\<close>

text \<open>C10: A download request takes exactly the first entries of its queues, the machine's own
queue before the shared one and at most as many as its limit, and answers with the documents of the
distinct tasks among them in that order; the rest stays queued in order.\<close>

theorem AcquireTasks_download_fifo:
  assumes "redis_up (rx S)" "ar_Stage q = ''download''" "ar_MachineName q \<noteq> ''all''"
    and "qs = acquire_queues download_queue (ar_MachineName q)" "typed_queues qs w"
    and "n = nat (if ar_Limit q \<le> 0 then 10 else ar_Limit q)"
  shows "\<exists>w'. AcquireTasks fuel S js (Some q) w = Some (w', StatusOK,
        BYtTasks (List.map_filter (task_doc w) (first_new [] (take n (queued qs w)))))
    \<and> queued qs w' = drop n (queued qs w)"
proof -
  have ap: "queues_apart qs" using acquire_queues_apart(1) [OF assms(3)] assms(4) by simp
  have ne: "qs \<noteq> []" using assms(4) by simp
  from acquire_download_spec [OF assms(1,5) ap ne, of n "[]" "[]"] assms(2,4,6) show ?thesis
    by (auto simp: AcquireTasks_def popped_def Let_def)
qed

definition wit_acquire :: "string \<Rightarrow> acquire_request" where
  "wit_acquire stage = \<lparr>ar_WorkerID = ''w'', ar_MachineName = [], ar_Stage = stage, ar_Limit = 2\<rparr>"

definition wit_acquire_world :: world where
  "wit_acquire_world = world0\<lparr>w_redis := [download_queue ''all'' \<mapsto> RL [''7'', ''7'', ''8''],
     metadata_queue ''all'' \<mapsto> RL [''7''], ''task:7'' \<mapsto> RS (YtDoc (wit_yt_task 7))],
     w_jobBuffers := [(3, [wit_yt_task 7])]\<rparr>"

lemma wit_acquire_facts:
  "acquire_queues download_queue [] = [download_queue ''all'']"
  "acquire_queues metadata_queue [] = [metadata_queue ''all'']"
  "typed_queues [download_queue ''all''] wit_acquire_world"
  "typed_queues [metadata_queue ''all''] wit_acquire_world"
  "queued [download_queue ''all''] wit_acquire_world = [''7'', ''7'', ''8'']"
  "queued [metadata_queue ''all''] wit_acquire_world = [''7'']"
  "task_doc wit_acquire_world ''7'' = Some (wit_yt_task 7)"
  by (simp_all add: acquire_queues_def typed_queues_def queued_def wit_acquire_world_def
      world0_def ls_of_def key_defs task_doc_def str_of_def)

theorem AcquireTasks_download_fifo_witness:
  "\<exists>w'. AcquireTasks 0 svc_ref [] (Some (wit_acquire ''download'')) wit_acquire_world
      = Some (w', StatusOK, BYtTasks [wit_yt_task 7])
    \<and> queued [download_queue ''all''] w' = [''8'']"
  using AcquireTasks_download_fifo [of svc_ref "wit_acquire ''download''"
      "[download_queue ''all'']" wit_acquire_world 2 0 "[]"]
  by (simp add: wit_acquire_def wit_acquire_facts map_filter_simps numeral_2_eq_2)

text \<open>C11: A metadata request returns: its loop over the retry queues, which has no bound in the
source, ends within one iteration more than there are entries queued. The answer holds at most as
many tasks as asked for, all of them PENDING.\<close>

theorem AcquireTasks_metadata_returns:
  assumes "redis_up (rx S)" "ar_Stage q \<noteq> ''download''" "ar_MachineName q \<noteq> ''all''"
    and "qs = acquire_queues metadata_queue (ar_MachineName q)" "typed_queues qs w"
    and "length (queued qs w) < fuel" "buffers_all (\<lambda>t. yt_Status t = ''PENDING'') w"
  shows "\<exists>w' ts. AcquireTasks fuel S js (Some q) w = Some (w', StatusOK, BYtTasks ts)
    \<and> length ts \<le> nat (if ar_Limit q \<le> 0 then 10 else ar_Limit q)
    \<and> (\<forall>t \<in> set ts. yt_Status t = ''PENDING'')"
proof -
  define limit where "limit = nat (if ar_Limit q \<le> 0 then 10 else ar_Limit q)"
  have ap: "queues_apart qs" using acquire_queues_apart(2) [OF assms(3)] assms(4) by simp
  from acquire_retry_spec [OF assms(1,5) ap assms(6), of "[]" limit "[]"] obtain w1 ts where r:
    "acquire_retry fuel S qs limit w [] [] = Some (w1, ts)" "length ts \<le> limit"
    "\<forall>t \<in> set ts. yt_Status t = ''PENDING''" "w_jobBuffers w1 = w_jobBuffers w" by auto
  have "buffers_all (\<lambda>t. yt_Status t = ''PENDING'') w1"
    using assms(7) r(4) by (simp add: buffers_all_def get_yt_buffer_def)
  from acquire_buffers_limit [OF r(2,3) this, of S "ar_MachineName q" js] obtain w2 ts' where b:
    "acquire_buffers S (ar_MachineName q) limit js w1 ts = (w2, ts')" "length ts' \<le> limit"
    "\<forall>t \<in> set ts'. yt_Status t = ''PENDING''" by blast
  have "AcquireTasks fuel S js (Some q) w =
      Some (if length ts \<ge> limit \<or> js = [] then (w1, StatusOK, BYtTasks ts)
            else (w2, StatusOK, BYtTasks ts'))"
    using assms(2) r(1) b(1)
    by (simp add: AcquireTasks_def limit_def [symmetric] assms(4) [symmetric])
  then show ?thesis using r b limit_def by (simp add: split: if_splits)
qed

lemma wit_acquire_buffers: "buffers_all (\<lambda>t. yt_Status t = ''PENDING'') wit_acquire_world"
  by (simp add: buffers_all_def get_yt_buffer_def wit_acquire_world_def wit_yt_task_def)

theorem AcquireTasks_metadata_returns_witness:
  "\<exists>w' ts. AcquireTasks 2 svc_ref [3] (Some (wit_acquire ''metadata'')) wit_acquire_world
      = Some (w', StatusOK, BYtTasks ts) \<and> length ts \<le> 2"
  using AcquireTasks_metadata_returns [of svc_ref "wit_acquire ''metadata''"
      "[metadata_queue ''all'']" wit_acquire_world 2 "[3]"]
  by (auto simp: wit_acquire_def wit_acquire_facts wit_acquire_buffers)

text \<open>
  A task that waits in a retry queue and in its job's buffer is handed out twice, here within one
  answer: the buffer stage does not look at the tasks the first stage took.
\<close>

lemma AcquireTasks_hands_out_twice:
  "map_option snd (AcquireTasks 3 svc_ref [3] (Some (wit_acquire ''metadata'')) wit_acquire_world)
     = Some (StatusOK, BYtTasks [wit_yt_task 7, wit_yt_task 7])"
  by code_simp

end
