(* ===== verification/YoutubeAddFacts.thy ===== *)
theory YoutubeAddFacts
  imports YoutubeAcquireFacts
begin

text \<open>
  Facts about \<^verbatim>\<open>AddTasksToJob\<close>: the identifiers it gives out, and the documents, the job's sorted
  set and the metadata queue after it, over all batches of 2000.
\<close>

section \<open>One batch\<close>

lemma rpipe_append:
  "rpipe r db (cs @ ds) =
     (let (db1, r1) = rpipe r db cs; (db2, r2) = rpipe r db1 ds in (db2, r1 @ r2))"
  by (induction cs arbitrary: db) (simp_all add: split_beta prod_eq_iff)

lemma rpipe_sets: "snd (rpipe redis_ref db (map (\<lambda>t. SET (f t) (g t)) ts)) = map (\<lambda>_. ROk) ts"
  by (induction ts arbitrary: db) (simp_all add: split_beta)

lemma batch_queue_cmds:
  "filter (\<lambda>c. metadata_queue q \<in> cmd_keys c) (add_batch_cmds j (metadata_queue q) ts)
     = [RPUSH (metadata_queue q) (map (\<lambda>t. itoa (yt_ID t)) ts)]"
  by (simp add: add_batch_cmds_def filter_map comp_def key_defs)

lemma batch_zset_cmds:
  "filter (\<lambda>c. yt_job_key j \<in> cmd_keys c) (add_batch_cmds j (metadata_queue q) ts)
     = [ZADD (yt_job_key j) (map (\<lambda>t. (yt_ID t, itoa (yt_ID t))) ts)]"
  by (simp add: add_batch_cmds_def filter_map comp_def key_defs)

lemma batch_task_cmds:
  "filter (\<lambda>c. yt_task_key i \<in> cmd_keys c) (add_batch_cmds j (metadata_queue q) ts)
     = map (\<lambda>t. SET (yt_task_key i) (YtDoc t)) (filter (\<lambda>t. yt_ID t = i) ts)"
proof -
  have "filter (\<lambda>c. yt_task_key i \<in> cmd_keys c) (map (\<lambda>t. SET (yt_task_key (yt_ID t)) (YtDoc t)) ts)
      = map (\<lambda>t. SET (yt_task_key i) (YtDoc t)) (filter (\<lambda>t. yt_ID t = i) ts)"
    by (induction ts) auto
  then show ?thesis by (simp add: add_batch_cmds_def)
qed

lemma rrun_zadds:
  assumes "zs_of (db k) = Some zs"
  shows "zs_of (rrun redis_ref db (map (ZADD k) mss) k) = Some (foldl (\<lambda>z p. z_add p z) zs (concat mss))"
  using assms by (induction mss arbitrary: db zs) (auto simp: rrun_Cons)

lemma batch_typed:
  assumes "ls_of (db (metadata_queue q)) = Some l" "zs_of (db (yt_job_key j)) = Some zs"
  shows "ls_of (rrun redis_ref db (add_batch_cmds j (metadata_queue q) ts) (metadata_queue q)) \<noteq> None"
    and "zs_of (rrun redis_ref db (add_batch_cmds j (metadata_queue q) ts) (yt_job_key j)) \<noteq> None"
  using assms by (subst rrun_filter, simp add: batch_queue_cmds batch_zset_cmds rrun_Cons)+

lemma batch_ok:
  assumes "ls_of (db (metadata_queue q)) = Some l" "zs_of (db (yt_job_key j)) = Some zs"
  shows "\<not> pipe_failed (snd (rpipe redis_ref db (add_batch_cmds j (metadata_queue q) ts)))"
proof -
  let ?sets = "map (\<lambda>t. SET (yt_task_key (yt_ID t)) (YtDoc t)) ts"
  have same: "rrun redis_ref db ?sets (metadata_queue q) = db (metadata_queue q)"
    "rrun redis_ref db ?sets (yt_job_key j) = db (yt_job_key j)"
    by (rule rrun_frame; auto simp: key_defs)+
  have q: "put_zset (yt_job_key j) z d (metadata_queue q) = d (metadata_queue q)" for z d
    by (simp add: put_zset_def)
  show ?thesis
    by (simp add: pipe_failed_def add_batch_cmds_def rpipe_append rpipe_sets split_beta same assms q
        image_iff)
qed

section \<open>All batches\<close>

lemma add_tasks_redis_up:
  assumes up: "redis_up (rx S)"
    and "ls_of (w_redis w (metadata_queue q)) \<noteq> None" "zs_of (w_redis w (yt_job_key j)) \<noteq> None"
  shows "add_tasks_redis S j (metadata_queue q) bs w =
    (w\<lparr>w_redis := rrun redis_ref (w_redis w)
         (concat (map (add_batch_cmds j (metadata_queue q)) bs))\<rparr>, True)"
  using assms(2,3)
proof (induction bs arbitrary: w)
  case (Cons b bs)
  obtain l zs where lz: "ls_of (w_redis w (metadata_queue q)) = Some l"
    "zs_of (w_redis w (yt_job_key j)) = Some zs" using Cons.prems by blast
  have "pipe_retry S 3 (add_batch_cmds j (metadata_queue q) b) w =
      (w\<lparr>w_redis := rrun redis_ref (w_redis w) (add_batch_cmds j (metadata_queue q) b)\<rparr>, True)"
    using batch_ok [OF lz] by (simp add: numeral_3_eq_3 redis_pipe_up [OF up])
  with Cons.IH [of "w\<lparr>w_redis := rrun redis_ref (w_redis w) (add_batch_cmds j (metadata_queue q) b)\<rparr>"]
    batch_typed [OF lz, of b]
  show ?case by (simp add: rrun_append)
qed simp

lemma batches_queue:
  assumes "ls_of (db (metadata_queue q)) = Some l"
  shows "ls_of (rrun redis_ref db (concat (map (add_batch_cmds j (metadata_queue q)) bs))
      (metadata_queue q)) = Some (l @ map (\<lambda>t. itoa (yt_ID t)) (concat bs))"
proof -
  have "concat (map (\<lambda>b. [RPUSH (metadata_queue q) (map (\<lambda>t. itoa (yt_ID t)) b)]) bs)
      = map (RPUSH (metadata_queue q)) (map (map (\<lambda>t. itoa (yt_ID t))) bs)"
    by (induction bs) auto
  then show ?thesis
    using rrun_rpushes [where vss = "map (map (\<lambda>t. itoa (yt_ID t))) bs" and db = db
        and k = "metadata_queue q", OF assms]
    by (subst rrun_filter) (simp add: filter_concat_map batch_queue_cmds map_concat comp_def)
qed

lemma batches_zset:
  assumes "zs_of (db (yt_job_key j)) = Some zs"
  shows "zs_of (rrun redis_ref db (concat (map (add_batch_cmds j (metadata_queue q)) bs)) (yt_job_key j))
    = Some (foldl (\<lambda>z p. z_add p z) zs (map (\<lambda>t. (yt_ID t, itoa (yt_ID t))) (concat bs)))"
proof -
  have "concat (map (\<lambda>b. [ZADD (yt_job_key j) (map (\<lambda>t. (yt_ID t, itoa (yt_ID t))) b)]) bs)
      = map (ZADD (yt_job_key j)) (map (map (\<lambda>t. (yt_ID t, itoa (yt_ID t)))) bs)"
    by (induction bs) auto
  then show ?thesis
    using rrun_zadds [where mss = "map (map (\<lambda>t. (yt_ID t, itoa (yt_ID t)))) bs" and db = db
        and k = "yt_job_key j", OF assms]
    by (subst rrun_filter) (simp add: filter_concat_map batch_zset_cmds map_concat comp_def)
qed

lemma filter_unique:
  "distinct (map f xs) \<Longrightarrow> x \<in> set xs \<Longrightarrow> filter (\<lambda>y. f y = f x) xs = [x]"
  by (induction xs) (auto simp: filter_empty_conv image_iff)

lemma batches_tasks:
  "rrun redis_ref db (concat (map (add_batch_cmds j (metadata_queue q)) bs)) (yt_task_key i) =
     rrun redis_ref db (map (\<lambda>t. SET (yt_task_key i) (YtDoc t))
       (filter (\<lambda>t. yt_ID t = i) (concat bs))) (yt_task_key i)"
  by (subst rrun_filter)
    (simp add: filter_concat_map batch_task_cmds map_concat filter_concat comp_def)

lemma batches_doc:
  assumes "distinct (map yt_ID (concat bs))" "t \<in> set (concat bs)"
  shows "rrun redis_ref db (concat (map (add_batch_cmds j (metadata_queue q)) bs))
    (yt_task_key (yt_ID t)) = Some (RS (YtDoc t))"
  unfolding batches_tasks filter_unique [OF assms] by (simp add: rrun_Cons)

lemma batches_other_doc:
  assumes "i \<notin> yt_ID ` set (concat bs)"
  shows "rrun redis_ref db (concat (map (add_batch_cmds j (metadata_queue q)) bs)) (yt_task_key i)
    = db (yt_task_key i)"
proof -
  have "filter (\<lambda>t. yt_ID t = i) (concat bs) = []"
    using assms by (auto simp: filter_empty_conv)
  then show ?thesis unfolding batches_tasks by simp
qed

section \<open>Identifiers\<close>

text \<open>A job's sorted set lists its tasks by identifier, the identifier being its own score.\<close>

definition job_zset :: "int list \<Rightarrow> (int \<times> string) list" where
  "job_zset ids = map (\<lambda>i. (i, itoa i)) ids"

lemma z_add_job_zset:
  assumes "\<forall>i \<in> set ids. i < n"
  shows "z_add (n, itoa n) (job_zset ids) = job_zset (ids @ [n])"
  using assms by (subst z_add_last) (auto simp: job_zset_def)

lemma fold_z_add_job_zset:
  assumes "sorted_wrt (<) (ids @ new)"
  shows "foldl (\<lambda>z p. z_add p z) (job_zset ids) (map (\<lambda>i. (i, itoa i)) new) = job_zset (ids @ new)"
  using assms
proof (induction new arbitrary: ids)
  case (Cons n new)
  have "\<forall>i \<in> set ids. i < n" using Cons.prems by (simp add: sorted_wrt_append)
  with Cons.IH [of "ids @ [n]"] Cons.prems show ?case by (simp add: z_add_job_zset)
qed simp

lemma next_task_id_zset:
  assumes "zs_of (db (yt_job_key j)) = Some (job_zset ids)"
  shows "next_task_id j (snd (redis_ref db (ZREVRANGE (yt_job_key j) 0 0)))
    = (if ids = [] then j * 1000000 else last ids + 1)"
proof (cases ids rule: rev_cases)
  case Nil
  then show ?thesis by (simp add: assms job_zset_def z_slice_def next_task_id_def)
next
  case (snoc ns i)
  then show ?thesis
    by (simp add: assms job_zset_def z_slice_def z_index_def next_task_id_def)
qed

lemma new_tasks_ids: "map yt_ID (new_tasks now j s urls) = map (\<lambda>i. s + int i) [0..<length urls]"
proof -
  have "map yt_ID (new_tasks now j s urls) = map (\<lambda>p. s + int (fst p)) (enumerate 0 urls)"
    by (simp add: new_tasks_def comp_def split_beta)
  also have "\<dots> = map (\<lambda>i. s + int i) (map fst (zip [0..<length urls] urls))"
    unfolding map_map comp_def enumerate_eq_zip by simp
  also have "map fst (zip [0..<length urls] urls) = [0..<length urls]" by (rule map_fst_zip) simp
  finally show ?thesis .
qed

lemma sorted_range: "sorted_wrt (<) (map (\<lambda>i. s + int i) [0..<n])"
  by (induction n) (auto simp: sorted_wrt_append)

lemma sorted_wrt_last: "sorted_wrt (<) (ids :: int list) \<Longrightarrow> i \<in> set ids \<Longrightarrow> i \<le> last ids"
  by (induction ids rule: rev_induct) (auto simp: sorted_wrt_append)

lemma sorted_new_ids:
  assumes "sorted_wrt (<) ids" "s = (if ids = [] then b else last ids + 1)"
  shows "sorted_wrt (<) (ids @ map (\<lambda>i. s + int i) [0..<n])"
proof -
  have "i < s + int k" if "i \<in> set ids" for i k
    using that assms sorted_wrt_last [OF assms(1) that] by (auto split: if_splits)
  then show ?thesis using assms(1) sorted_range by (auto simp: sorted_wrt_append)
qed

section \<open>Property\<close>

lemma getMetadataQueueName_shape:
  "\<exists>x. getMetadataQueueName S j w = (fst (getJobMachineName S j w), metadata_queue x)"
  by (auto simp: getMetadataQueueName_def split_beta)

lemma redis_same: "w_redis w = db \<Longrightarrow> w\<lparr>w_redis := db\<rparr> = w"
  by auto

lemma add_tasks_mysql_redis [simp]: "w_redis (add_tasks_mysql S j s urls w) = w_redis w"
  by (simp add: add_tasks_mysql_def)

text \<open>C12: Adding urls to a job gives them consecutive fresh identifiers in order (from the job's
own range, or after its last task), stores one PENDING document for each, extends the job's sorted
set in order and appends all of them to the job's metadata queue in order; no other task document
is touched.\<close>

theorem AddTasksToJob_adds_in_order:
  assumes "redis_up (rx S)" "urls \<noteq> []"
    and "zs_of (w_redis w (yt_job_key j)) = Some (job_zset ids)" "sorted_wrt (<) ids"
    and "queue = snd (getMetadataQueueName S j w)" "ls_of (w_redis w queue) = Some l"
    and "s = (if ids = [] then j * 1000000 else last ids + 1)"
    and "new = map (\<lambda>i. s + int i) [0..<length urls]"
  shows "\<exists>w'. AddTasksToJob S j urls w = (w', int (length urls), True)
    \<and> zs_of (w_redis w' (yt_job_key j)) = Some (job_zset (ids @ new)) \<and> sorted_wrt (<) (ids @ new)
    \<and> ls_of (w_redis w' queue) = Some (l @ map itoa new)
    \<and> (\<forall>t \<in> set (new_tasks (w_now w) j s urls). w_redis w' (yt_task_key (yt_ID t)) = Some (RS (YtDoc t)))
    \<and> (\<forall>i. i \<notin> set new \<longrightarrow> w_redis w' (yt_task_key i) = w_redis w (yt_task_key i))"
proof -
  obtain q where q: "queue = metadata_queue q"
    "getMetadataQueueName S j w = (fst (getJobMachineName S j w), metadata_queue q)"
    using getMetadataQueueName_shape [of S j w] assms(5) by auto
  define ts where "ts = new_tasks (w_now w) j s urls"
  define bs where "bs = batches 2000 ts"
  have bs: "concat bs = ts" by (simp add: bs_def)
  define w3 where "w3 = add_tasks_mysql S j s urls (fst (getJobMachineName S j w))"
  have w3: "w_redis w3 = w_redis w" by (simp add: w3_def)
  have ids: "map yt_ID ts = new" using new_tasks_ids by (simp add: ts_def assms(8))
  have pairs: "map (\<lambda>t. (yt_ID t, itoa (yt_ID t))) ts = map (\<lambda>i. (i, itoa i)) new"
    and names: "map (\<lambda>t. itoa (yt_ID t)) ts = map itoa new"
    unfolding ids [symmetric] by simp_all
  have "distinct (map yt_ID ts)" unfolding ids assms(8) by (simp add: distinct_map inj_on_def)
  then have dist: "distinct (map yt_ID (concat bs))" by (simp add: bs)
  let ?db = "rrun redis_ref (w_redis w) (concat (map (add_batch_cmds j (metadata_queue q)) bs))"
  let ?w' = "w3\<lparr>w_redis := ?db\<rparr>"
  have lq: "ls_of (w_redis w3 (metadata_queue q)) \<noteq> None" using assms(6) by (simp add: w3 q(1))
  have zq: "zs_of (w_redis w3 (yt_job_key j)) \<noteq> None" using assms(3) by (simp add: w3)
  have st: "next_task_id j (snd (redis_ref (w_redis w) (ZREVRANGE (yt_job_key j) 0 0))) = s"
    unfolding assms(7) by (rule next_task_id_zset [where db = "w_redis w", OF assms(3)])
  have same: "(fst (getJobMachineName S j w))\<lparr>w_redis :=
      fst (redis_ref (w_redis w) (ZREVRANGE (yt_job_key j) 0 0))\<rparr> = fst (getJobMachineName S j w)"
    by (rule redis_same) simp
  have "AddTasksToJob S j urls w = (?w', int (length urls), True)"
    using add_tasks_redis_up [OF assms(1) lq zq, of bs] assms(2) q(2) st
    by (simp add: AddTasksToJob_def redis_do_up [OF assms(1)] w3 same w3_def [symmetric]
        ts_def [symmetric] bs_def [symmetric] del: redis_ref.simps)
  moreover have "zs_of (?db (yt_job_key j)) = Some (job_zset (ids @ new))"
    using batches_zset [where db = "w_redis w", OF assms(3), of q bs]
    unfolding bs pairs fold_z_add_job_zset [OF sorted_new_ids [OF assms(4,7)],
        of "length urls", folded assms(8)] .
  moreover have "ls_of (?db queue) = Some (l @ map itoa new)"
    using batches_queue [where db = "w_redis w" and j = j and bs = bs, OF assms(6) [unfolded q(1)]]
    unfolding bs q(1) names .
  moreover have "?db (yt_task_key (yt_ID t)) = Some (RS (YtDoc t))" if "t \<in> set ts" for t
    using batches_doc [OF dist, of t] that by (simp add: bs)
  moreover have "?db (yt_task_key i) = w_redis w (yt_task_key i)" if "i \<notin> set new" for i
    using batches_other_doc [of i bs] that ids by (metis bs set_map)
  ultimately show ?thesis
    using sorted_new_ids [OF assms(4,7)] by (auto simp: ts_def assms(8))
qed

definition wit_add_world :: world where
  "wit_add_world = world0\<lparr>w_redis := [yt_job_key 3 \<mapsto> RZ (job_zset [3000000])]\<rparr>"

theorem AddTasksToJob_adds_in_order_witness:
  "\<exists>w'. AddTasksToJob svc_ref 3 [''a'', ''b''] wit_add_world = (w', 2, True)
    \<and> ls_of (w_redis w' (metadata_queue ''all'')) = Some [itoa 3000001, itoa 3000002]"
proof -
  have z: "zs_of (w_redis wit_add_world (yt_job_key 3)) = Some (job_zset [3000000])"
    by (simp add: wit_add_world_def zs_of_def)
  have q: "metadata_queue ''all'' = snd (getMetadataQueueName svc_ref 3 wit_add_world)"
    by (simp add: getMetadataQueueName_def getJobMachineName_def wit_add_world_def world0_def)
  have l: "ls_of (w_redis wit_add_world (metadata_queue ''all'')) = Some []"
    by (simp add: wit_add_world_def ls_of_def)
  from AddTasksToJob_adds_in_order [OF _ _ z _ q l refl refl, of "[''a'', ''b'']"] show ?thesis
    by (auto simp: numeral_2_eq_2)
qed

end
