(* ===== verification/GoStrings.thy ===== *)
theory GoStrings
  imports Prelude
begin

text \<open>
  The functions of Go's \<^verbatim>\<open>strings\<close> and \<^verbatim>\<open>path\<close> packages that the handlers and the
  workers use, on strings as byte lists with the ASCII classes of characters.
\<close>

section \<open>Characters and searching\<close>

definition has_substring :: "string \<Rightarrow> string \<Rightarrow> bool" where
  "has_substring sub s = (\<exists>i \<in> set [0..<Suc (length s)]. take (length sub) (drop i s) = sub)"

text \<open>The white space of \<^verbatim>\<open>strings.TrimSpace\<close>.\<close>

definition is_space :: "char \<Rightarrow> bool" where
  "is_space c = ((of_char c :: nat) \<in> {9, 10, 11, 12, 13, 32})"

definition to_lower :: "char \<Rightarrow> char" where
  "to_lower c = (if 65 \<le> (of_char c :: nat) \<and> (of_char c :: nat) \<le> 90
                 then char_of (of_char c + 32 :: nat) else c)"

section \<open>Prefixes, trimming and splitting\<close>

definition trim_by :: "(char \<Rightarrow> bool) \<Rightarrow> string \<Rightarrow> string" where
  "trim_by p s = rev (dropWhile p (rev (dropWhile p s)))"

definition has_prefix :: "string \<Rightarrow> string \<Rightarrow> bool" where
  "has_prefix p s = (take (length p) s = p)"

definition has_suffix :: "string \<Rightarrow> string \<Rightarrow> bool" where
  "has_suffix p s = has_prefix (rev p) (rev s)"

definition trim_prefix :: "string \<Rightarrow> string \<Rightarrow> string" where
  "trim_prefix p s = (if has_prefix p s then drop (length p) s else s)"

definition trim_suffix :: "string \<Rightarrow> string \<Rightarrow> string" where
  "trim_suffix p s = (if has_suffix p s then take (length s - length p) s else s)"

text \<open>What stands before and behind the first occurrence of \<open>sep\<close>, if there is one.\<close>

fun cut :: "string \<Rightarrow> string \<Rightarrow> (string \<times> string) option" where
  "cut sep [] = (if sep = [] then Some ([], []) else None)"
| "cut sep (c # s) =
     (if has_prefix sep (c # s) then Some ([], drop (length sep) (c # s))
      else map_option (\<lambda>(a, b). (c # a, b)) (cut sep s))"

text \<open>\<^verbatim>\<open>strings.Split(s, sep)[0]\<close>, and \<^verbatim>\<open>strings.SplitN(s, sep, 2)\<close>.\<close>

definition split_head :: "string \<Rightarrow> string \<Rightarrow> string" where
  "split_head sep s = (case cut sep s of Some (a, _) \<Rightarrow> a | None \<Rightarrow> s)"

definition trim_slashes :: "string \<Rightarrow> string" where
  "trim_slashes = trim_by (\<lambda>c. c = CHR ''/'')"

text \<open>\<^verbatim>\<open>filepath.Base\<close> and \<^verbatim>\<open>path.Base\<close>.\<close>

definition base_name :: "string \<Rightarrow> string" where
  "base_name p =
     (if p = [] then ''.''
      else let s = rev (dropWhile (\<lambda>c. c = CHR ''/'') (rev p));
               b = rev (takeWhile (\<lambda>c. c \<noteq> CHR ''/'') (rev s))
           in if b = [] then ''/'' else b)"

lemma has_prefix_append [simp]: "has_prefix p (p @ s)"
  by (simp add: has_prefix_def)

lemma has_prefixD: "has_prefix p s \<Longrightarrow> s = p @ drop (length p) s"
  unfolding has_prefix_def by (metis append_take_drop_id)

lemma trim_prefix_append [simp]: "trim_prefix p (p @ s) = s"
  by (simp add: trim_prefix_def)

lemma cut_append:
  assumes "c \<notin> set a"
  shows "cut [c] (a @ c # b) = Some (a, b)"
  using assms by (induction a) (auto simp: has_prefix_def)

lemma cut_none: "c \<notin> set a \<Longrightarrow> cut [c] a = None"
  by (induction a) (auto simp: has_prefix_def)

end
