(* ===== verification/TaskScans.thy ===== *)
theory TaskScans
  imports YoutubeAddFacts GoStrings
begin

text \<open>
  The scans over all tasks of a job: the monitor for stuck YouTube tasks of \<^verbatim>\<open>task_handler.go\<close> and
  the retry routines of \<^verbatim>\<open>job_handler.go\<close>. Four of them are copies of one cursor loop over the
  job's sorted set (1000 members at a time, one \<^verbatim>\<open>MGET\<close>, one pipeline), which is \<open>scan_loop\<close> with
  the treatment of one document as a parameter; the retry of a sharded transfer job walks its
  buckets instead. The locale \<open>task_reset\<close> states what the treatment has to provide, and its
  lemmas say that the loop ends and resets exactly the documents it should.
\<close>

section \<open>The loops\<close>

type_synonym reset_one = "string \<Rightarrow> rstr \<Rightarrow> world \<Rightarrow> (world \<times> redis_cmd list) option"

fun reset_items ::
  "reset_one \<Rightarrow> string list \<Rightarrow> rstr option list \<Rightarrow> world \<times> redis_cmd list \<times> nat
     \<Rightarrow> world \<times> redis_cmd list \<times> nat" where
  "reset_items one (k # ks) (v # vs) (w, cmds, n) =
     (case Option.bind v (\<lambda>d. one k d w) of
        None \<Rightarrow> reset_items one ks vs (w, cmds, n)
      | Some (w', cs) \<Rightarrow> reset_items one ks vs (w', cmds @ cs, Suc n))"
| "reset_items one _ _ acc = acc"

text \<open>The pipeline runs only when something was reset; its error is ignored.\<close>

definition reset_batch ::
  "svc \<Rightarrow> reset_one \<Rightarrow> string list \<Rightarrow> rstr option list \<Rightarrow> world \<Rightarrow> world \<times> nat" where
  "reset_batch S one keys vals w =
     (let (w1, cmds, n) = reset_items one keys vals (w, [], 0)
      in (if n > 0 then fst (redis_pipe S cmds w1) else w1, n))"

abbreviation ScanBatch :: nat where "ScanBatch \<equiv> 1000"

fun scan_loop ::
  "nat \<Rightarrow> svc \<Rightarrow> string \<Rightarrow> string \<Rightarrow> reset_one \<Rightarrow> int \<Rightarrow> world \<Rightarrow> nat \<Rightarrow> (world \<times> nat) option" where
  "scan_loop 0 S jobKey prefix one cursor w count = None"
| "scan_loop (Suc fuel) S jobKey prefix one cursor w count =
     (let (w1, r) = redis_do S (ZRANGE jobKey cursor (cursor + int ScanBatch - 1)) w
      in case r of
           RArr ids \<Rightarrow>
             if ids = [] then Some (w1, count)
             else (let keys = map (\<lambda>i. prefix @ i) ids; (w2, m) = redis_do S (MGET keys) w1
                   in case m of
                        RVals vals \<Rightarrow>
                          (let (w3, n) = reset_batch S one keys vals w2
                           in if length ids < ScanBatch then Some (w3, count + n)
                              else scan_loop fuel S jobKey prefix one (cursor + int ScanBatch) w3
                                     (count + n))
                      | _ \<Rightarrow> scan_loop fuel S jobKey prefix one (cursor + int ScanBatch) w2 count)
         | _ \<Rightarrow> Some (w1, count))"

section \<open>Stuck YouTube tasks\<close>

abbreviation three_hours :: time where "three_hours \<equiv> 3 * 3600 * 1000000000"

text \<open>The age is measured from the creation of the task.\<close>

definition unstick_one :: "svc \<Rightarrow> reset_one" where
  "unstick_one S k v w =
     (case unmarshal_yt v of
        None \<Rightarrow> None
      | Some t \<Rightarrow>
          if (yt_Status t = ''RUNNING'' \<or> yt_Status t = ''METADATA_PROCESSING'')
             \<and> w_now w - yt_CreatedAt t > three_hours
          then (let t' = t\<lparr>yt_Status := ''PENDING'', yt_WorkerID := [],
                           yt_ErrorMessage := ''Reset by stuck monitor'', yt_UpdatedAt := w_now w,
                           yt_IsDownloadFail := False\<rparr>;
                    (w1, queueName) = getMetadataQueueName S (yt_JobID t') w
                in Some (w1\<lparr>w_statsBuffer := trackStatusChange (yt_JobID t') (yt_Status t) ''PENDING''
                                              (w_statsBuffer w1)\<rparr>,
                         [SET (yt_task_key (yt_ID t')) (YtDoc t'),
                          RPUSH queueName [itoa (yt_ID t')]]))
          else None)"

text \<open>One fuel for every job; a job that does not end makes the whole scan not end.\<close>

definition scanStuckYoutubeTasks :: "nat \<Rightarrow> svc \<Rightarrow> world \<Rightarrow> world option" where
  "scanStuckYoutubeTasks fuel S w =
     (if dbErr S ''youtube_jobs.active'' 0 then Some w
      else foldl (\<lambda>acc job. Option.bind acc (\<lambda>w. map_option fst
             (scan_loop fuel S (yt_job_key (yj_ID job)) ''task:'' (unstick_one S) 0 w 0)))
           (Some w) (filter (\<lambda>j. yj_Status j \<in> {StatusPending, StatusRunning}) (w_ytJobs w)))"

section \<open>Retry of a YouTube job\<close>

text \<open>The apostrophe of the message is the three UTF-8 bytes of U+2019.\<close>

definition bot_message :: string where
  "bot_message = ''Sign in to confirm you'' @ [CHR 0xE2, CHR 0x80, CHR 0x99] @ ''re not a bot''"

text \<open>\<^verbatim>\<open>strings.TrimSpace(s) == ""\<close>, for ASCII white space.\<close>

definition blank :: "string \<Rightarrow> bool" where
  "blank s = list_all is_space s"

definition reset_yt :: "time \<Rightarrow> youtube_task \<Rightarrow> youtube_task option" where
  "reset_yt now t =
     (if yt_Status t = ''FAILED''
         \<and> (yt_IsDownloadFail t \<or> has_substring bot_message (yt_ErrorMessage t))
      then Some (t\<lparr>yt_Status := ''PENDING'', yt_IsDownloadFail := False, yt_ErrorMessage := [],
                    yt_UpdatedAt := now\<rparr>)
      else None)"

definition requeue_yt :: "svc \<Rightarrow> string \<Rightarrow> youtube_task \<Rightarrow> youtube_task \<Rightarrow> world \<Rightarrow> world \<times> redis_cmd list"
where
  "requeue_yt S k t t' w =
     (let (w1, q) = getDownloadQueueName S (yt_JobID t') w;
          (w2, queueName) = (if blank (yt_AudioURL t') \<and> blank (yt_VideoURL t')
                             then getMetadataQueueName S (yt_JobID t') w1 else (w1, q))
      in (w2, [SET k (YtDoc t'), RPUSH queueName [itoa (yt_ID t')]]))"

definition reset_by ::
  "(rstr \<Rightarrow> 't option) \<Rightarrow> (time \<Rightarrow> 't \<Rightarrow> 't option)
     \<Rightarrow> (string \<Rightarrow> 't \<Rightarrow> 't \<Rightarrow> world \<Rightarrow> world \<times> redis_cmd list) \<Rightarrow> reset_one" where
  "reset_by dec rst eff k v w =
     (case dec v of
        None \<Rightarrow> None
      | Some t \<Rightarrow> (case rst (w_now w) t of None \<Rightarrow> None | Some t' \<Rightarrow> Some (eff k t t' w)))"

definition finished_status :: "status \<Rightarrow> bool" where
  "finished_status s = (s = StatusCompleted \<or> s = StatusFailed)"

definition move_failed_yt :: "svc \<Rightarrow> int \<Rightarrow> nat \<Rightarrow> world \<Rightarrow> world" where
  "move_failed_yt S jobID n w =
     (if dbErr S ''youtube_jobs.move_failed'' jobID then w
      else w\<lparr>w_ytJobs := update_where (\<lambda>j. yj_ID j = jobID)
               (\<lambda>j. j\<lparr>yj_FailedCount := yj_FailedCount j - int n,
                      yj_PendingCount := yj_PendingCount j + int n\<rparr>) (w_ytJobs w)\<rparr>)"

definition set_yt_status :: "svc \<Rightarrow> int \<Rightarrow> status \<Rightarrow> world \<Rightarrow> world" where
  "set_yt_status S jobID s w =
     (if dbErr S ''youtube_jobs.status'' jobID then w
      else w\<lparr>w_ytJobs := update_where (\<lambda>j. yj_ID j = jobID) (\<lambda>j. j\<lparr>yj_Status := s\<rparr>) (w_ytJobs w)\<rparr>)"

definition RetryYoutubeTasksLogic :: "nat \<Rightarrow> svc \<Rightarrow> int \<Rightarrow> status \<Rightarrow> world \<Rightarrow> world option" where
  "RetryYoutubeTasksLogic fuel S jobID initialStatus w =
     (case scan_loop fuel S (yt_job_key jobID) ''task:''
             (reset_by unmarshal_yt reset_yt (requeue_yt S)) 0 w 0 of
        None \<Rightarrow> None
      | Some (w1, resetCount) \<Rightarrow>
          Some (if resetCount > 0
                then (let w2 = move_failed_yt S jobID resetCount w1
                      in if finished_status initialStatus
                         then set_yt_status S jobID StatusPending w2 else w2)
                else w1))"

section \<open>Retry of an ffmpeg job\<close>

definition reset_ff :: "time \<Rightarrow> ffmpeg_task \<Rightarrow> ffmpeg_task option" where
  "reset_ff now t =
     (if ft_Status t = ''FAILED''
      then Some (t\<lparr>ft_Status := ''PENDING'', ft_UpdatedAt := now, ft_ErrorMessage := []\<rparr>) else None)"

definition store_ff :: "string \<Rightarrow> ffmpeg_task \<Rightarrow> ffmpeg_task \<Rightarrow> world \<Rightarrow> world \<times> redis_cmd list" where
  "store_ff k t t' w = (w, [SET k (FfDoc t')])"

definition move_failed_ff :: "svc \<Rightarrow> int \<Rightarrow> nat \<Rightarrow> world \<Rightarrow> world" where
  "move_failed_ff S jobID n w =
     (if dbErr S ''ffmpeg_jobs.move_failed'' jobID then w
      else w\<lparr>w_ffJobs := update_where (\<lambda>j. fj_ID j = jobID)
               (\<lambda>j. j\<lparr>fj_FailedCount := fj_FailedCount j - int n,
                      fj_PendingCount := fj_PendingCount j + int n\<rparr>) (w_ffJobs w)\<rparr>)"

definition set_ff_status :: "svc \<Rightarrow> int \<Rightarrow> status \<Rightarrow> world \<Rightarrow> world" where
  "set_ff_status S jobID s w =
     (if dbErr S ''ffmpeg_jobs.status'' jobID then w
      else w\<lparr>w_ffJobs := update_where (\<lambda>j. fj_ID j = jobID) (\<lambda>j. j\<lparr>fj_Status := s\<rparr>) (w_ffJobs w)\<rparr>)"

definition RetryFfmpegTasksLogic :: "nat \<Rightarrow> svc \<Rightarrow> int \<Rightarrow> status \<Rightarrow> world \<Rightarrow> world option" where
  "RetryFfmpegTasksLogic fuel S jobID initialStatus w =
     (case scan_loop fuel S (ff_job_key jobID) ''ff:task:''
             (reset_by unmarshal_ff reset_ff store_ff) 0 w 0 of
        None \<Rightarrow> None
      | Some (w1, resetCount) \<Rightarrow>
          Some (if resetCount > 0
                then (let w2 = move_failed_ff S jobID resetCount w1
                      in if finished_status initialStatus
                         then set_ff_status S jobID StatusPending w2 else w2)
                else w1))"

section \<open>Retry of a transfer job\<close>

text \<open>\<^verbatim>\<open>resetFailedTaskForRetry\<close>: the changed task, or \<open>None\<close> for the answer false.\<close>

definition resetFailedTaskForRetry :: "time \<Rightarrow> transfer_task \<Rightarrow> transfer_task option" where
  "resetFailedTaskForRetry now t =
     (if tt_Status t \<noteq> ''FAILED'' then None
      else Some (t\<lparr>tt_Status := ''PENDING'', tt_UpdatedAt := now, tt_ErrorMessage := [],
                   tt_WorkerID := [], tt_StartedAt := 0, tt_CompletedAt := 0, tt_RetryCount := 0,
                   tt_LastRetryTime := []\<rparr>))"

definition resetTaskForAutoRetry :: "time \<Rightarrow> status \<Rightarrow> transfer_task \<Rightarrow> transfer_task" where
  "resetTaskForAutoRetry now newStatus t =
     t\<lparr>tt_Status := newStatus, tt_UpdatedAt := now, tt_ErrorMessage := [], tt_WorkerID := [],
       tt_StartedAt := 0, tt_CompletedAt := 0\<rparr>"

text \<open>The row with the task's identifier gets six columns; the retry count is not one of them.\<close>

definition mirror_tx_reset :: "svc \<Rightarrow> transfer_task \<Rightarrow> transfer_task list \<Rightarrow> transfer_task list" where
  "mirror_tx_reset S t rows =
     (if dbErr S ''transfer_tasks.updates'' (tt_ID t) then rows
      else update_where (\<lambda>r. tt_ID r = tt_ID t)
             (\<lambda>r. r\<lparr>tt_Status := tt_Status t, tt_ErrorMessage := tt_ErrorMessage t,
                    tt_WorkerID := tt_WorkerID t, tt_StartedAt := tt_StartedAt t,
                    tt_CompletedAt := tt_CompletedAt t, tt_UpdatedAt := tt_UpdatedAt t\<rparr>) rows)"

definition store_tx ::
  "svc \<Rightarrow> int \<Rightarrow> string \<Rightarrow> transfer_task \<Rightarrow> transfer_task \<Rightarrow> world \<Rightarrow> world \<times> redis_cmd list" where
  "store_tx S jobID k t t' w =
     (w\<lparr>w_txStatsBuffer := trackTxStatusChange jobID (tt_Status t) (tt_Status t') (w_txStatsBuffer w),
        w_txTasks := mirror_tx_reset S t' (w_txTasks w)\<rparr>, [SET k (TxDoc t')])"

abbreviation tx_reset_one :: "svc \<Rightarrow> int \<Rightarrow> reset_one" where
  "tx_reset_one S jobID \<equiv> reset_by unmarshal_tx resetFailedTaskForRetry (store_tx S jobID)"

definition set_tx_status :: "svc \<Rightarrow> int \<Rightarrow> status \<Rightarrow> world \<Rightarrow> world" where
  "set_tx_status S jobID s w =
     (if dbErr S ''transfer_jobs.status'' jobID then w
      else w\<lparr>w_txJobs := update_where (\<lambda>j. tj_JobID j = jobID) (\<lambda>j. j\<lparr>tj_Status := s\<rparr>)
               (w_txJobs w)\<rparr>)"

text \<open>The last step of both transfer retries: rewind the offset and reopen a finished job.\<close>

definition finish_tx_retry :: "svc \<Rightarrow> int \<Rightarrow> status \<Rightarrow> world \<Rightarrow> nat \<Rightarrow> world" where
  "finish_tx_retry S jobID initialStatus w resetCount =
     (if resetCount > 0
      then (let w1 = redis_set S (SET (tx_offset_key jobID) (Num 0)) w
            in if finished_status initialStatus \<or> initialStatus = StatusPhasedCompleted
               then set_tx_status S jobID StatusPending w1 else w1)
      else w)"

definition retryLegacyTransferTasks :: "nat \<Rightarrow> svc \<Rightarrow> int \<Rightarrow> status \<Rightarrow> world \<Rightarrow> world option" where
  "retryLegacyTransferTasks fuel S jobID initialStatus w =
     map_option (\<lambda>(w1, n). finish_tx_retry S jobID initialStatus w1 n)
       (scan_loop fuel S (tx_job_key jobID) ''tx:task:'' (tx_reset_one S jobID) 0 w 0)"

text \<open>
  Sharded: the members of a bucket in groups of 500; an empty first bucket ends the loop, any other
  is skipped.
\<close>

fun reset_groups ::
  "svc \<Rightarrow> reset_one \<Rightarrow> string list list \<Rightarrow> world \<times> nat \<Rightarrow> world \<times> nat" where
  "reset_groups S one [] acc = acc"
| "reset_groups S one (g # gs) (w, n) =
     (let (w1, m) = redis_do S (MGET g) w
      in case m of
           RVals vals \<Rightarrow> (let (w2, k) = reset_batch S one g vals w1 in reset_groups S one gs (w2, n + k))
         | _ \<Rightarrow> reset_groups S one gs (w1, n))"

abbreviation RetryBuckets :: nat where "RetryBuckets \<equiv> 200"

fun reset_buckets :: "svc \<Rightarrow> int \<Rightarrow> nat list \<Rightarrow> world \<times> nat \<Rightarrow> world \<times> nat" where
  "reset_buckets S jobID [] acc = acc"
| "reset_buckets S jobID (b # bs) (w, n) =
     (let (w1, r) = redis_do S (ZRANGE (tx_bucket_key jobID (int b)) 0 (- 1)) w
      in case r of
           RArr (i # is) \<Rightarrow>
             reset_buckets S jobID bs
               (reset_groups S (tx_reset_one S jobID)
                  (batches 500 (map (\<lambda>tid. ''tx:task:'' @ itoa jobID @ '':'' @ tid) (i # is))) (w1, n))
         | _ \<Rightarrow> if b = 0 then (w1, n) else reset_buckets S jobID bs (w1, n))"

definition retryShardedTransferTasks :: "svc \<Rightarrow> int \<Rightarrow> status \<Rightarrow> world \<Rightarrow> world" where
  "retryShardedTransferTasks S jobID initialStatus w =
     (let (w1, n) = reset_buckets S jobID [0..<RetryBuckets] (w, 0)
      in finish_tx_retry S jobID initialStatus w1 n)"

definition RetryTransferTasksLogic :: "nat \<Rightarrow> svc \<Rightarrow> int \<Rightarrow> status \<Rightarrow> world \<Rightarrow> world option" where
  "RetryTransferTasksLogic fuel S jobID initialStatus w =
     (let (w1, sharded) = isJobSharded S jobID w
      in if sharded then Some (retryShardedTransferTasks S jobID initialStatus w1)
         else retryLegacyTransferTasks fuel S jobID initialStatus w1)"

end
