(* ===== verification/TaskScanFacts.thy ===== *)
theory TaskScanFacts
  imports TaskScans
begin

text \<open>
  The locale \<open>task_reset\<close>: what the treatment of one document promises to the cursor loop. Its
  lemmas (the loop ends; every member's document is reset exactly when it should be, and counted)
  are interpreted for the three retry routines.
\<close>

section \<open>Items\<close>

lemma reset_items_append:
  "reset_items one ks vs (w, cmds, n) =
     (let (w', cs, k) = reset_items one ks vs (w, [], 0) in (w', cmds @ cs, n + k))"
proof (induction ks vs arbitrary: w cmds n rule: list_induct2')
  case (4 k ks v vs)
  show ?case
  proof (cases "Option.bind v (\<lambda>d. one k d w)")
    case None
    then show ?thesis using "4.IH" [of w cmds n] by simp
  next
    case (Some p)
    obtain w' cs where p: "p = (w', cs)" by fastforce
    show ?thesis
      using "4.IH" [of w' "cmds @ cs" "Suc n"] "4.IH" [of w' cs "Suc 0"] Some p
      by (simp add: split_beta Let_def)
  qed
qed simp_all

section \<open>The contract\<close>

text \<open>
  \<open>rst now d\<close> is the new document of a stored one that is to be reset; \<open>one\<close> writes it under the
  key and may queue other commands, but none on the job's set or on another task's key.
\<close>

locale task_reset =
  fixes jobKey prefix :: string and one :: reset_one and rst :: "time \<Rightarrow> rstr \<Rightarrow> rstr option"
  assumes one_None: "rst (w_now w) d = None \<Longrightarrow> one k d w = None"
    and one_Some: "rst (w_now w) d = Some d' \<Longrightarrow>
      \<exists>w' cs. one (prefix @ i) d w = Some (w', cs) \<and> w_redis w' = w_redis w \<and> w_now w' = w_now w
        \<and> (\<forall>j. filter (\<lambda>c. prefix @ j \<in> cmd_keys c) cs = (if j = i then [SET (prefix @ i) d'] else []))
        \<and> filter (\<lambda>c. jobKey \<in> cmd_keys c) cs = []"
    and job_not_task: "jobKey \<noteq> prefix @ i"
begin

text \<open>What becomes of the content of one key.\<close>

definition new_data :: "time \<Rightarrow> rdata option \<Rightarrow> rdata option" where
  "new_data now d =
     (case Option.bind (str_of d) (rst now) of None \<Rightarrow> d | Some d' \<Rightarrow> Some (RS d'))"

definition to_reset :: "time \<Rightarrow> redis_db \<Rightarrow> string \<Rightarrow> bool" where
  "to_reset now db i = (Option.bind (str_of (db (prefix @ i))) (rst now) \<noteq> None)"

lemma reset_items_spec:
  assumes "distinct ids"
  shows "\<exists>w' cs. reset_items one (map (\<lambda>i. prefix @ i) ids)
      (map (\<lambda>i. str_of (db (prefix @ i))) ids) (w, [], 0)
        = (w', cs, length (filter (to_reset (w_now w) db) ids))
    \<and> w_redis w' = w_redis w \<and> w_now w' = w_now w
    \<and> (\<forall>j. filter (\<lambda>c. prefix @ j \<in> cmd_keys c) cs =
         (if j \<in> set ids then (case Option.bind (str_of (db (prefix @ j))) (rst (w_now w)) of
            None \<Rightarrow> [] | Some d' \<Rightarrow> [SET (prefix @ j) d']) else []))
    \<and> filter (\<lambda>c. jobKey \<in> cmd_keys c) cs = []"
  using assms
proof (induction ids arbitrary: w)
  case (Cons i ids)
  show ?case
  proof (cases "Option.bind (str_of (db (prefix @ i))) (rst (w_now w))")
    case None
    have none: "Option.bind (str_of (db (prefix @ i))) (\<lambda>d. one (prefix @ i) d w) = None"
      using None one_None by (cases "str_of (db (prefix @ i))") simp_all
    have tr: "\<not> to_reset (w_now w) db i" using None by (simp add: to_reset_def)
    from Cons.IH [of w] Cons.prems None none tr show ?thesis by (simp split: option.split) fastforce
  next
    case (Some d')
    then obtain d where d: "str_of (db (prefix @ i)) = Some d" "rst (w_now w) d = Some d'"
      by (cases "str_of (db (prefix @ i))") simp_all
    from one_Some [OF d(2)] obtain w1 cs1 where one: "one (prefix @ i) d w = Some (w1, cs1)"
      "w_redis w1 = w_redis w" "w_now w1 = w_now w"
      "\<And>j. filter (\<lambda>c. prefix @ j \<in> cmd_keys c) cs1 = (if j = i then [SET (prefix @ i) d'] else [])"
      "filter (\<lambda>c. jobKey \<in> cmd_keys c) cs1 = []" by meson
    from Cons.IH [of w1] Cons.prems obtain w2 cs2 where ih: "reset_items one (map (\<lambda>i. prefix @ i) ids)
      (map (\<lambda>i. str_of (db (prefix @ i))) ids) (w1, [], 0)
        = (w2, cs2, length (filter (to_reset (w_now w) db) ids))"
      "w_redis w2 = w_redis w" "w_now w2 = w_now w"
      "\<And>j. filter (\<lambda>c. prefix @ j \<in> cmd_keys c) cs2 =
         (if j \<in> set ids then (case Option.bind (str_of (db (prefix @ j))) (rst (w_now w)) of
            None \<Rightarrow> [] | Some d' \<Rightarrow> [SET (prefix @ j) d']) else [])"
      "filter (\<lambda>c. jobKey \<in> cmd_keys c) cs2 = []"
      using one(2,3) by auto
    have tr: "to_reset (w_now w) db i" using Some by (simp add: to_reset_def)
    have "reset_items one (map (\<lambda>i. prefix @ i) (i # ids))
        (map (\<lambda>i. str_of (db (prefix @ i))) (i # ids)) (w, [], 0)
        = (w2, cs1 @ cs2, length (filter (to_reset (w_now w) db) (i # ids)))"
      using d(1) one(1) ih(1) tr
        reset_items_append [of one _ _ w1 cs1 "Suc 0"] by simp
    moreover have "filter (\<lambda>c. prefix @ j \<in> cmd_keys c) (cs1 @ cs2) =
         (if j \<in> set (i # ids) then (case Option.bind (str_of (db (prefix @ j))) (rst (w_now w)) of
            None \<Rightarrow> [] | Some d' \<Rightarrow> [SET (prefix @ j) d']) else [])" for j
      using one(4) ih(4) Some Cons.prems by auto
    ultimately show ?thesis using ih(2,3,5) one(5) by auto
  qed
qed simp

lemma reset_batch_spec:
  assumes "redis_up (rx S)" "distinct ids"
  shows "\<exists>w'. reset_batch S one (map (\<lambda>i. prefix @ i) ids)
      (map (\<lambda>i. str_of (w_redis w (prefix @ i))) ids) w
        = (w', length (filter (to_reset (w_now w) (w_redis w)) ids))
    \<and> w_now w' = w_now w \<and> w_redis w' jobKey = w_redis w jobKey
    \<and> (\<forall>j. w_redis w' (prefix @ j) =
         (if j \<in> set ids then new_data (w_now w) (w_redis w (prefix @ j)) else w_redis w (prefix @ j)))"
proof -
  let ?n = "length (filter (to_reset (w_now w) (w_redis w)) ids)"
  obtain w1 cs where r: "reset_items one (map (\<lambda>i. prefix @ i) ids)
      (map (\<lambda>i. str_of (w_redis w (prefix @ i))) ids) (w, [], 0) = (w1, cs, ?n)"
    "w_redis w1 = w_redis w" "w_now w1 = w_now w"
    "\<And>j. filter (\<lambda>c. prefix @ j \<in> cmd_keys c) cs =
       (if j \<in> set ids then (case Option.bind (str_of (w_redis w (prefix @ j))) (rst (w_now w)) of
          None \<Rightarrow> [] | Some d' \<Rightarrow> [SET (prefix @ j) d']) else [])"
    "filter (\<lambda>c. jobKey \<in> cmd_keys c) cs = []"
    using reset_items_spec [OF assms(2), of "w_redis w" w] by meson
  define w2 where "w2 = (if ?n > 0 then fst (redis_pipe S cs w1) else w1)"
  have w2: "w_redis w2 = (if ?n > 0 then rrun redis_ref (w_redis w) cs else w_redis w)"
    "w_now w2 = w_now w"
    using r(2,3) by (simp_all add: w2_def redis_pipe_up [OF assms(1)])
  have job: "w_redis w2 jobKey = w_redis w jobKey"
    by (simp add: w2, subst rrun_filter, simp add: r(5))
  have task: "w_redis w2 (prefix @ j) =
      (if j \<in> set ids then new_data (w_now w) (w_redis w (prefix @ j)) else w_redis w (prefix @ j))" for j
  proof (cases "?n > 0")
    case True
    then have "w_redis w2 (prefix @ j) = rrun redis_ref (w_redis w) cs (prefix @ j)" by (simp add: w2)
    then show ?thesis
      by (subst (asm) rrun_filter) (simp add: r(4) new_data_def rrun_Cons split: option.split)
  next
    case False
    then have "Option.bind (str_of (w_redis w (prefix @ j))) (rst (w_now w)) = None" if "j \<in> set ids"
      using that by (auto simp: to_reset_def filter_empty_conv)
    with False show ?thesis by (simp add: w2 new_data_def)
  qed
  show ?thesis
    using r(1) w2(2) job task by (intro exI [of _ w2]) (simp add: reset_batch_def w2_def)
qed

section \<open>The loop\<close>

lemma z_slice_scan:
  "z_slice (int k) (int k + int ScanBatch - 1) xs = take ScanBatch (drop k xs)"
  by (auto simp: z_slice_def z_index_def Let_def)

lemma scan_loop_spec:
  assumes up: "redis_up (rx S)" and ids: "zs_of (w_redis w jobKey) = Some zs" "map snd zs = ids"
    and dist: "distinct ids" and "k * ScanBatch \<le> length ids" "length ids < (k + fuel) * ScanBatch"
  shows "\<exists>w' n. scan_loop fuel S jobKey prefix one (int (k * ScanBatch)) w c = Some (w', c + n)
    \<and> n = length (filter (to_reset (w_now w) (w_redis w)) (drop (k * ScanBatch) ids))
    \<and> w_now w' = w_now w \<and> w_redis w' jobKey = w_redis w jobKey
    \<and> (\<forall>j. w_redis w' (prefix @ j) =
         (if j \<in> set (drop (k * ScanBatch) ids) then new_data (w_now w) (w_redis w (prefix @ j))
          else w_redis w (prefix @ j)))"
  using ids(1) assms(5,6)
proof (induction fuel arbitrary: k w c)
  case (Suc fuel)
  let ?rest = "drop (k * ScanBatch) ids"
  let ?chunk = "take ScanBatch ?rest"
  have zr: "redis_do S (ZRANGE jobKey (int (k * ScanBatch)) (int (k * ScanBatch) + int ScanBatch - 1)) w
      = (w, RArr ?chunk)"
    using Suc.prems(1) ids(2) z_slice_scan [of "k * ScanBatch" ids] by (simp add: redis_do_up [OF up])
  have mg: "redis_do S (MGET (map (\<lambda>i. prefix @ i) ?chunk)) w
      = (w, RVals (map (\<lambda>i. str_of (w_redis w (prefix @ i))) ?chunk))"
    by (simp add: redis_do_up [OF up] comp_def)
  show ?case
  proof (cases "?chunk = []")
    case True
    then have "?rest = []" by simp
    then show ?thesis using zr True by (simp add: Let_def)
  next
    case False
    have "distinct ?chunk" using dist by simp
    from reset_batch_spec [OF up this, of w] obtain w1 where b:
      "reset_batch S one (map (\<lambda>i. prefix @ i) ?chunk)
        (map (\<lambda>i. str_of (w_redis w (prefix @ i))) ?chunk) w
        = (w1, length (filter (to_reset (w_now w) (w_redis w)) ?chunk))"
      "w_now w1 = w_now w" "w_redis w1 jobKey = w_redis w jobKey"
      "\<And>j. w_redis w1 (prefix @ j) =
         (if j \<in> set ?chunk then new_data (w_now w) (w_redis w (prefix @ j)) else w_redis w (prefix @ j))"
      by blast
    show ?thesis
    proof (cases "length ?chunk < ScanBatch")
      case True
      then have "?chunk = ?rest" by simp
      then show ?thesis using zr mg b True False by (simp add: Let_def)
    next
      case full: False
      have split: "?rest = ?chunk @ drop (Suc k * ScanBatch) ids"
        by (metis append_take_drop_id drop_drop mult_Suc)
      have step: "scan_loop (Suc fuel) S jobKey prefix one (int (k * ScanBatch)) w c =
          scan_loop fuel S jobKey prefix one (int (Suc k * ScanBatch)) w1
            (c + length (filter (to_reset (w_now w) (w_redis w)) ?chunk))"
        using zr mg b False full by (simp add: Let_def algebra_simps)
      have apart: "j \<notin> set ?chunk" if "j \<in> set (drop (Suc k * ScanBatch) ids)" for j
        using that dist split by (metis disjoint_iff distinct_append distinct_drop)
      have same: "filter (to_reset (w_now w1) (w_redis w1)) (drop (Suc k * ScanBatch) ids)
          = filter (to_reset (w_now w) (w_redis w)) (drop (Suc k * ScanBatch) ids)"
        by (rule filter_cong) (simp_all add: to_reset_def b(2,4) apart)
      have "Suc k * ScanBatch \<le> length ids" using full by simp
      moreover have "length ids < (Suc k + fuel) * ScanBatch" using Suc.prems(3) by simp
      ultimately obtain w2 where ih: "scan_loop fuel S jobKey prefix one (int (Suc k * ScanBatch)) w1
            (c + length (filter (to_reset (w_now w) (w_redis w)) ?chunk))
          = Some (w2, c + length (filter (to_reset (w_now w) (w_redis w)) ?chunk)
              + length (filter (to_reset (w_now w) (w_redis w)) (drop (Suc k * ScanBatch) ids)))"
        "w_now w2 = w_now w" "w_redis w2 jobKey = w_redis w jobKey"
        "\<And>j. w_redis w2 (prefix @ j) =
          (if j \<in> set (drop (Suc k * ScanBatch) ids) then new_data (w_now w) (w_redis w1 (prefix @ j))
           else w_redis w1 (prefix @ j))"
        using Suc.IH [of w1 "Suc k"] Suc.prems(1) b(2,3) same by (metis (no_types, lifting))
      have "w_redis w2 (prefix @ j) =
          (if j \<in> set ?rest then new_data (w_now w) (w_redis w (prefix @ j))
           else w_redis w (prefix @ j))" for j
        using apart [of j] by (subst split) (auto simp: ih(4) b(4))
      moreover have "length (filter (to_reset (w_now w) (w_redis w)) ?rest) =
          length (filter (to_reset (w_now w) (w_redis w)) ?chunk)
          + length (filter (to_reset (w_now w) (w_redis w)) (drop (Suc k * ScanBatch) ids))"
        by (subst split) simp
      ultimately show ?thesis
        unfolding step using ih(1-3) by (intro exI [of _ w2]) (simp add: add.assoc)
    qed
  qed
qed simp

end

section \<open>The retry routines meet the contract\<close>

definition rst_yt :: "time \<Rightarrow> rstr \<Rightarrow> rstr option" where
  "rst_yt now d = map_option YtDoc (Option.bind (unmarshal_yt d) (reset_yt now))"

definition rst_tx :: "time \<Rightarrow> rstr \<Rightarrow> rstr option" where
  "rst_tx now d = map_option TxDoc (Option.bind (unmarshal_tx d) (resetFailedTaskForRetry now))"

definition rst_ff :: "time \<Rightarrow> rstr \<Rightarrow> rstr option" where
  "rst_ff now d = map_option FfDoc (Option.bind (unmarshal_ff d) (reset_ff now))"

lemma reset_by_cases:
  "reset_by dec rst eff k d w = (case Option.bind (dec d) (rst (w_now w)) of
     None \<Rightarrow> None | Some t' \<Rightarrow> Some (eff k (the (dec d)) t' w))"
  by (simp add: reset_by_def split: option.split)

lemma requeue_yt_spec:
  "\<exists>w' q. requeue_yt S k t t' w = (w', [SET k (YtDoc t'), RPUSH q [itoa (yt_ID t')]])
    \<and> w_redis w' = w_redis w \<and> w_now w' = w_now w
    \<and> (q \<in> range download_queue \<or> q \<in> range metadata_queue)"
  by (auto simp: requeue_yt_def getDownloadQueueName_def getMetadataQueueName_def split_beta)

interpretation yt_retry: task_reset "yt_job_key j" "''task:''"
    "reset_by unmarshal_yt reset_yt (requeue_yt S)" rst_yt for j :: int and S :: svc
proof unfold_locales
  fix w :: world and d k
  assume "rst_yt (w_now w) d = None"
  then show "reset_by unmarshal_yt reset_yt (requeue_yt S) k d w = None"
    by (simp add: reset_by_cases rst_yt_def)
next
  fix w :: world and d d' i
  assume "rst_yt (w_now w) d = Some d'"
  then obtain t' where t': "Option.bind (unmarshal_yt d) (reset_yt (w_now w)) = Some t'"
    "d' = YtDoc t'" by (auto simp: rst_yt_def)
  obtain w' q where r: "requeue_yt S (''task:'' @ i) (the (unmarshal_yt d)) t' w =
      (w', [SET (''task:'' @ i) (YtDoc t'), RPUSH q [itoa (yt_ID t')]])"
    "w_redis w' = w_redis w" "w_now w' = w_now w"
    "q \<in> range download_queue \<or> q \<in> range metadata_queue"
    using requeue_yt_spec by blast
  then have q: "''task:'' @ k \<noteq> q" "yt_job_key j \<noteq> q" for k by (auto simp: key_defs)
  show "\<exists>w' cs. reset_by unmarshal_yt reset_yt (requeue_yt S) (''task:'' @ i) d w = Some (w', cs)
      \<and> w_redis w' = w_redis w \<and> w_now w' = w_now w
      \<and> (\<forall>j. filter (\<lambda>c. ''task:'' @ j \<in> cmd_keys c) cs
             = (if j = i then [SET (''task:'' @ i) d'] else []))
      \<and> filter (\<lambda>c. yt_job_key j \<in> cmd_keys c) cs = []"
    using r q t' by (simp add: reset_by_cases) (simp add: key_defs)
qed (simp add: key_defs)

interpretation tx_retry: task_reset "tx_job_key j" "''tx:task:''" "tx_reset_one S j" rst_tx
  for j :: int and S :: svc
  by unfold_locales
    (auto simp: reset_by_cases rst_tx_def store_tx_def key_defs)

definition shard_prefix :: "int \<Rightarrow> string" where
  "shard_prefix j = ''tx:task:'' @ itoa j @ '':''"

interpretation tx_sharded_retry: task_reset "tx_bucket_key j b" "shard_prefix j"
    "tx_reset_one S j" rst_tx for j b :: int and S :: svc
  by unfold_locales
    (auto simp: reset_by_cases rst_tx_def store_tx_def key_defs shard_prefix_def)

interpretation ff_retry: task_reset "ff_job_key j" "''ff:task:''"
    "reset_by unmarshal_ff reset_ff store_ff" rst_ff for j :: int
  by unfold_locales
    (auto simp: reset_by_cases rst_ff_def store_ff_def key_defs)

text \<open>A part of the world that the treatment of one document keeps, the scan keeps.\<close>

lemma reset_items_frame:
  assumes "\<And>k d w w' cs. one k d w = Some (w', cs) \<Longrightarrow> P w' = P w"
  shows "P (fst (reset_items one ks vs (w, cmds, n))) = P w"
proof (induction ks vs arbitrary: w cmds n rule: list_induct2')
  case (4 k ks v vs)
  show ?case
  proof (cases "Option.bind v (\<lambda>d. one k d w)")
    case None
    with "4.IH" show ?thesis by simp
  next
    case (Some p)
    then obtain d w' cs where "one k d w = Some (w', cs)" "p = (w', cs)"
      by (cases v; cases p) simp_all
    with Some "4.IH" assms show ?thesis by simp
  qed
qed simp_all

lemma scan_loop_frame:
  assumes "\<And>k d w w' cs. one k d w = Some (w', cs) \<Longrightarrow> P w' = P w"
    and r: "\<And>w db. P (w\<lparr>w_redis := db\<rparr>) = P w"
    and "scan_loop fuel S jobKey prefix one cursor w c = Some (w', n)"
  shows "P w' = P w"
proof -
  have d: "P (fst (redis_do S cmd w)) = P w" for cmd w
    by (simp add: redis_do_def split_beta r)
  have b: "P (fst (reset_batch S one ks vs w)) = P w" for ks vs w
    using reset_items_frame [where P = P, OF assms(1)]
    by (simp add: reset_batch_def split_beta redis_pipe_def r)
  from assms(3) show ?thesis
  proof (induction fuel arbitrary: cursor w c)
    case (Suc fuel)
    from Suc.prems show ?case
      by (auto simp: Let_def split_beta b d dest!: Suc.IH split: reply.splits if_splits)
  qed simp
qed

section \<open>Properties\<close>

text \<open>A failure that may go away: of the download, or of the check for bots.\<close>

definition passing_failure :: "youtube_task \<Rightarrow> bool" where
  "passing_failure t = (yt_Status t = ''FAILED''
     \<and> (yt_IsDownloadFail t \<or> has_substring bot_message (yt_ErrorMessage t)))"

definition retryable_yt :: "world \<Rightarrow> (int \<times> string) list \<Rightarrow> string list" where
  "retryable_yt w zs = filter (\<lambda>i. case task_doc w i of
       None \<Rightarrow> False | Some t \<Rightarrow> passing_failure t) (map snd zs)"

lemma reset_yt_passing:
  "reset_yt now t = (if passing_failure t
     then Some (t\<lparr>yt_Status := ''PENDING'', yt_IsDownloadFail := False, yt_ErrorMessage := [],
                   yt_UpdatedAt := now\<rparr>)
     else None)"
  by (simp add: reset_yt_def passing_failure_def)

lemma yt_retry_to_reset:
  "yt_retry.to_reset (w_now w) (w_redis w) =
     (\<lambda>i. case task_doc w i of None \<Rightarrow> False | Some t \<Rightarrow> passing_failure t)"
  by (rule ext) (auto simp: reset_yt_passing yt_retry.to_reset_def task_doc_def rst_yt_def split: option.split
      bind_splits)

text \<open>C13: The retry of a YouTube job returns; every task of the job that failed in its download or
on the bot check is PENDING again with its failure cleared, every other document is as it was, and
the job's counters move exactly that number of tasks from failed to pending.\<close>

theorem RetryYoutubeTasksLogic_resets_failed:
  assumes "svc_up S" "zs_of (w_redis w (yt_job_key j)) = Some zs" "distinct (map snd zs)"
    and "length zs < fuel * ScanBatch" "n = length (retryable_yt w zs)"
  shows "\<exists>w'. RetryYoutubeTasksLogic fuel S j st w = Some w'
    \<and> (\<forall>i t. i \<in> snd ` set zs \<longrightarrow> task_doc w i = Some t \<longrightarrow>
         task_doc w' i = Some (if passing_failure t
           then t\<lparr>yt_Status := ''PENDING'', yt_IsDownloadFail := False, yt_ErrorMessage := [], yt_UpdatedAt := w_now w\<rparr>
           else t))
    \<and> (\<forall>i. i \<notin> snd ` set zs \<longrightarrow> task_doc w' i = task_doc w i)
    \<and> find_row yj_ID j (w_ytJobs w') = map_option (\<lambda>r. if n = 0 then r else
         r\<lparr>yj_FailedCount := yj_FailedCount r - int n, yj_PendingCount := yj_PendingCount r + int n,
           yj_Status := (if finished_status st then StatusPending else yj_Status r)\<rparr>)
         (find_row yj_ID j (w_ytJobs w))"
proof -
  have up: "redis_up (rx S)" using assms(1) by (simp add: svc_up_def)
  from yt_retry.scan_loop_spec [OF up assms(2) refl assms(3), of 0 fuel S 0] obtain w1 where r:
    "scan_loop fuel S (yt_job_key j) ''task:'' (reset_by unmarshal_yt reset_yt (requeue_yt S)) 0 w 0
      = Some (w1, n)"
    "\<And>i. w_redis w1 (''task:'' @ i) = (if i \<in> snd ` set zs
       then yt_retry.new_data (w_now w) (w_redis w (''task:'' @ i)) else w_redis w (''task:'' @ i))"
    using assms(4,5) by (auto simp: yt_retry_to_reset retryable_yt_def)
  have jobs: "w_ytJobs w1 = w_ytJobs w"
    by (rule scan_loop_frame [where P = w_ytJobs, OF _ _ r(1)])
      (auto simp: reset_by_cases requeue_yt_def getDownloadQueueName_def getMetadataQueueName_def
        split_beta split: option.splits if_splits)
  have docs: "task_doc w1 i = Some (if passing_failure t
        then t\<lparr>yt_Status := ''PENDING'', yt_IsDownloadFail := False, yt_ErrorMessage := [], yt_UpdatedAt := w_now w\<rparr>
        else t)"
    if mem: "i \<in> snd ` set zs" and doc: "task_doc w i = Some t" for i t
  proof -
    obtain v where v: "str_of (w_redis w (''task:'' @ i)) = Some v" "unmarshal_yt v = Some t"
      using doc by (auto simp: task_doc_def bind_eq_Some_conv)
    then show ?thesis
      using mem r(2) [of i]
      by (auto simp: task_doc_def yt_retry.new_data_def rst_yt_def str_of_def reset_yt_passing split: option.splits)
  qed
  have other: "task_doc w1 i = task_doc w i" if "i \<notin> snd ` set zs" for i
    using that r(2) [of i] by (simp add: task_doc_def)
  define w' where "w' = (if n > 0
    then (let w2 = move_failed_yt S j n w1
          in if finished_status st then set_yt_status S j StatusPending w2 else w2) else w1)"
  have w': "RetryYoutubeTasksLogic fuel S j st w = Some w'"
    using r(1) by (simp add: RetryYoutubeTasksLogic_def w'_def)
  have redis: "task_doc w' = task_doc w1"
    by (rule ext) (simp add: w'_def task_doc_def Let_def move_failed_yt_def set_yt_status_def)
  have row: "find_row yj_ID j (w_ytJobs w') = map_option (\<lambda>r. if n = 0 then r else
         r\<lparr>yj_FailedCount := yj_FailedCount r - int n, yj_PendingCount := yj_PendingCount r + int n,
           yj_Status := (if finished_status st then StatusPending else yj_Status r)\<rparr>)
         (find_row yj_ID j (w_ytJobs w))"
    using find_row_SomeD [of yj_ID j "w_ytJobs w"]
    by (cases "find_row yj_ID j (w_ytJobs w)")
      (auto simp: w'_def Let_def move_failed_yt_def set_yt_status_def jobs svc_upD [OF assms(1)]
        find_row_update_where)
  show ?thesis using w' docs other redis row by auto
qed

definition wit_retry_world :: world where
  "wit_retry_world = world0\<lparr>w_redis := [yt_job_key 3 \<mapsto> RZ [(7, itoa 7)],
     ''task:'' @ itoa 7 \<mapsto> RS (YtDoc (YoutubeTask0\<lparr>yt_ID := 7, yt_JobID := 3, yt_Status := ''FAILED'',
       yt_IsDownloadFail := True\<rparr>))],
     w_ytJobs := [YoutubeJob0\<lparr>yj_ID := 3, yj_Status := ''COMPLETED'', yj_FailedCount := 1\<rparr>]\<rparr>"

theorem RetryYoutubeTasksLogic_resets_failed_witness:
  "\<exists>w'. RetryYoutubeTasksLogic 1 svc_ref 3 ''COMPLETED'' wit_retry_world = Some w'
    \<and> find_row yj_ID 3 (w_ytJobs w') = Some (YoutubeJob0\<lparr>yj_ID := 3, yj_Status := ''PENDING'',
        yj_FailedCount := 0, yj_PendingCount := 1\<rparr>)"
proof -
  have z: "zs_of (w_redis wit_retry_world (yt_job_key 3)) = Some [(7, itoa 7)]"
    by (simp add: wit_retry_world_def zs_of_def key_defs)
  have n: "1 = length (retryable_yt wit_retry_world [(7, itoa 7)])"
    by (simp add: retryable_yt_def task_doc_def wit_retry_world_def str_of_def passing_failure_def
        YoutubeTask0_def)
  have job: "find_row yj_ID 3 (w_ytJobs wit_retry_world) =
      Some (YoutubeJob0\<lparr>yj_ID := 3, yj_Status := ''COMPLETED'', yj_FailedCount := 1\<rparr>)"
    by (simp add: wit_retry_world_def)
  from RetryYoutubeTasksLogic_resets_failed [OF svc_up_ref z _ _ n, of 1 "''COMPLETED''"] job
  show ?thesis by (auto simp: finished_status_def YoutubeJob0_def)
qed

text \<open>The monitor for stuck tasks goes by the time of creation: a task that waited for three hours and was started
a moment ago is taken from its worker.\<close>

lemma just_started_is_stuck:
  assumes "yt_Status t = ''RUNNING''" "yt_StartedAt t = w_now w" "w_now w - yt_CreatedAt t > three_hours"
  shows "unstick_one S k (YtDoc t) w \<noteq> None"
  using assms by (simp add: unstick_one_def split_beta Let_def)

end
