(* ===== verification/TransferRetryFacts.thy ===== *)
theory TransferRetryFacts
  imports TaskScanFacts
begin

text \<open>
  The retry of transfer jobs: what the groups and buckets of a sharded job add up to, and the
  properties of both variants.
\<close>

section \<open>Groups and buckets\<close>

abbreviation tx_doc_key :: "int \<Rightarrow> string \<Rightarrow> string" where
  "tx_doc_key j i \<equiv> shard_prefix j @ i"

lemma batches_map: "batches n (map f xs) = map (map f) (batches n xs)"
proof (induction n xs rule: batches.induct)
  case (2 n x xs)
  show ?case
  proof (cases "n = 0")
    case False
    have "batches n (map f (x # xs)) =
        take n (map f (x # xs)) # batches n (drop n (map f (x # xs)))"
      using False by (simp only: list.map batches.simps if_False)
    also have "\<dots> = map f (take n (x # xs)) # map (map f) (batches n (drop n (x # xs)))"
      unfolding take_map drop_map "2" [OF False] ..
    finally show ?thesis using False by simp
  qed simp
qed simp

lemma batches_nonempty: "xs \<noteq> [] \<Longrightarrow> batches n xs \<noteq> []"
  by (cases xs) auto

lemma shard_batch:
  assumes "redis_up (rx S)" "distinct ids"
  shows "\<exists>w'. reset_batch S (tx_reset_one S j) (map (tx_doc_key j) ids)
      (map (\<lambda>i. str_of (w_redis w (tx_doc_key j i))) ids) w
        = (w', length (filter (tx_sharded_retry.to_reset j (w_now w) (w_redis w)) ids))
    \<and> w_now w' = w_now w \<and> (\<forall>b. w_redis w' (tx_bucket_key j b) = w_redis w (tx_bucket_key j b))
    \<and> (\<forall>i. w_redis w' (tx_doc_key j i) =
         (if i \<in> set ids then tx_sharded_retry.new_data (w_now w) (w_redis w (tx_doc_key j i))
          else w_redis w (tx_doc_key j i)))"
proof -
  obtain w' n where r: "reset_batch S (tx_reset_one S j) (map (tx_doc_key j) ids)
      (map (\<lambda>i. str_of (w_redis w (tx_doc_key j i))) ids) w = (w', n)" by fastforce
  note spec = tx_sharded_retry.reset_batch_spec [OF assms, of S j w]
  have "w_redis w' (tx_bucket_key j b) = w_redis w (tx_bucket_key j b)" for b
    using spec [of b] r by auto
  then show ?thesis using spec [of 0] r by auto
qed

lemma reset_groups_spec:
  assumes "redis_up (rx S)" "distinct (concat gs)"
  shows "\<exists>w'. reset_groups S (tx_reset_one S j) (map (map (tx_doc_key j)) gs) (w, n)
        = (w', n + length (filter (tx_sharded_retry.to_reset j (w_now w) (w_redis w)) (concat gs)))
    \<and> w_now w' = w_now w \<and> (\<forall>b. w_redis w' (tx_bucket_key j b) = w_redis w (tx_bucket_key j b))
    \<and> (\<forall>i. w_redis w' (tx_doc_key j i) =
         (if i \<in> set (concat gs) then tx_sharded_retry.new_data (w_now w) (w_redis w (tx_doc_key j i))
          else w_redis w (tx_doc_key j i)))"
  using assms(2)
proof (induction gs arbitrary: w n)
  case (Cons g gs)
  have d: "distinct g" "distinct (concat gs)" "set g \<inter> set (concat gs) = {}"
    using Cons.prems by auto
  from shard_batch [OF assms(1) d(1), of j w] obtain w1 where w1:
    "reset_batch S (tx_reset_one S j) (map (tx_doc_key j) g)
      (map (\<lambda>i. str_of (w_redis w (tx_doc_key j i))) g) w
        = (w1, length (filter (tx_sharded_retry.to_reset j (w_now w) (w_redis w)) g))"
    "w_now w1 = w_now w" "\<And>b. w_redis w1 (tx_bucket_key j b) = w_redis w (tx_bucket_key j b)"
    "\<And>i. w_redis w1 (tx_doc_key j i) =
       (if i \<in> set g then tx_sharded_retry.new_data (w_now w) (w_redis w (tx_doc_key j i))
        else w_redis w (tx_doc_key j i))" by blast
  have same: "filter (tx_sharded_retry.to_reset j (w_now w1) (w_redis w1)) (concat gs)
      = filter (tx_sharded_retry.to_reset j (w_now w) (w_redis w)) (concat gs)"
    using d(3) w1(2,4) by (intro filter_cong) (auto simp: tx_sharded_retry.to_reset_def)
  from Cons.IH [OF d(2), of w1 "n + length (filter (tx_sharded_retry.to_reset j (w_now w) (w_redis w)) g)"]
  obtain w2 where w2: "reset_groups S (tx_reset_one S j) (map (map (tx_doc_key j)) gs)
        (w1, n + length (filter (tx_sharded_retry.to_reset j (w_now w) (w_redis w)) g))
      = (w2, n + length (filter (tx_sharded_retry.to_reset j (w_now w) (w_redis w)) (concat (g # gs))))"
    "w_now w2 = w_now w" "\<And>b. w_redis w2 (tx_bucket_key j b) = w_redis w (tx_bucket_key j b)"
    "\<And>i. w_redis w2 (tx_doc_key j i) =
       (if i \<in> set (concat gs) then tx_sharded_retry.new_data (w_now w) (w_redis w1 (tx_doc_key j i))
        else w_redis w1 (tx_doc_key j i))"
    unfolding same by (auto simp: w1(2,3) add.assoc)
  have step: "reset_groups S (tx_reset_one S j) (map (map (tx_doc_key j)) (g # gs)) (w, n) =
      reset_groups S (tx_reset_one S j) (map (map (tx_doc_key j)) gs)
        (w1, n + length (filter (tx_sharded_retry.to_reset j (w_now w) (w_redis w)) g))"
    using w1(1) by (simp add: redis_do_up [OF assms(1)] comp_def)
  have "w_redis w2 (tx_doc_key j i) =
       (if i \<in> set (concat (g # gs)) then tx_sharded_retry.new_data (w_now w) (w_redis w (tx_doc_key j i))
        else w_redis w (tx_doc_key j i))" for i
    using d(3) unfolding w2(4) w1(4) by auto
  then show ?case unfolding step using w2(1-3) by blast
qed auto

text \<open>The members of the buckets \<open>bs\<close>, in order.\<close>

definition bucket_ids :: "int \<Rightarrow> redis_db \<Rightarrow> nat list \<Rightarrow> string list" where
  "bucket_ids j db bs = concat (map (\<lambda>b. map snd (the (zs_of (db (tx_bucket_key j (int b)))))) bs)"

lemma bucket_ids_Cons:
  "bucket_ids j db (b # bs) =
     map snd (the (zs_of (db (tx_bucket_key j (int b))))) @ bucket_ids j db bs"
  by (simp add: bucket_ids_def)

lemma bucket_ids_cong:
  "(\<And>b. db' (tx_bucket_key j b) = db (tx_bucket_key j b)) \<Longrightarrow> bucket_ids j db' bs = bucket_ids j db bs"
  by (simp add: bucket_ids_def)

lemma z_slice_all: "z_slice 0 (- 1) xs = xs"
  by (simp add: z_slice_def z_index_def Let_def)

definition buckets_typed :: "int \<Rightarrow> redis_db \<Rightarrow> bool" where
  "buckets_typed j db = (\<forall>b. zs_of (db (tx_bucket_key j b)) \<noteq> None)"

lemma reset_buckets_spec:
  assumes "redis_up (rx S)" "buckets_typed j (w_redis w)"
    and "distinct (bucket_ids j (w_redis w) bs)"
    and "0 \<notin> set bs \<or> zs_of (w_redis w (tx_bucket_key j 0)) \<noteq> Some []"
  shows "\<exists>w'. reset_buckets S j bs (w, n)
      = (w', n + length (filter (tx_sharded_retry.to_reset j (w_now w) (w_redis w))
                           (bucket_ids j (w_redis w) bs)))
    \<and> w_now w' = w_now w
    \<and> (\<forall>i. w_redis w' (tx_doc_key j i) =
         (if i \<in> set (bucket_ids j (w_redis w) bs)
          then tx_sharded_retry.new_data (w_now w) (w_redis w (tx_doc_key j i))
          else w_redis w (tx_doc_key j i)))"
  using assms(2-4)
proof (induction bs arbitrary: w n)
  case Nil
  then show ?case by (auto simp: bucket_ids_def)
next
  case (Cons b bs)
  obtain zs where zs: "zs_of (w_redis w (tx_bucket_key j (int b))) = Some zs"
    using Cons.prems(1) by (auto simp: buckets_typed_def)
  let ?ids = "map snd zs"
  have ids: "bucket_ids j (w_redis w) (b # bs) = ?ids @ bucket_ids j (w_redis w) bs"
    by (simp add: bucket_ids_Cons zs)
  have d: "distinct ?ids" "distinct (bucket_ids j (w_redis w) bs)"
    "set ?ids \<inter> set (bucket_ids j (w_redis w) bs) = {}" using Cons.prems(2) unfolding ids by auto
  have zr: "redis_do S (ZRANGE (tx_bucket_key j (int b)) 0 (- 1)) w = (w, RArr ?ids)"
    by (simp add: redis_do_up [OF assms(1)] zs z_slice_all)
  show ?case
  proof (cases zs)
    case Nil
    then have "b \<noteq> 0" using Cons.prems(3) zs by (cases "b = 0") auto
    with Nil zr Cons.IH [OF Cons.prems(1) d(2)] Cons.prems(3) ids show ?thesis by simp
  next
    case (Cons z zs')
    define gs where "gs = batches 500 ?ids"
    have gs: "concat gs = ?ids" "batches 500 (map (tx_doc_key j) ?ids) = map (map (tx_doc_key j)) gs"
      unfolding gs_def by (rule concat_batches, rule batches_map)
    have "reset_buckets S j (b # bs) (w, n) = reset_buckets S j bs
        (reset_groups S (tx_reset_one S j) (batches 500 (map (tx_doc_key j) ?ids)) (w, n))"
      using zr Cons by (simp add: shard_prefix_def del: batches.simps)
    note unfolded_step = this [unfolded gs(2)]
    have "distinct (concat gs)" using d(1) by (simp add: gs(1))
    from reset_groups_spec [OF assms(1) this, of j w n, unfolded gs(1)] obtain w1 where w1:
      "reset_groups S (tx_reset_one S j) (map (map (tx_doc_key j)) gs) (w, n)
        = (w1, n + length (filter (tx_sharded_retry.to_reset j (w_now w) (w_redis w)) ?ids))"
      "w_now w1 = w_now w" "\<And>b. w_redis w1 (tx_bucket_key j b) = w_redis w (tx_bucket_key j b)"
      "\<And>i. w_redis w1 (tx_doc_key j i) =
        (if i \<in> set ?ids then tx_sharded_retry.new_data (w_now w) (w_redis w (tx_doc_key j i))
         else w_redis w (tx_doc_key j i))" by blast
    have bi: "bucket_ids j (w_redis w1) bs = bucket_ids j (w_redis w) bs"
      by (rule bucket_ids_cong) (rule w1(3))
    have step: "reset_buckets S j (b # bs) (w, n) = reset_buckets S j bs
        (w1, n + length (filter (tx_sharded_retry.to_reset j (w_now w) (w_redis w)) ?ids))"
      unfolding unfolded_step w1(1) ..
    have same: "filter (tx_sharded_retry.to_reset j (w_now w) (w_redis w1)) (bucket_ids j (w_redis w) bs)
      = filter (tx_sharded_retry.to_reset j (w_now w) (w_redis w)) (bucket_ids j (w_redis w) bs)"
      using d(3) w1(2,4) by (intro filter_cong) (auto simp: tx_sharded_retry.to_reset_def)
    have "buckets_typed j (w_redis w1)" using Cons.prems(1) by (simp add: buckets_typed_def w1(3))
    define m where "m = n + length (filter (tx_sharded_retry.to_reset j (w_now w) (w_redis w)) ?ids)"
    have total: "m + length (filter (tx_sharded_retry.to_reset j (w_now w) (w_redis w))
        (bucket_ids j (w_redis w) bs)) = n + length (filter (tx_sharded_retry.to_reset j (w_now w)
        (w_redis w)) (bucket_ids j (w_redis w) (b # bs)))"
      by (simp add: ids m_def)
    have "0 \<notin> set bs \<or> zs_of (w_redis w1 (tx_bucket_key j 0)) \<noteq> Some []"
      using Cons.prems(3) by (auto simp: w1(3))
    from Cons.IH [of w1 m, unfolded bi w1(2) same] \<open>buckets_typed j (w_redis w1)\<close> d(2) this
    obtain w2 where w2: "reset_buckets S j bs (w1, m)
       = (w2, n + length (filter (tx_sharded_retry.to_reset j (w_now w) (w_redis w))
                           (bucket_ids j (w_redis w) (b # bs))))"
      "w_now w2 = w_now w"
      "\<And>i. w_redis w2 (tx_doc_key j i) = (if i \<in> set (bucket_ids j (w_redis w) bs)
          then tx_sharded_retry.new_data (w_now w) (w_redis w1 (tx_doc_key j i))
          else w_redis w1 (tx_doc_key j i))"
      unfolding total by blast
    have "w_redis w2 (tx_doc_key j i) =
        (if i \<in> set (bucket_ids j (w_redis w) (b # bs))
         then tx_sharded_retry.new_data (w_now w) (w_redis w (tx_doc_key j i))
         else w_redis w (tx_doc_key j i))" for i
      using d(3) unfolding w2(3) w1(4) ids by auto
    then show ?thesis unfolding step m_def [symmetric] using w2(1,2) by blast
  qed
qed

section \<open>Properties\<close>

definition tx_doc :: "world \<Rightarrow> string \<Rightarrow> transfer_task option" where
  "tx_doc w k = Option.bind (str_of (w_redis w k)) unmarshal_tx"

text \<open>
  What a retry is to do, apart from the code: a failed task starts again as if it had never run,
  every other task is left alone.
\<close>

definition retried_doc :: "time \<Rightarrow> transfer_task \<Rightarrow> transfer_task" where
  "retried_doc now t =
     (if tt_Status t = ''FAILED''
      then t\<lparr>tt_Status := ''PENDING'', tt_UpdatedAt := now, tt_ErrorMessage := [], tt_WorkerID := [],
             tt_StartedAt := 0, tt_CompletedAt := 0, tt_RetryCount := 0, tt_LastRetryTime := []\<rparr>
      else t)"

definition failed_ids :: "world \<Rightarrow> string \<Rightarrow> string list \<Rightarrow> string list" where
  "failed_ids w prefix ids = filter (\<lambda>i. case tx_doc w (prefix @ i) of
       None \<Rightarrow> False | Some t \<Rightarrow> tt_Status t = ''FAILED'') ids"

lemma tx_to_reset:
  "length (filter (task_reset.to_reset p rst_tx (w_now w) (w_redis w)) ids) = length (failed_ids w p ids)"
  if "task_reset jk p one rst_tx" for jk p one
  unfolding failed_ids_def
  by (rule arg_cong [where f = length], rule filter_cong)
    (auto simp: task_reset.to_reset_def [OF that] tx_doc_def rst_tx_def
      resetFailedTaskForRetry_def split: option.split bind_splits)

lemma tx_new_doc:
  assumes "task_reset jk p one rst_tx"
    and "\<And>i. w_redis w' (p @ i) = (if i \<in> A then task_reset.new_data rst_tx (w_now w) (w_redis w (p @ i))
           else w_redis w (p @ i))"
  shows "tx_doc w' (p @ i) = (if i \<in> A then map_option (retried_doc (w_now w)) (tx_doc w (p @ i))
           else tx_doc w (p @ i))"
proof (cases "w_redis w (p @ i)")
  case None
  then show ?thesis using assms(2) [of i]
    by (simp add: tx_doc_def task_reset.new_data_def [OF assms(1)] str_of_def)
next
  case (Some d)
  then show ?thesis using assms(2) [of i]
    by (cases d) (auto simp: tx_doc_def task_reset.new_data_def [OF assms(1)] str_of_def rst_tx_def
        retried_doc_def resetFailedTaskForRetry_def split: option.splits bind_splits if_splits)
qed

lemma finish_tx_retry_docs:
  assumes "redis_up (rx S)"
  shows "tx_doc (finish_tx_retry S j st w n) (''tx:task:'' @ x) = tx_doc w (''tx:task:'' @ x)"
  by (simp add: finish_tx_retry_def Let_def redis_set_def redis_do_up [OF assms] set_tx_status_def
      tx_doc_def key_defs)

lemma finish_tx_retry_job:
  assumes "svc_up S" "n > 0" "w' = finish_tx_retry S j st w n"
  shows "w_redis w' (tx_offset_key j) = Some (RS (Num 0))"
    and "finished_status st \<or> st = StatusPhasedCompleted \<Longrightarrow> r \<in> set (w_txJobs w') \<Longrightarrow>
      tj_JobID r = j \<Longrightarrow> tj_Status r = StatusPending"
proof -
  have up: "redis_up (rx S)" using assms(1) by (simp add: svc_up_def)
  note db = svc_upD(2) [OF assms(1)]
  show "w_redis w' (tx_offset_key j) = Some (RS (Num 0))"
    using assms(2) by (simp add: assms(3) finish_tx_retry_def Let_def redis_set_def
        redis_do_up [OF up] set_tx_status_def)
  assume f: "finished_status st \<or> st = StatusPhasedCompleted" and r: "r \<in> set (w_txJobs w')" "tj_JobID r = j"
  have rows: "w_txJobs w' = update_where (\<lambda>j'. tj_JobID j' = j) (\<lambda>j. j\<lparr>tj_Status := StatusPending\<rparr>) (w_txJobs w)"
    using assms(2) f by (simp add: assms(3) finish_tx_retry_def Let_def redis_set_def
        redis_do_up [OF up] set_tx_status_def db)
  from update_where_mem [OF r(1) [unfolded rows]] obtain r0 where
    "r = (if tj_JobID r0 = j then r0\<lparr>tj_Status := StatusPending\<rparr> else r0)" by (elim bexE)
  with r(2) show "tj_Status r = StatusPending" by (cases "tj_JobID r0 = j") simp_all
qed

text \<open>C14: The retry of a legacy transfer job returns; every task of the job whose status is FAILED
is PENDING, without worker, error, times and retries, every other document is as it was, and when
some task was reset the job's read offset is back at zero and a finished job is PENDING again.\<close>

theorem retry_legacy_transfer_job:
  assumes "svc_up S" "w_jobShardingMode w j = Some False"
    and "zs_of (w_redis w (tx_job_key j)) = Some zs" "distinct (map snd zs)"
    and "length zs < fuel * ScanBatch"
  shows "\<exists>w'. RetryTransferTasksLogic fuel S j st w = Some w'
    \<and> (\<forall>i. tx_doc w' (''tx:task:'' @ i) =
         (if i \<in> snd ` set zs then map_option (retried_doc (w_now w)) (tx_doc w (''tx:task:'' @ i))
          else tx_doc w (''tx:task:'' @ i)))
    \<and> (failed_ids w ''tx:task:'' (map snd zs) \<noteq> [] \<longrightarrow> w_redis w' (tx_offset_key j) = Some (RS (Num 0))
        \<and> (finished_status st \<or> st = StatusPhasedCompleted \<longrightarrow>
             (\<forall>r \<in> set (w_txJobs w'). tj_JobID r = j \<longrightarrow> tj_Status r = StatusPending)))"
proof -
  have up: "redis_up (rx S)" using assms(1) by (simp add: svc_up_def)
  define n where "n = length (failed_ids w ''tx:task:'' (map snd zs))"
  note spec = tx_retry.scan_loop_spec [OF up assms(3) refl assms(4), of 0 fuel S 0,
      unfolded mult_0 drop_0 tx_to_reset [OF tx_retry.task_reset_axioms]]
  from spec obtain w1 where r:
    "scan_loop fuel S (tx_job_key j) ''tx:task:'' (tx_reset_one S j) 0 w 0 = Some (w1, n)"
    "\<And>i. w_redis w1 (''tx:task:'' @ i) = (if i \<in> snd ` set zs
       then tx_retry.new_data (w_now w) (w_redis w (''tx:task:'' @ i)) else w_redis w (''tx:task:'' @ i))"
    using assms(5) by (auto simp: n_def)
  define w' where "w' = finish_tx_retry S j st w1 n"
  have "RetryTransferTasksLogic fuel S j st w = Some w'"
    using r(1) assms(2)
    by (simp add: RetryTransferTasksLogic_def isJobSharded_def retryLegacyTransferTasks_def w'_def)
  moreover have "tx_doc w' (''tx:task:'' @ i) =
         (if i \<in> snd ` set zs then map_option (retried_doc (w_now w)) (tx_doc w (''tx:task:'' @ i))
          else tx_doc w (''tx:task:'' @ i))" for i
    using tx_new_doc [OF tx_retry.task_reset_axioms r(2), of i]
    by (simp only: w'_def finish_tx_retry_docs [OF up])
  moreover have "n > 0" if "failed_ids w ''tx:task:'' (map snd zs) \<noteq> []"
    using that by (simp add: n_def)
  ultimately show ?thesis
    using finish_tx_retry_job [OF assms(1) _ w'_def] by blast
qed

definition wit_tx_failed :: transfer_task where
  "wit_tx_failed = TransferTask0\<lparr>tt_ID := 7, tt_JobID := 3, tt_Status := ''FAILED'', tt_RetryCount := 2\<rparr>"

definition wit_tx_running :: transfer_task where
  "wit_tx_running = TransferTask0\<lparr>tt_ID := 8, tt_JobID := 3, tt_Status := ''RUNNING''\<rparr>"

definition wit_legacy_world :: world where
  "wit_legacy_world = world0\<lparr>w_redis := [tx_job_key 3 \<mapsto> RZ [(7, itoa 7), (8, itoa 8)],
     ''tx:task:'' @ itoa 7 \<mapsto> RS (TxDoc wit_tx_failed),
     ''tx:task:'' @ itoa 8 \<mapsto> RS (TxDoc wit_tx_running)],
     w_jobShardingMode := [3 \<mapsto> False]\<rparr>"

theorem retry_legacy_transfer_job_witness:
  "\<exists>w'. RetryTransferTasksLogic 1 svc_ref 3 ''COMPLETED'' wit_legacy_world = Some w'
    \<and> tx_doc w' (''tx:task:'' @ itoa 7) = Some (wit_tx_failed\<lparr>tt_Status := ''PENDING'',
        tt_UpdatedAt := 1, tt_RetryCount := 0\<rparr>)
    \<and> tx_doc w' (''tx:task:'' @ itoa 8) = Some wit_tx_running
    \<and> w_redis w' (tx_offset_key 3) = Some (RS (Num 0))"
proof -
  have z: "zs_of (w_redis wit_legacy_world (tx_job_key 3)) = Some [(7, itoa 7), (8, itoa 8)]"
    by (simp add: wit_legacy_world_def zs_of_def key_defs)
  have m: "w_jobShardingMode wit_legacy_world 3 = Some False" "w_now wit_legacy_world = 1"
    by (simp_all add: wit_legacy_world_def world0_def)
  have d: "tx_doc wit_legacy_world (''tx:task:'' @ itoa 7) = Some wit_tx_failed"
    "tx_doc wit_legacy_world (''tx:task:'' @ itoa 8) = Some wit_tx_running"
    by (simp_all add: tx_doc_def wit_legacy_world_def str_of_def)
  have f: "failed_ids wit_legacy_world ''tx:task:'' (map snd [(7::int, itoa 7), (8, itoa 8)]) \<noteq> []"
    using d by (simp add: failed_ids_def wit_tx_failed_def)
  obtain w' where w': "RetryTransferTasksLogic 1 svc_ref 3 ''COMPLETED'' wit_legacy_world = Some w'"
    "\<And>i. tx_doc w' (''tx:task:'' @ i) =
       (if i \<in> snd ` set [(7::int, itoa 7), (8, itoa 8)]
        then map_option (retried_doc (w_now wit_legacy_world)) (tx_doc wit_legacy_world (''tx:task:'' @ i))
        else tx_doc wit_legacy_world (''tx:task:'' @ i))"
    "w_redis w' (tx_offset_key 3) = Some (RS (Num 0))"
    using retry_legacy_transfer_job [OF svc_up_ref m(1) z, of 1 "''COMPLETED''"] f by auto
  have "tx_doc w' (''tx:task:'' @ itoa 7) = Some (wit_tx_failed\<lparr>tt_Status := ''PENDING'',
        tt_UpdatedAt := 1, tt_RetryCount := 0\<rparr>)"
    using d m(2) by (subst w'(2)) (simp add: retried_doc_def
        wit_tx_failed_def TransferTask0_def)
  moreover have "tx_doc w' (''tx:task:'' @ itoa 8) = Some wit_tx_running"
    using d by (subst w'(2)) (simp add: retried_doc_def wit_tx_running_def)
  ultimately show ?thesis using w' by blast
qed

text \<open>
  What the retry of a sharded job reads: its first two hundred buckets, or nothing at all when the
  first bucket is empty.
\<close>

definition retried_ids :: "int \<Rightarrow> redis_db \<Rightarrow> string list" where
  "retried_ids j db =
     (if zs_of (db (tx_bucket_key j 0)) = Some [] then [] else bucket_ids j db [0..<RetryBuckets])"

lemma reset_all_buckets:
  assumes "redis_up (rx S)" "buckets_typed j (w_redis w)" "distinct (retried_ids j (w_redis w))"
  shows "\<exists>w'. reset_buckets S j [0..<RetryBuckets] (w, 0)
      = (w', length (failed_ids w (shard_prefix j) (retried_ids j (w_redis w))))
    \<and> (\<forall>i. w_redis w' (tx_doc_key j i) =
         (if i \<in> set (retried_ids j (w_redis w))
          then tx_sharded_retry.new_data (w_now w) (w_redis w (tx_doc_key j i))
          else w_redis w (tx_doc_key j i)))"
proof (cases "zs_of (w_redis w (tx_bucket_key j 0)) = Some []")
  case True
  have "redis_do S (ZRANGE (tx_bucket_key j 0) 0 (- 1)) w = (w, RArr [])"
    by (simp add: redis_do_up [OF assms(1)] True z_slice_all)
  moreover have "[0..<RetryBuckets] = 0 # [1..<RetryBuckets]" by (subst upt_conv_Cons) simp_all
  ultimately have "reset_buckets S j [0..<RetryBuckets] (w, 0) = (w, 0)" by simp
  with True show ?thesis by (simp add: retried_ids_def failed_ids_def)
next
  case False
  then have ids: "retried_ids j (w_redis w) = bucket_ids j (w_redis w) [0..<RetryBuckets]"
    by (simp add: retried_ids_def)
  from reset_buckets_spec [OF assms(1,2) assms(3) [unfolded ids], of 0] False show ?thesis
    unfolding tx_to_reset [OF tx_sharded_retry.task_reset_axioms] ids by auto
qed

text \<open>C15: The retry of a sharded transfer job resets in the same way the failed tasks of its first
two hundred buckets (ten million tasks), or none when its first bucket is empty; every other
document of the job is as it was.\<close>

theorem retry_sharded_transfer_job:
  assumes "svc_up S" "w_jobShardingMode w j = Some True" "buckets_typed j (w_redis w)"
    and "distinct (retried_ids j (w_redis w))"
  shows "\<exists>w'. RetryTransferTasksLogic fuel S j st w = Some w'
    \<and> (\<forall>i. tx_doc w' (shard_prefix j @ i) =
         (if i \<in> set (retried_ids j (w_redis w))
          then map_option (retried_doc (w_now w)) (tx_doc w (shard_prefix j @ i))
          else tx_doc w (shard_prefix j @ i)))
    \<and> (failed_ids w (shard_prefix j) (retried_ids j (w_redis w)) \<noteq> []
       \<longrightarrow> w_redis w' (tx_offset_key j) = Some (RS (Num 0))
        \<and> (finished_status st \<or> st = StatusPhasedCompleted \<longrightarrow>
             (\<forall>r \<in> set (w_txJobs w'). tj_JobID r = j \<longrightarrow> tj_Status r = StatusPending)))"
proof -
  have up: "redis_up (rx S)" using assms(1) by (simp add: svc_up_def)
  let ?ids = "retried_ids j (w_redis w)"
  define n where "n = length (failed_ids w (shard_prefix j) ?ids)"
  from reset_all_buckets [OF up assms(3,4)]
  obtain w1 where r: "reset_buckets S j [0..<RetryBuckets] (w, 0) = (w1, n)"
    "\<And>i. w_redis w1 (shard_prefix j @ i) = (if i \<in> set ?ids
       then tx_sharded_retry.new_data (w_now w) (w_redis w (shard_prefix j @ i))
       else w_redis w (shard_prefix j @ i))"
    unfolding n_def by auto
  define w' where "w' = finish_tx_retry S j st w1 n"
  have "RetryTransferTasksLogic fuel S j st w = Some w'"
    using r(1) assms(2)
    by (simp add: RetryTransferTasksLogic_def isJobSharded_def retryShardedTransferTasks_def w'_def)
  moreover have "tx_doc w' (shard_prefix j @ i) =
         (if i \<in> set ?ids then map_option (retried_doc (w_now w)) (tx_doc w (shard_prefix j @ i))
          else tx_doc w (shard_prefix j @ i))" for i
    using tx_new_doc [OF tx_sharded_retry.task_reset_axioms r(2), of i]
      finish_tx_retry_docs [OF up, of j st w1 n "itoa j @ '':'' @ i"]
    by (simp add: w'_def shard_prefix_def)
  moreover have "n > 0" if "failed_ids w (shard_prefix j) ?ids \<noteq> []"
    using that by (simp add: n_def)
  ultimately show ?thesis
    using finish_tx_retry_job [OF assms(1) _ w'_def] by blast
qed

definition wit_sharded_world :: world where
  "wit_sharded_world = world0\<lparr>w_redis := [tx_bucket_key 3 0 \<mapsto> RZ [(7, itoa 7), (8, itoa 8)],
     tx_sharded_task_key 3 7 \<mapsto> RS (TxDoc wit_tx_failed),
     tx_sharded_task_key 3 8 \<mapsto> RS (TxDoc wit_tx_running)],
     w_jobShardingMode := [3 \<mapsto> True]\<rparr>"

theorem retry_sharded_transfer_job_witness:
  "\<exists>w'. RetryTransferTasksLogic 0 svc_ref 3 ''COMPLETED'' wit_sharded_world = Some w'
    \<and> tx_doc w' (shard_prefix 3 @ itoa 7) = Some (wit_tx_failed\<lparr>tt_Status := ''PENDING'',
        tt_UpdatedAt := 1, tt_RetryCount := 0\<rparr>)
    \<and> tx_doc w' (shard_prefix 3 @ itoa 8) = Some wit_tx_running
    \<and> w_redis w' (tx_offset_key 3) = Some (RS (Num 0))"
proof -
  have apart: "tx_bucket_key 3 b \<noteq> tx_sharded_task_key 3 i" for b i by (simp add: key_defs)
  have t: "buckets_typed 3 (w_redis wit_sharded_world)"
    using apart by (simp add: buckets_typed_def wit_sharded_world_def zs_of_def)
  have "bucket_ids 3 (w_redis wit_sharded_world) [1..<RetryBuckets] = []"
    using apart by (simp add: bucket_ids_def wit_sharded_world_def zs_of_def)
  moreover have "[0..<RetryBuckets] = 0 # [1..<RetryBuckets]" by (subst upt_conv_Cons) simp_all
  ultimately have ids: "retried_ids 3 (w_redis wit_sharded_world) = [itoa 7, itoa 8]"
    using apart by (simp add: retried_ids_def bucket_ids_Cons wit_sharded_world_def zs_of_def)
  have m: "w_jobShardingMode wit_sharded_world 3 = Some True" "w_now wit_sharded_world = 1"
    by (simp_all add: wit_sharded_world_def world0_def)
  have d: "tx_doc wit_sharded_world (shard_prefix 3 @ itoa 7) = Some wit_tx_failed"
    "tx_doc wit_sharded_world (shard_prefix 3 @ itoa 8) = Some wit_tx_running"
    by (simp_all add: tx_doc_def wit_sharded_world_def str_of_def shard_prefix_def key_defs)
  then have f: "failed_ids wit_sharded_world (shard_prefix 3) [itoa 7, itoa 8] \<noteq> []"
    by (simp add: failed_ids_def wit_tx_failed_def)
  from retry_sharded_transfer_job [OF svc_up_ref m(1) t, of 0 "''COMPLETED''"] f
  obtain w' where w': "RetryTransferTasksLogic 0 svc_ref 3 ''COMPLETED'' wit_sharded_world = Some w'"
    "\<And>i. tx_doc w' (shard_prefix 3 @ i) = (if i \<in> set [itoa 7, itoa 8]
       then map_option (retried_doc 1) (tx_doc wit_sharded_world (shard_prefix 3 @ i))
       else tx_doc wit_sharded_world (shard_prefix 3 @ i))"
    "w_redis w' (tx_offset_key 3) = Some (RS (Num 0))"
    by (auto simp: ids m(2))
  have "tx_doc w' (shard_prefix 3 @ itoa 7) = Some (wit_tx_failed\<lparr>tt_Status := ''PENDING'',
      tt_UpdatedAt := 1, tt_RetryCount := 0\<rparr>)"
    by (subst w'(2)) (simp add: d retried_doc_def wit_tx_failed_def TransferTask0_def)
  moreover have "tx_doc w' (shard_prefix 3 @ itoa 8) = Some wit_tx_running"
    by (subst w'(2)) (simp add: d retried_doc_def wit_tx_running_def)
  ultimately show ?thesis using w'(1,3) by blast
qed

end
