(* ===== verification/TransferTasks.thy ===== *)
theory TransferTasks
  imports TransferRetryFacts
begin

text \<open>
  The transfer half of \<^verbatim>\<open>task_handler.go\<close>: adding tasks to sharded and legacy jobs, the prefetch
  buffers of both kinds, the acquire endpoint with its per-job fairness, the batch update, and the
  reset of failed tasks. The Postgres table \<^verbatim>\<open>transfer_tasks\<close> mirrors the Redis documents; its
  primary key is the task identifier alone.
\<close>

section \<open>Job rows\<close>

definition loadAllTransferJobIDs :: "svc \<Rightarrow> world \<Rightarrow> int list option" where
  "loadAllTransferJobIDs S w =
     (if dbErr S ''transfer_jobs.pluck'' 0 then None else Some (map tj_JobID (w_txJobs w)))"

definition reopen_job :: "status list \<Rightarrow> status \<Rightarrow> transfer_job \<Rightarrow> transfer_job" where
  "reopen_job from to j =
     j\<lparr>tj_Status := (if tj_Status j \<in> set from then to else tj_Status j),
       tj_ConsecutiveIdleScans := 0, tj_EndTime := None, tj_DurationSeconds := 0\<rparr>"

definition reactivateTransferJobOnPendingWork :: "svc \<Rightarrow> int \<Rightarrow> world \<Rightarrow> world" where
  "reactivateTransferJobOnPendingWork S jobID w =
     (if dbErr S ''transfer_jobs.reactivate'' jobID then w
      else w\<lparr>w_txJobs := update_where (\<lambda>j. tj_JobID j = jobID)
               (reopen_job [StatusCompleted, StatusPhasedCompleted] StatusPending) (w_txJobs w)\<rparr>)"

definition promoteTransferJobToRunning :: "svc \<Rightarrow> int \<Rightarrow> world \<Rightarrow> world" where
  "promoteTransferJobToRunning S jobID w =
     (if dbErr S ''transfer_jobs.promote'' jobID then w
      else w\<lparr>w_txJobs := update_where (\<lambda>j. tj_JobID j = jobID)
               (reopen_job [StatusPending, StatusCompleted, StatusPhasedCompleted] StatusRunning)
               (w_txJobs w)\<rparr>)"

text \<open>\<^verbatim>\<open>Create\<close> fills the zero timestamps of a new row.\<close>

definition tx_created :: "time \<Rightarrow> transfer_task \<Rightarrow> transfer_task" where
  "tx_created now t =
     t\<lparr>tt_CreatedAt := (if tt_CreatedAt t = 0 then now else tt_CreatedAt t),
       tt_UpdatedAt := (if tt_UpdatedAt t = 0 then now else tt_UpdatedAt t)\<rparr>"

section \<open>Adding tasks\<close>

record tx_input =
  ti_Src :: string
  ti_Size :: int

fun dedup_inputs :: "string list \<Rightarrow> tx_input list \<Rightarrow> tx_input list" where
  "dedup_inputs seen [] = []"
| "dedup_inputs seen (x # xs) =
     (if ti_Src x \<in> set seen then dedup_inputs seen xs
      else x # dedup_inputs (ti_Src x # seen) xs)"

definition new_tx_tasks :: "time \<Rightarrow> int \<Rightarrow> int \<Rightarrow> tx_input list \<Rightarrow> transfer_task list" where
  "new_tx_tasks now jobID startID inputs =
     map (\<lambda>(i, x). TransferTask0
            \<lparr>tt_ID := startID + int i, tt_JobID := jobID, tt_Src := ti_Src x, tt_Size := ti_Size x,
             tt_Status := ''PENDING'', tt_CreatedAt := now, tt_UpdatedAt := now\<rparr>)
       (enumerate 0 inputs)"

text \<open>The inputs whose \<^verbatim>\<open>HExists\<close> did not answer true.\<close>

fun unseen_inputs :: "tx_input list \<Rightarrow> reply list \<Rightarrow> tx_input list" where
  "unseen_inputs (x # xs) (r # rs) =
     (if r = RInt 1 then unseen_inputs xs rs else x # unseen_inputs xs rs)"
| "unseen_inputs _ _ = []"

definition insert_tx_rows :: "svc \<Rightarrow> transfer_task list \<Rightarrow> world \<Rightarrow> world" where
  "insert_tx_rows S tasks w =
     w\<lparr>w_txTasks := fold (\<lambda>t rows. if dbErr S ''transfer_tasks.create'' (tt_ID t) then rows
                             else insert_do_nothing tt_ID t rows) tasks (w_txTasks w)\<rparr>"

definition total_input_bytes :: "tx_input list \<Rightarrow> int" where
  "total_input_bytes inputs = sum_list (map (\<lambda>x. if ti_Size x > 0 then ti_Size x else 0) inputs)"

definition count_added :: "svc \<Rightarrow> int \<Rightarrow> tx_input list \<Rightarrow> world \<Rightarrow> world" where
  "count_added S jobID inputs w =
     (if dbErr S ''transfer_jobs.count_added'' jobID then w
      else w\<lparr>w_txJobs := update_where (\<lambda>j. tj_JobID j = jobID)
         (\<lambda>j. j\<lparr>tj_TotalCount := tj_TotalCount j + int (length inputs),
                tj_PendingCount := tj_PendingCount j + int (length inputs),
                tj_TotalSizeBytes := tj_TotalSizeBytes j
                  + (if total_input_bytes inputs > 0 then total_input_bytes inputs else 0),
                tj_ConsecutiveIdleScans := 0,
                tj_Status := (if tj_Status j \<in> {StatusCompleted, StatusPhasedCompleted, StatusFailed}
                              then StatusPending else tj_Status j)\<rparr>) (w_txJobs w)\<rparr>)"

definition sharded_cmds :: "int \<Rightarrow> transfer_task list \<Rightarrow> redis_cmd list" where
  "sharded_cmds jobID tasks = concat (map (\<lambda>t.
     [SET (tx_sharded_task_key jobID (tt_ID t)) (TxDoc t),
      ZADD (getTaskBucketKey jobID (tt_ID t)) [(tt_ID t, itoa (tt_ID t))],
      HSET (getDedupShardKey jobID (tt_Src t)) (tt_Src t) (itoa (tt_ID t))]) tasks)"

text \<open>The result is the number of tasks added and whether the error is nil.\<close>

definition addShardedTransferTasks ::
  "svc \<Rightarrow> int \<Rightarrow> tx_input list \<Rightarrow> world \<Rightarrow> world \<times> nat \<times> bool" where
  "addShardedTransferTasks S jobID inputs w =
     (let (w1, rs) = redis_pipe S
            (map (\<lambda>x. HEXISTS (getDedupShardKey jobID (ti_Src x)) (ti_Src x)) inputs) w
      in if pipe_failed rs then (w1, 0, False)
         else (let newInputs = unseen_inputs inputs rs; n = length newInputs
               in if newInputs = [] then (w1, 0, True)
                  else (let (w2, r) = redis_do S (INCRBY (tx_max_id_key jobID) (int n)) w1
                        in case r of
                             RInt endID \<Rightarrow>
                               (let tasks = new_tx_tasks (w_now w) jobID (endID - int n + 1) newInputs;
                                    (w3, ps) = redis_pipe S (sharded_cmds jobID tasks) w2
                                in if pipe_failed ps then (w3, 0, False)
                                   else (count_added S jobID newInputs (insert_tx_rows S tasks w3),
                                         length tasks, True))
                           | _ \<Rightarrow> (w2, 0, False))))"

definition legacy_cmds :: "int \<Rightarrow> transfer_task list \<Rightarrow> redis_cmd list" where
  "legacy_cmds jobID tasks = concat (map (\<lambda>t.
     [SET (tx_task_key (tt_ID t)) (TxDoc t),
      ZADD (tx_job_key jobID) [(tt_ID t, itoa (tt_ID t))],
      HSET (tx_dedup_key jobID) (tt_Src t) (itoa (tt_ID t))]) tasks)"

definition addLegacyTransferTasks ::
  "svc \<Rightarrow> int \<Rightarrow> tx_input list \<Rightarrow> world \<Rightarrow> world \<times> nat \<times> bool" where
  "addLegacyTransferTasks S jobID inputs0 w =
     (if inputs0 = [] then (w, 0, True)
      else (let inputs = dedup_inputs [] inputs0;
                (w1, rs) = redis_pipe S (map (\<lambda>x. HEXISTS (tx_dedup_key jobID) (ti_Src x)) inputs) w
            in if pipe_failed rs then (w1, 0, False)
               else (let newInputs = unseen_inputs inputs rs
                     in if newInputs = [] then (w1, 0, True)
                        else (let (w2, r) = redis_do S (ZREVRANGE (tx_job_key jobID) 0 0) w1;
                                  tasks = new_tx_tasks (w_now w) jobID (next_task_id jobID r) newInputs;
                                  (w3, ps) = redis_pipe S (legacy_cmds jobID tasks) w2
                              in if pipe_failed ps then (w3, 0, False)
                                 else (count_added S jobID newInputs (insert_tx_rows S tasks w3),
                                       length tasks, True)))))"

definition AddTransferTasksToJob ::
  "svc \<Rightarrow> int \<Rightarrow> tx_input list \<Rightarrow> world \<Rightarrow> world \<times> nat \<times> bool" where
  "AddTransferTasksToJob S jobID inputs w =
     (if inputs = [] then (w, 0, True)
      else (let unique = dedup_inputs [] inputs; (w1, sharded) = isJobSharded S jobID w
            in if sharded then addShardedTransferTasks S jobID unique w1
               else addLegacyTransferTasks S jobID unique w1))"

section \<open>Buffers\<close>

definition get_tx_buffer :: "int \<Rightarrow> world \<Rightarrow> transfer_task list option" where
  "get_tx_buffer j w = map_of (w_txJobBuffers w) j"

definition set_tx_buffer :: "int \<Rightarrow> transfer_task list \<Rightarrow> world \<Rightarrow> world" where
  "set_tx_buffer j ch w = w\<lparr>w_txJobBuffers := aset j ch (w_txJobBuffers w)\<rparr>"

definition ensureTxBuffer :: "int \<Rightarrow> world \<Rightarrow> world" where
  "ensureTxBuffer jobID w =
     (if get_tx_buffer jobID w = None then set_tx_buffer jobID [] w else w)"

definition tx_fill_key :: "int \<Rightarrow> fill_key" where
  "tx_fill_key jobID = FillKey (''tx:'' @ itoa jobID)"

definition triggerTxRefill :: "int \<Rightarrow> world \<Rightarrow> world" where
  "triggerTxRefill jobID w =
     (if filling (tx_fill_key jobID) w then w
      else spawn (GoFillTx jobID) (store_filling (tx_fill_key jobID) w))"

definition fillLeagcyTxJobBuffer :: "svc \<Rightarrow> int \<Rightarrow> world \<Rightarrow> world" where
  "fillLeagcyTxJobBuffer S jobID =
     offset_fill S (tx_lock_key jobID) (tx_offset_key jobID) (tx_job_key jobID) ''tx:task:''
       TxFetchBatchSize unmarshal_tx tt_Status (get_tx_buffer jobID) (set_tx_buffer jobID)"

text \<open>
  The sharded fill. Its loop raises \<^verbatim>\<open>maxID\<close> to the item's identifier before it looks at the item,
  also for the item that finds the channel full.
\<close>

fun sharded_scan ::
  "string list \<Rightarrow> rstr option list \<Rightarrow> transfer_task list \<Rightarrow> nat \<Rightarrow> int
     \<Rightarrow> transfer_task list \<times> nat \<times> int" where
  "sharded_scan (i # ids) (item # items) ch processed maxID =
     (let maxID' = (if sscanf_d i > maxID then sscanf_d i else maxID)
      in case Option.bind item unmarshal_tx of
           None \<Rightarrow> sharded_scan ids items ch processed maxID'
         | Some t \<Rightarrow>
             if tt_Status t = ''PENDING'' then
               (if length ch < BufferSize
                then sharded_scan ids items (ch @ [t]) (Suc processed) maxID'
                else (ch, processed, maxID'))
             else sharded_scan ids items ch processed maxID')"
| "sharded_scan _ _ ch processed maxID = (ch, processed, maxID)"

definition writeback_cmds :: "int \<Rightarrow> transfer_task \<Rightarrow> redis_cmd list" where
  "writeback_cmds jobID t =
     [ZADD (getTaskBucketKey jobID (tt_ID t)) [(tt_ID t, itoa (tt_ID t))],
      SET (tx_sharded_task_key jobID (tt_ID t)) (TxDoc t)]"

text \<open>
  Redis holds nothing above the offset: the pending rows of the database are written back one
  command at a time (replies ignored) and their identifiers returned; \<open>None\<close> is the early return.
\<close>

definition writeback_pending ::
  "svc \<Rightarrow> int \<Rightarrow> int \<Rightarrow> int \<Rightarrow> world \<Rightarrow> world \<times> string list option" where
  "writeback_pending S jobID lastTaskID currentMaxID w =
     (if dbErr S ''transfer_tasks.pending'' jobID then (w, None)
      else (let rows = take (nat TxFetchBatchSize) (sort_key tt_ID
                  (filter (\<lambda>t. tt_JobID t = jobID \<and> tt_Status t = ''PENDING'') (w_txTasks w)))
            in if rows = [] then (w, None)
               else (let w1 = fold (redis_set S) (concat (map (writeback_cmds jobID) rows)) w;
                         maxID = fold (\<lambda>t m. max m (tt_ID t)) rows currentMaxID;
                         w2 = redis_set S (SET (tx_max_id_key jobID) (Num maxID)) w1;
                         w3 = redis_set S (SET (tx_offset_key jobID) (Num lastTaskID)) w2
                     in (w3, Some (map (\<lambda>t. itoa (tt_ID t)) rows)))))"

text \<open>The part from the list of identifiers on.\<close>

definition sharded_push :: "svc \<Rightarrow> int \<Rightarrow> int \<Rightarrow> string list \<Rightarrow> world \<Rightarrow> world" where
  "sharded_push S jobID lastTaskID ids w =
     (let (w1, m) = redis_do S
            (MGET (map (\<lambda>i. ''tx:task:'' @ itoa jobID @ '':'' @ i) ids)) w
      in case m of
           RVals items \<Rightarrow>
             (let w2 = ensureTxBuffer jobID w1
              in case get_tx_buffer jobID w2 of
                   None \<Rightarrow> w2
                 | Some ch \<Rightarrow>
                     (let (ch', processed, maxID) = sharded_scan ids items ch 0 0;
                          w3 = set_tx_buffer jobID ch' w2
                      in if processed > 0 \<or> maxID > lastTaskID then
                           (if maxID > 0 then redis_set S (SET (tx_offset_key jobID) (Num maxID)) w3
                            else if processed > 0
                            then redis_set S
                                   (SET (tx_offset_key jobID) (Num (lastTaskID + int processed))) w3
                            else w3)
                         else w3))
         | _ \<Rightarrow> w1)"

definition fillShardedTxBuffer :: "svc \<Rightarrow> int \<Rightarrow> world \<Rightarrow> world" where
  "fillShardedTxBuffer S jobID w =
     (let (w1, o1) = redis_do S (GET (tx_offset_key jobID)) w; last0 = scan_num o1;
          (w2, m) = redis_do S (GET (tx_max_id_key jobID)) w1; currentMaxID = scan_num m;
          (w3, lastTaskID) =
            (if last0 > currentMaxID \<and> currentMaxID > 0
             then (let newOffset = max 0 (currentMaxID - TxFetchBatchSize)
                   in (redis_set S (SET (tx_offset_key jobID) (Num newOffset)) w2, newOffset))
             else (w2, last0));
          startID = lastTaskID + 1;
          (w4, r) = redis_do S (ZRANGEBYSCORE (getTaskBucketKey jobID startID) startID
                                  (nat TxFetchBatchSize)) w3
      in case r of
           RArr ids \<Rightarrow>
             (let nextStartID = (go_div startID TaskBucketSize + 1) * TaskBucketSize;
                  (w5, ids') =
                    (if ids = []
                     then (let (w5, r') = redis_do S
                               (ZRANGEBYSCORE (getTaskBucketKey jobID nextStartID) nextStartID
                                  (nat TxFetchBatchSize)) w4
                           in (w5, case r' of RArr is \<Rightarrow> is | _ \<Rightarrow> []))
                     else (w4, ids))
              in if ids' = [] then
                   (case writeback_pending S jobID lastTaskID currentMaxID w5 of
                      (w6, None) \<Rightarrow> w6
                    | (w6, Some is) \<Rightarrow> sharded_push S jobID lastTaskID is w6)
                 else sharded_push S jobID lastTaskID ids' w5)
         | _ \<Rightarrow> w4)"

definition fillTxJobBuffer :: "svc \<Rightarrow> int \<Rightarrow> world \<Rightarrow> world" where
  "fillTxJobBuffer S jobID w =
     (let (w1, sharded) = isJobSharded S jobID w
      in if sharded then fillShardedTxBuffer S jobID w1 else fillLeagcyTxJobBuffer S jobID w1)"

text \<open>
  The ticker's pass: an empty buffer of a job that counts pending tasks, with its offset at or past
  the end and no RUNNING row, has its offset reset to zero.
\<close>

definition reset_stuck_offset :: "svc \<Rightarrow> int \<Rightarrow> world \<Rightarrow> world" where
  "reset_stuck_offset S jid w =
     (let (w1, sharded) = isJobSharded S jid w;
          (w2, total) =
            (if sharded then (let (w2, r) = redis_do S (GET (tx_max_id_key jid)) w1 in (w2, scan_num r))
             else (let (w2, r) = redis_do S (ZCARD (tx_job_key jid)) w1
                   in (w2, case r of RInt n \<Rightarrow> n | _ \<Rightarrow> 0)));
          (w3, o1) = redis_do S (GET (tx_offset_key jid)) w2; offset = scan_num o1
      in if total > 0 \<and> offset \<ge> total then
           (let running = (if dbErr S ''transfer_tasks.running'' jid then 0
                  else length (filter (\<lambda>t. tt_JobID t = jid \<and> tt_Status t = ''RUNNING'') (w_txTasks w3)))
            in if running > 0 then w3 else redis_set S (SET (tx_offset_key jid) (Num 0)) w3)
         else w3)"

definition check_refill_tx :: "svc \<Rightarrow> transfer_job \<Rightarrow> world \<Rightarrow> world" where
  "check_refill_tx S job w =
     (let jid = tj_JobID job; w1 = ensureTxBuffer jid w
      in case get_tx_buffer jid w1 of
           None \<Rightarrow> w1
         | Some ch \<Rightarrow>
             (let w2 = (if tj_PendingCount job > 0 \<and> ch = [] \<and> \<not> filling (tx_fill_key jid) w1
                        then reset_stuck_offset S jid w1 else w1)
              in if length ch < BufferLowWater then triggerTxRefill jid w2 else w2))"

definition active_tx_jobs :: "world \<Rightarrow> transfer_job list" where
  "active_tx_jobs w = filter (\<lambda>j. tj_Status j \<in> {StatusRunning, StatusPending}) (w_txJobs w)"

definition checkAndRefillTxBuffers :: "svc \<Rightarrow> world \<Rightarrow> world" where
  "checkAndRefillTxBuffers S w =
     (if dbErr S ''transfer_jobs.active'' 0 then w
      else fold (check_refill_tx S) (active_tx_jobs w) w)"

end
