(* ===== verification/TransferWork.thy ===== *)
theory TransferWork
  imports TransferTasks
begin

text \<open>
  The endpoints transfer workers call: acquiring tasks, reporting their state, listing the failed
  ones and resetting one of them.
\<close>

section \<open>Marking tasks running\<close>

definition running_task :: "time \<Rightarrow> string \<Rightarrow> transfer_task \<Rightarrow> transfer_task" where
  "running_task now workerID t =
     t\<lparr>tt_Status := ''RUNNING'', tt_WorkerID := workerID, tt_UpdatedAt := now,
       tt_StartedAt := (if tt_StartedAt t = 0 then now else tt_StartedAt t)\<rparr>"

definition running_row :: "transfer_task \<Rightarrow> transfer_task" where
  "running_row t = TransferTask0
     \<lparr>tt_ID := tt_ID t, tt_JobID := tt_JobID t, tt_Src := tt_Src t, tt_Size := tt_Size t,
      tt_Status := tt_Status t, tt_WorkerID := tt_WorkerID t, tt_StartedAt := tt_StartedAt t,
      tt_UpdatedAt := tt_UpdatedAt t\<rparr>"

definition upsert_running :: "time \<Rightarrow> transfer_task \<Rightarrow> transfer_task list \<Rightarrow> transfer_task list" where
  "upsert_running now t rows =
     upsert tt_ID (\<lambda>old new. old\<lparr>tt_Status := tt_Status new, tt_WorkerID := tt_WorkerID new,
                                 tt_StartedAt := tt_StartedAt new, tt_UpdatedAt := tt_UpdatedAt new\<rparr>)
       (tx_created now (running_row t)) rows"

text \<open>
  The loop changes the slice in place, queues the document and writes the row at once; a row that
  fails makes the function return, the pipeline unsent.
\<close>

fun mark_loop ::
  "svc \<Rightarrow> string \<Rightarrow> transfer_task list \<Rightarrow> world \<Rightarrow> redis_cmd list \<Rightarrow> transfer_task list
     \<Rightarrow> world \<times> (redis_cmd list \<times> transfer_task list) option" where
  "mark_loop S workerID [] w cmds done = (w, Some (cmds, done))"
| "mark_loop S workerID (t # ts) w cmds done =
     (if tt_Status t \<noteq> ''PENDING'' then mark_loop S workerID ts w cmds (done @ [t])
      else (let t' = running_task (w_now w) workerID t;
                (w1, k) = getTxTaskKey S (tt_JobID t') (tt_ID t') w
            in if dbErr S ''transfer_tasks.upsert'' (tt_ID t') then (w1, None)
               else mark_loop S workerID ts
                      (w1\<lparr>w_txTasks := upsert_running (w_now w) t' (w_txTasks w1)\<rparr>)
                      (cmds @ [SET k (TxDoc t')]) (done @ [t'])))"

text \<open>The tasks that changed, for the counters and the jobs.\<close>

definition changed_tasks :: "transfer_task list \<Rightarrow> transfer_task list" where
  "changed_tasks ts = filter (\<lambda>t. tt_Status t = ''PENDING'') ts"

definition markTransferTasksRunning ::
  "svc \<Rightarrow> transfer_task list \<Rightarrow> string \<Rightarrow> world \<Rightarrow> world \<times> transfer_task list option" where
  "markTransferTasksRunning S tasks workerID w =
     (if tasks = [] then (w, Some [])
      else case mark_loop S workerID tasks w [] [] of
             (w1, None) \<Rightarrow> (w1, None)
           | (w1, Some (cmds, tasks')) \<Rightarrow>
               (let (w2, rs) = redis_pipe S cmds w1
                in if pipe_failed rs then (w2, None)
                   else (let w3 = w2\<lparr>w_txStatsBuffer := fold
                               (\<lambda>t. trackTxStatusChange (tt_JobID t) ''PENDING'' ''RUNNING'')
                               (changed_tasks tasks) (w_txStatsBuffer w2)\<rparr>;
                             w4 = fold (promoteTransferJobToRunning S)
                               (remdups (map tt_JobID (changed_tasks tasks))) w3
                         in (w4, Some tasks'))))"

section \<open>Acquiring tasks\<close>

text \<open>
  With several jobs: rounds over the shuffled jobs, one task per job and round, a large task beyond
  the job's share going back to the end of its channel.
\<close>

type_synonym large_counts = "(int \<times> nat) list"

definition large_count :: "int \<Rightarrow> large_counts \<Rightarrow> nat" where
  "large_count j c = (case map_of c j of Some n \<Rightarrow> n | None \<Rightarrow> 0)"

definition take_one ::
  "nat \<Rightarrow> int \<Rightarrow> transfer_task list \<Rightarrow> world \<Rightarrow> transfer_task list \<Rightarrow> large_counts
     \<Rightarrow> world \<times> transfer_task list \<times> large_counts" where
  "take_one maxLarge jid ch w tasks larges =
     (case ch of
        [] \<Rightarrow> (w, tasks, larges)
      | t # ch' \<Rightarrow>
          if tt_Size t \<ge> LargeFileThresholdBytes then
            (if large_count jid larges \<ge> maxLarge
             then (set_tx_buffer jid (if length ch' < BufferSize then ch' @ [t] else ch') w,
                   tasks, larges)
             else (set_tx_buffer jid ch' w, tasks @ [t],
                   aset jid (Suc (large_count jid larges)) larges))
          else (set_tx_buffer jid ch' w, tasks @ [t], larges))"

fun acquire_round ::
  "nat \<Rightarrow> nat \<Rightarrow> int list \<Rightarrow> world \<Rightarrow> transfer_task list \<Rightarrow> large_counts
     \<Rightarrow> world \<times> transfer_task list \<times> large_counts" where
  "acquire_round limit maxLarge [] w tasks larges = (w, tasks, larges)"
| "acquire_round limit maxLarge (jid # jids) w tasks larges =
     (if length tasks \<ge> limit then (w, tasks, larges)
      else case get_tx_buffer jid w of
             None \<Rightarrow> acquire_round limit maxLarge jids (triggerTxRefill jid (ensureTxBuffer jid w))
                       tasks larges
           | Some ch \<Rightarrow>
               (let w1 = (if length ch < BufferLowWater then triggerTxRefill jid w else w);
                    (w2, tasks', larges') = take_one maxLarge jid ch w1 tasks larges
                in acquire_round limit maxLarge jids w2 tasks' larges'))"

fun acquire_rounds ::
  "nat \<Rightarrow> nat \<Rightarrow> nat \<Rightarrow> int list \<Rightarrow> world \<Rightarrow> transfer_task list \<Rightarrow> large_counts
     \<Rightarrow> world \<times> transfer_task list" where
  "acquire_rounds 0 limit maxLarge jids w tasks larges = (w, tasks)"
| "acquire_rounds (Suc n) limit maxLarge jids w tasks larges =
     (if length tasks \<ge> limit then (w, tasks)
      else (let (w1, tasks', larges') = acquire_round limit maxLarge jids w tasks larges
            in acquire_rounds n limit maxLarge jids w1 tasks' larges'))"

record tx_acquire_request =
  ta_WorkerID :: string
  ta_Limit :: int

text \<open>New jobs get a buffer and a refill, when there are more active jobs than buffers.\<close>

definition init_tx_buffers :: "int list \<Rightarrow> transfer_job list \<Rightarrow> world \<Rightarrow> world" where
  "init_tx_buffers jobIDs jobs w =
     fold (\<lambda>job w. if tj_JobID job \<in> set jobIDs then w
                   else triggerTxRefill (tj_JobID job) (ensureTxBuffer (tj_JobID job) w)) jobs w"

definition respond_marked ::
  "svc \<Rightarrow> string \<Rightarrow> int list \<Rightarrow> world \<times> transfer_task list \<Rightarrow> world \<times> response" where
  "respond_marked S workerID jobIDs acc =
     (case acc of (w, tasks) \<Rightarrow>
        (case markTransferTasksRunning S tasks workerID w of
           (w1, None) \<Rightarrow> (fold triggerTxRefill jobIDs w1, StatusInternalServerError,
                           BError ''failed to mark tasks running'')
         | (w1, Some tasks') \<Rightarrow> (w1, StatusOK, BTxTasks tasks')))"

text \<open>
  The request counter is an \<^verbatim>\<open>int32\<close> that wraps. \<open>shuffle\<close> is the permutation of
  \<^verbatim>\<open>rand.Shuffle\<close>.
\<close>

definition AcquireTransferTasks ::
  "svc \<Rightarrow> (int list \<Rightarrow> int list) \<Rightarrow> tx_acquire_request option \<Rightarrow> world \<Rightarrow> world \<times> response" where
  "AcquireTransferTasks S shuffle req w0 =
     (case req of
        None \<Rightarrow> (w0, StatusBadRequest, BError ''bind'')
      | Some q \<Rightarrow>
          (let limit = nat (if ta_Limit q \<le> 0 then 10 else ta_Limit q);
               jobIDs0 = map fst (w_txJobBuffers w0);
               w = w0\<lparr>w_txAcquireRequestCount := w_txAcquireRequestCount w0 + 1\<rparr>;
               check = (jobIDs0 = [] \<or> 30 dvd sint (w_txAcquireRequestCount w))
           in if check \<and> dbErr S ''transfer_jobs.active'' 0 then (w, StatusOK, BTxTasks [])
              else
                (let jobs = active_tx_jobs w;
                     w1 = (if check \<and> length jobs > length jobIDs0
                           then init_tx_buffers jobIDs0 jobs w else w);
                     jobIDs = map fst (w_txJobBuffers w1)
                 in case jobIDs of
                      [] \<Rightarrow> (w1, StatusOK, BTxTasks [])
                    | [jid] \<Rightarrow>
                        (case get_tx_buffer jid w1 of
                           None \<Rightarrow> respond_marked S (ta_WorkerID q) [jid] (w1, [])
                         | Some ch \<Rightarrow> respond_marked S (ta_WorkerID q) [jid]
                                        (set_tx_buffer jid (drop limit ch) w1, take limit ch))
                    | _ \<Rightarrow>
                        (let maxPerJob = max 1 (limit div length jobIDs);
                             maxLargePerJob = max 1 (maxPerJob div 4);
                             order = shuffle jobIDs
                         in respond_marked S (ta_WorkerID q) order
                              (acquire_rounds maxPerJob limit maxLargePerJob order w1 [] [])))))"

section \<open>Reporting tasks\<close>

definition merge_tx :: "transfer_task \<Rightarrow> transfer_task \<Rightarrow> transfer_task" where
  "merge_tx u existing = u
     \<lparr>tt_ErrorMessage := (if tt_ErrorMessage u = [] then tt_ErrorMessage existing else tt_ErrorMessage u),
      tt_WorkerID := (if tt_WorkerID u = [] then tt_WorkerID existing else tt_WorkerID u),
      tt_StartedAt := (if tt_StartedAt u = 0 then tt_StartedAt existing else tt_StartedAt u),
      tt_CreatedAt := (if tt_CreatedAt u = 0 then tt_CreatedAt existing else tt_CreatedAt u),
      tt_Size := (if tt_Size u = 0 then tt_Size existing else tt_Size u),
      tt_Src := (if tt_Src u = [] then tt_Src existing else tt_Src u),
      tt_RetryCount :=
        (if tt_RetryCount u = 0 \<and> tt_Status u = ''FAILED'' \<and> tt_Status existing \<noteq> ''FAILED''
         then tt_RetryCount existing + 1 else tt_RetryCount u)\<rparr>"

definition tx_row :: "time \<Rightarrow> transfer_task \<Rightarrow> transfer_task" where
  "tx_row now u = TransferTask0
     \<lparr>tt_ID := tt_ID u, tt_JobID := tt_JobID u, tt_Src := tt_Src u, tt_Size := tt_Size u,
      tt_Status := tt_Status u, tt_WorkerID := tt_WorkerID u, tt_ErrorMessage := tt_ErrorMessage u,
      tt_RetryCount := tt_RetryCount u, tt_UpdatedAt := now,
      tt_StartedAt := (if tt_Status u = ''RUNNING'' \<and> tt_StartedAt u = 0 then now
                       else tt_StartedAt u),
      tt_CompletedAt := (if (tt_Status u = ''COMPLETED'' \<or> tt_Status u = ''FAILED'')
                            \<and> tt_CompletedAt u = 0 then now else tt_CompletedAt u)\<rparr>"

definition upsert_reported :: "time \<Rightarrow> transfer_task \<Rightarrow> transfer_task list \<Rightarrow> transfer_task list" where
  "upsert_reported now r rows =
     upsert tt_ID (\<lambda>old new. old\<lparr>tt_Status := tt_Status new, tt_WorkerID := tt_WorkerID new,
        tt_ErrorMessage := tt_ErrorMessage new, tt_RetryCount := tt_RetryCount new,
        tt_StartedAt := tt_StartedAt new, tt_CompletedAt := tt_CompletedAt new,
        tt_UpdatedAt := tt_UpdatedAt new\<rparr>) (tx_created now r) rows"

text \<open>What the loop collects: commands, rows, status changes, and bytes per job.\<close>

record tx_report =
  rp_cmds :: "redis_cmd list"
  rp_rows :: "transfer_task list"
  rp_actions :: "(int \<times> status \<times> status) list"
  rp_bytes :: "(int \<times> int) list"

definition report0 :: tx_report where
  "report0 = \<lparr>rp_cmds = [], rp_rows = [], rp_actions = [], rp_bytes = []\<rparr>"

definition add_bytes :: "int \<Rightarrow> int \<Rightarrow> (int \<times> int) list \<Rightarrow> (int \<times> int) list" where
  "add_bytes j n b = aset j ((case map_of b j of Some m \<Rightarrow> m | None \<Rightarrow> 0) + n) b"

definition report_one :: "time \<Rightarrow> string \<Rightarrow> transfer_task \<Rightarrow> rstr option \<Rightarrow> tx_report \<Rightarrow> tx_report" where
  "report_one now k u val acc =
     (let existing = Option.bind val unmarshal_tx;
          u' = (case existing of Some e \<Rightarrow> merge_tx u e | None \<Rightarrow> u);
          oldStatus = (case existing of Some e \<Rightarrow> tt_Status e | None \<Rightarrow> []);
          bytes = (case existing of
                     Some e \<Rightarrow> if tt_Status e \<noteq> ''COMPLETED'' \<and> tt_Status u = ''COMPLETED''
                                   \<and> tt_Size e > 0
                                then add_bytes (tt_JobID u) (tt_Size e) (rp_bytes acc)
                                else rp_bytes acc
                   | None \<Rightarrow> rp_bytes acc)
      in acc\<lparr>rp_cmds := rp_cmds acc @ [SET k (TxDoc u')],
             rp_rows := rp_rows acc @ [tx_row now u'],
             rp_actions := (if oldStatus \<noteq> [] \<and> oldStatus \<noteq> tt_Status u'
                            then rp_actions acc @ [(tt_JobID u', oldStatus, tt_Status u')]
                            else rp_actions acc),
             rp_bytes := bytes\<rparr>)"

fun report_all ::
  "time \<Rightarrow> string list \<Rightarrow> transfer_task list \<Rightarrow> rstr option list \<Rightarrow> tx_report \<Rightarrow> tx_report" where
  "report_all now (k # ks) (u # us) (v # vs) acc =
     report_all now ks us vs (report_one now k u v acc)"
| "report_all now _ _ _ acc = acc"

fun tx_keys :: "svc \<Rightarrow> transfer_task list \<Rightarrow> world \<Rightarrow> world \<times> string list" where
  "tx_keys S [] w = (w, [])"
| "tx_keys S (u # us) w =
     (let (w1, k) = getTxTaskKey S (tt_JobID u) (tt_ID u) w; (w2, ks) = tx_keys S us w1
      in (w2, k # ks))"

definition apply_action :: "svc \<Rightarrow> int \<times> status \<times> status \<Rightarrow> world \<Rightarrow> world" where
  "apply_action S a w =
     (case a of (j, old, new) \<Rightarrow>
        (let w1 = w\<lparr>w_txStatsBuffer := trackTxStatusChange j old new (w_txStatsBuffer w)\<rparr>
         in if new = ''RUNNING'' then promoteTransferJobToRunning S j w1
            else if new = ''PENDING'' then reactivateTransferJobOnPendingWork S j w1
            else w1))"

definition add_success_bytes :: "svc \<Rightarrow> int \<times> int \<Rightarrow> world \<Rightarrow> world" where
  "add_success_bytes S p w =
     (case p of (j, n) \<Rightarrow>
        if n > 0 \<and> \<not> dbErr S ''transfer_jobs.success_size'' j
        then w\<lparr>w_txJobs := update_where (\<lambda>r. tj_JobID r = j)
                 (\<lambda>r. r\<lparr>tj_SuccessSizeBytes := tj_SuccessSizeBytes r + n\<rparr>) (w_txJobs w)\<rparr>
        else w)"

text \<open>
  The rows are written in one transaction before the pipeline is sent; a pipeline that fails leaves
  the rows changed.
\<close>

definition BatchUpdateTransfer ::
  "svc \<Rightarrow> transfer_task list option \<Rightarrow> world \<Rightarrow> world \<times> response" where
  "BatchUpdateTransfer S req w =
     (case req of
        None \<Rightarrow> (w, StatusBadRequest, BError ''bind'')
      | Some updates \<Rightarrow>
          if updates = [] then (w, StatusOK, BStatus ''no updates'')
          else
            (let (w1, keys) = tx_keys S updates w; (w2, r) = redis_do S (MGET keys) w1
             in case r of
                  RVals vals \<Rightarrow>
                    (let rep = report_all (w_now w) keys updates vals report0
                     in if list_ex (\<lambda>t. dbErr S ''transfer_tasks.upsert'' (tt_ID t)) (rp_rows rep)
                        then (w2, StatusInternalServerError,
                              BError ''failed to sync transfer tasks to database: '')
                        else
                          (let w3 = w2\<lparr>w_txTasks :=
                                 fold (upsert_reported (w_now w)) (rp_rows rep) (w_txTasks w2)\<rparr>;
                               (w4, rs) = redis_pipe S (rp_cmds rep) w3
                           in if pipe_failed rs then (w4, StatusInternalServerError, BError ''pipe'')
                              else (fold (add_success_bytes S) (rp_bytes rep)
                                      (fold (apply_action S) (rp_actions rep) w4),
                                    StatusOK, BStatus ''updated'')))
                | _ \<Rightarrow> (w2, StatusInternalServerError,
                        BError ''Failed to fetch existing tasks: '')))"

section \<open>Failed tasks\<close>

definition GetFailedTasksForRetry :: "svc \<Rightarrow> int option \<Rightarrow> world \<Rightarrow> response" where
  "GetFailedTasksForRetry S req w =
     (case req of
        None \<Rightarrow> (StatusBadRequest, BError ''bind'')
      | Some maxRetryCount \<Rightarrow>
          (case loadAllTransferJobIDs S w of
             None \<Rightarrow> (StatusInternalServerError, BError ''Failed to get transfer jobs: '')
           | Some jobIDs \<Rightarrow>
               (StatusOK, BTxTasks (concat (map (\<lambda>jid.
                  if dbErr S ''transfer_tasks.failed'' jid then []
                  else filter (\<lambda>t. tt_JobID t = jid \<and> tt_Status t = ''FAILED''
                          \<and> tt_RetryCount t < maxRetryCount) (w_txTasks w)) jobIDs)))))"

definition reset_row :: "time \<Rightarrow> transfer_task \<Rightarrow> transfer_task" where
  "reset_row now t = TransferTask0
     \<lparr>tt_ID := tt_ID t, tt_JobID := tt_JobID t, tt_Src := tt_Src t, tt_Size := tt_Size t,
      tt_Status := tt_Status t, tt_WorkerID := tt_WorkerID t, tt_RetryCount := tt_RetryCount t,
      tt_UpdatedAt := now\<rparr>"

definition upsert_reset :: "time \<Rightarrow> transfer_task \<Rightarrow> transfer_task list \<Rightarrow> transfer_task list" where
  "upsert_reset now t rows =
     upsert tt_ID (\<lambda>old new. old\<lparr>tt_Status := tt_Status new, tt_WorkerID := tt_WorkerID new,
        tt_ErrorMessage := tt_ErrorMessage new, tt_RetryCount := tt_RetryCount new,
        tt_UpdatedAt := tt_UpdatedAt new\<rparr>) (tx_created now (reset_row now t)) rows"

text \<open>The first job that has a FAILED document of that identifier wins.\<close>

fun reset_in_jobs :: "svc \<Rightarrow> int \<Rightarrow> status \<Rightarrow> int list \<Rightarrow> world \<Rightarrow> world \<times> response" where
  "reset_in_jobs S taskID newStatus [] w = (w, StatusNotFound, BError ''Task not found'')"
| "reset_in_jobs S taskID newStatus (jid # jids) w =
     (let (w1, k) = getTxTaskKey S jid taskID w; (w2, r) = redis_do S (GET k) w1
      in case (case r of RStr v \<Rightarrow> unmarshal_tx v | _ \<Rightarrow> None) of
           None \<Rightarrow> reset_in_jobs S taskID newStatus jids w2
         | Some task \<Rightarrow>
             if tt_Status task \<noteq> ''FAILED'' then reset_in_jobs S taskID newStatus jids w2
             else
               (let t = resetTaskForAutoRetry (w_now w2) newStatus task
                in if dbErr S ''transfer_tasks.upsert'' (tt_ID t)
                   then (w2, StatusInternalServerError,
                         BError ''failed to sync reset task to database: '')
                   else
                     (let w3 = w2\<lparr>w_txTasks := upsert_reset (w_now w2) t (w_txTasks w2)\<rparr>;
                          (w4, s) = redis_do S (SET k (TxDoc t)) w3
                      in if s = RErr
                         then (w4, StatusInternalServerError,
                               BError ''failed to update reset task in redis: '')
                         else (reactivateTransferJobOnPendingWork S jid
                                 (w4\<lparr>w_txStatsBuffer := trackTxStatusChange jid (tt_Status task)
                                        (tt_Status t) (w_txStatsBuffer w4)\<rparr>),
                               StatusOK, BStatus ''reset''))))"

definition ResetTransferTask :: "svc \<Rightarrow> (int \<times> status) option \<Rightarrow> world \<Rightarrow> world \<times> response" where
  "ResetTransferTask S req w =
     (case req of
        None \<Rightarrow> (w, StatusBadRequest, BError ''bind'')
      | Some (taskID, newStatus) \<Rightarrow>
          if newStatus \<noteq> ''PENDING''
          then (w, StatusBadRequest, BError ''Only PENDING status is allowed for reset'')
          else (case loadAllTransferJobIDs S w of
                  None \<Rightarrow> (w, StatusInternalServerError, BError ''Failed to get transfer jobs: '')
                | Some jobIDs \<Rightarrow> reset_in_jobs S taskID newStatus jobIDs w))"

section \<open>Completion of jobs\<close>

text \<open>\<^verbatim>\<open>EXTRACT(EPOCH FROM d)::int\<close> for a non-negative duration in nanoseconds.\<close>

definition epoch_int :: "int \<Rightarrow> int" where
  "epoch_int d = (d + 500000000) div 1000000000"

definition completable :: "transfer_task list \<Rightarrow> transfer_job \<Rightarrow> bool" where
  "completable rows j =
     (tj_Status j = StatusRunning \<and> tj_TotalCount j > 0 \<and> tj_PeriodicInterval j = 0
      \<and> list_ex (\<lambda>t. tt_JobID t = tj_JobID j) rows
      \<and> \<not> list_ex (\<lambda>t. tt_JobID t = tj_JobID j \<and> tt_Status t \<in> {''PENDING'', ''RUNNING''}) rows
      \<and> \<not> list_ex (\<lambda>t. tt_JobID t = tj_JobID j \<and> tt_Status t = ''FAILED'' \<and> tt_RetryCount t < 3) rows)"

definition updateCompletedTransferJobs :: "svc \<Rightarrow> world \<Rightarrow> world" where
  "updateCompletedTransferJobs S w =
     (if dbErr S ''transfer_jobs.complete'' 0 then w
      else w\<lparr>w_txJobs := update_where (completable (w_txTasks w))
         (\<lambda>j. j\<lparr>tj_Status := StatusCompleted, tj_EndTime := Some (w_now w),
                tj_DurationSeconds := epoch_int (w_now w -
                  (case tj_StartTime j of Some s \<Rightarrow> s | None \<Rightarrow> tj_CreatedAt j))\<rparr>) (w_txJobs w)\<rparr>)"

end
