(* ===== verification/TransferAddFacts.thy ===== *)
theory TransferAddFacts
  imports TransferWork
begin

text \<open>
  Properties of the addition of transfer tasks and of the buffers they are read through.
\<close>

section \<open>Deduplication\<close>

lemma set_dedup_inputs: "ti_Src ` set (dedup_inputs seen xs) = ti_Src ` set xs - set seen"
  by (induction seen xs rule: dedup_inputs.induct) auto

lemma dedup_inputs_subset: "set (dedup_inputs seen xs) \<subseteq> set xs"
  by (induction seen xs rule: dedup_inputs.induct) auto

lemma distinct_dedup_inputs: "distinct (map ti_Src (dedup_inputs seen xs))"
proof (induction seen xs rule: dedup_inputs.induct)
  case (2 seen x xs)
  have "ti_Src x \<notin> ti_Src ` set (dedup_inputs (ti_Src x # seen) xs)"
    by (simp add: set_dedup_inputs)
  with 2 show ?case by auto
qed simp

lemma dedup_inputs_again: "dedup_inputs [] (dedup_inputs [] xs) = dedup_inputs [] xs"
proof -
  have "dedup_inputs seen ys = ys" if "distinct (map ti_Src ys)" "ti_Src ` set ys \<inter> set seen = {}"
    for seen ys
    using that by (induction seen ys rule: dedup_inputs.induct) auto
  then show ?thesis using distinct_dedup_inputs by fastforce
qed

text \<open>Which sources the deduplication hashes of a job know.\<close>

definition known :: "(string \<Rightarrow> string) \<Rightarrow> redis_db \<Rightarrow> string \<Rightarrow> bool" where
  "known hashKey db src = (case hs_of (db (hashKey src)) of None \<Rightarrow> False | Some h \<Rightarrow> src \<in> fst ` set h)"

definition hash_typed :: "(string \<Rightarrow> string) \<Rightarrow> redis_db \<Rightarrow> bool" where
  "hash_typed hashKey db = (\<forall>src. hs_of (db (hashKey src)) \<noteq> None)"

lemma hexists_pipe:
  assumes "hash_typed hashKey db"
  shows "rpipe redis_ref db (map (\<lambda>x. HEXISTS (hashKey (ti_Src x)) (ti_Src x)) inputs)
    = (db, map (\<lambda>x. RInt (if known hashKey db (ti_Src x) then 1 else 0)) inputs)"
proof (induction inputs)
  case (Cons x xs)
  obtain h where "hs_of (db (hashKey (ti_Src x))) = Some h"
    using assms by (auto simp: hash_typed_def)
  with Cons show ?case by (simp add: known_def)
qed simp

lemma unseen_inputs_known:
  "unseen_inputs inputs (map (\<lambda>x. RInt (if K (ti_Src x) then 1 else 0)) inputs)
    = filter (\<lambda>x. \<not> K (ti_Src x)) inputs"
  by (induction inputs) auto

lemma pipe_failed_hexists: "\<not> pipe_failed (map (\<lambda>x. RInt (f x)) xs)"
  by (auto simp: pipe_failed_def)

lemma new_tx_tasks_nth:
  "i < length inputs \<Longrightarrow> new_tx_tasks now j s inputs ! i = TransferTask0
     \<lparr>tt_ID := s + int i, tt_JobID := j, tt_Src := ti_Src (inputs ! i),
      tt_Size := ti_Size (inputs ! i), tt_Status := ''PENDING'', tt_CreatedAt := now,
      tt_UpdatedAt := now\<rparr>"
  by (simp add: new_tx_tasks_def nth_enumerate_eq)

lemma length_new_tx_tasks [simp]: "length (new_tx_tasks now j s inputs) = length inputs"
  by (simp add: new_tx_tasks_def)

lemma map_new_tx_tasks:
  "map tt_ID (new_tx_tasks now j s inputs) = map (\<lambda>i. s + int i) [0..<length inputs]"
  "map tt_Src (new_tx_tasks now j s inputs) = map ti_Src inputs"
  by (rule nth_equalityI; simp add: new_tx_tasks_nth)+

section \<open>The pipeline of a sharded addition\<close>

abbreviation shard_hash :: "int \<Rightarrow> string \<Rightarrow> string" where
  "shard_hash j \<equiv> getDedupShardKey j"

lemma sharded_keys_apart [simp]:
  "tx_sharded_task_key j i \<noteq> getTaskBucketKey j k" "tx_sharded_task_key j i \<noteq> getDedupShardKey j src"
  "getTaskBucketKey j k \<noteq> getDedupShardKey j src" "getTaskBucketKey j k \<noteq> tx_sharded_task_key j i"
  "getDedupShardKey j src \<noteq> getTaskBucketKey j k" "getDedupShardKey j src \<noteq> tx_sharded_task_key j i"
  "getDedupShardKey j src \<noteq> tx_bucket_key j b" "tx_sharded_task_key j i \<noteq> tx_bucket_key j b"
  "tx_bucket_key j b \<noteq> getDedupShardKey j src" "tx_bucket_key j b \<noteq> tx_sharded_task_key j i"
  "tx_max_id_key j \<noteq> getTaskBucketKey j k" "tx_max_id_key j \<noteq> getDedupShardKey j src"
  "tx_max_id_key j \<noteq> tx_sharded_task_key j i" "tx_max_id_key j \<noteq> tx_bucket_key j b"
  "getTaskBucketKey j k \<noteq> tx_max_id_key j" "getDedupShardKey j src \<noteq> tx_max_id_key j"
  "tx_sharded_task_key j i \<noteq> tx_max_id_key j" "tx_bucket_key j b \<noteq> tx_max_id_key j"
  by (simp_all add: getTaskBucketKey_def getDedupShardKey_def key_defs)

definition add_typed :: "int \<Rightarrow> redis_db \<Rightarrow> bool" where
  "add_typed j db \<longleftrightarrow> hash_typed (shard_hash j) db \<and> buckets_typed j db"

definition sharded_task_cmds :: "int \<Rightarrow> transfer_task \<Rightarrow> redis_cmd list" where
  "sharded_task_cmds j t =
     [SET (tx_sharded_task_key j (tt_ID t)) (TxDoc t),
      ZADD (getTaskBucketKey j (tt_ID t)) [(tt_ID t, itoa (tt_ID t))],
      HSET (getDedupShardKey j (tt_Src t)) (tt_Src t) (itoa (tt_ID t))]"

lemma sharded_cmds_Cons: "sharded_cmds j (t # ts) = sharded_task_cmds j t @ sharded_cmds j ts"
  by (simp add: sharded_cmds_def sharded_task_cmds_def)

lemma hs_of_upd: "hs_of ((db(k := d)) k') = (if k' = k then hs_of d else hs_of (db k'))"
  by simp

lemma zset_upd [simp]: "k' \<noteq> k \<Longrightarrow> put_zset k zs db k' = db k'"
  by (simp add: put_zset_def)

lemma sharded_task_step:
  assumes "add_typed j db"
  shows "\<exists>db'. rpipe redis_ref db (sharded_task_cmds j t) = (db', [ROk, ROk, ROk]) \<and> add_typed j db'
    \<and> (\<forall>src. known (shard_hash j) db' src = (known (shard_hash j) db src \<or> src = tt_Src t))"
proof -
  obtain zs where zs: "zs_of (db (getTaskBucketKey j (tt_ID t))) = Some zs"
    using assms by (auto simp: add_typed_def buckets_typed_def getTaskBucketKey_def)
  obtain h where h: "hs_of (db (getDedupShardKey j (tt_Src t))) = Some h"
    using assms by (auto simp: add_typed_def hash_typed_def)
  define db1 where "db1 = db(tx_sharded_task_key j (tt_ID t) \<mapsto> RS (TxDoc t))"
  define db2 where "db2 = put_zset (getTaskBucketKey j (tt_ID t)) (z_add (tt_ID t, itoa (tt_ID t)) zs) db1"
  define db3 where "db3 = db2(getDedupShardKey j (tt_Src t) \<mapsto> RH (aset (tt_Src t) (itoa (tt_ID t)) h))"
  have run: "rpipe redis_ref db (sharded_task_cmds j t) = (db3, [ROk, ROk, ROk])"
    using zs h by (simp add: sharded_task_cmds_def db1_def db2_def db3_def)
  have hk: "hs_of (db3 (getDedupShardKey j src)) =
      (if getDedupShardKey j src = getDedupShardKey j (tt_Src t)
       then Some (aset (tt_Src t) (itoa (tt_ID t)) h) else hs_of (db (getDedupShardKey j src)))" for src
    by (simp add: db1_def db2_def db3_def hs_of_def)
  have "known (shard_hash j) db3 src = (known (shard_hash j) db src \<or> src = tt_Src t)" for src
    using h by (auto simp: known_def hk keys_aset)
  moreover have "zs_of (db3 (tx_bucket_key j b)) \<noteq> None" for b
    using assms by (auto simp: db3_def db2_def db1_def add_typed_def buckets_typed_def getTaskBucketKey_def)
  moreover have "hs_of (db3 (getDedupShardKey j src)) \<noteq> None" for src
    using assms by (auto simp: hk add_typed_def hash_typed_def)
  ultimately show ?thesis
    using run by (intro exI [of _ db3]) (auto simp: add_typed_def buckets_typed_def hash_typed_def)
qed

lemma sharded_cmds_spec:
  assumes "add_typed j db"
  shows "\<exists>db' rs. rpipe redis_ref db (sharded_cmds j ts) = (db', rs) \<and> \<not> pipe_failed rs
    \<and> add_typed j db'
    \<and> (\<forall>src. known (shard_hash j) db' src = (known (shard_hash j) db src \<or> src \<in> tt_Src ` set ts))"
  using assms
proof (induction ts arbitrary: db)
  case Nil
  then show ?case by (simp add: sharded_cmds_def pipe_failed_def)
next
  case (Cons t ts)
  from sharded_task_step [OF Cons.prems, of t] obtain db1 where db1:
    "rpipe redis_ref db (sharded_task_cmds j t) = (db1, [ROk, ROk, ROk])" "add_typed j db1"
    "\<And>src. known (shard_hash j) db1 src = (known (shard_hash j) db src \<or> src = tt_Src t)" by blast
  from Cons.IH [OF db1(2)] obtain db2 rs where db2:
    "rpipe redis_ref db1 (sharded_cmds j ts) = (db2, rs)" "\<not> pipe_failed rs" "add_typed j db2"
    "\<And>src. known (shard_hash j) db2 src = (known (shard_hash j) db1 src \<or> src \<in> tt_Src ` set ts)"
    by blast
  have "rpipe redis_ref db (sharded_cmds j (t # ts)) = (db2, [ROk, ROk, ROk] @ rs)"
    unfolding sharded_cmds_Cons rpipe_append by (simp add: db1(1) db2(1))
  moreover have "\<not> pipe_failed ([ROk, ROk, ROk] @ rs)" using db2(2) by (simp add: pipe_failed_def)
  ultimately show ?case
    by (intro exI [of _ db2] exI [of _ "[ROk, ROk, ROk] @ rs"])
      (auto simp: db2(3,4) db1(3))
qed

text \<open>Which documents the pipeline writes.\<close>

lemma sharded_cmds_task:
  "filter (\<lambda>c. tx_sharded_task_key j i \<in> cmd_keys c) (sharded_cmds j ts)
     = map (\<lambda>t. SET (tx_sharded_task_key j i) (TxDoc t)) (filter (\<lambda>t. tt_ID t = i) ts)"
  by (induction ts) (auto simp: sharded_cmds_Cons sharded_task_cmds_def, simp add: sharded_cmds_def)

lemma sharded_cmds_max_id: "rrun redis_ref db (sharded_cmds j ts) (tx_max_id_key j) = db (tx_max_id_key j)"
  by (rule rrun_frame) (auto simp: sharded_cmds_def)

definition counter_at :: "string \<Rightarrow> redis_db \<Rightarrow> int option" where
  "counter_at k db = (case db k of None \<Rightarrow> Some 0 | Some (RS (Num m)) \<Rightarrow> Some m | _ \<Rightarrow> None)"

lemma incrby_counter:
  assumes "counter_at k db = Some m"
  shows "redis_ref db (INCRBY k n) = (db(k \<mapsto> RS (Num (m + n))), RInt (m + n))"
  using assms by (auto simp: counter_at_def split: option.splits rdata.splits rstr.splits)

lemma count_added_frame [simp]:
  "w_redis (count_added S j xs w) = w_redis w"
  "w_jobShardingMode (count_added S j xs w) = w_jobShardingMode w"
  by (simp_all add: count_added_def)

lemma insert_tx_rows_frame [simp]:
  "w_redis (insert_tx_rows S ts w) = w_redis w"
  "w_jobShardingMode (insert_tx_rows S ts w) = w_jobShardingMode w"
  by (simp_all add: insert_tx_rows_def)

definition fresh_inputs :: "int \<Rightarrow> world \<Rightarrow> tx_input list \<Rightarrow> tx_input list" where
  "fresh_inputs j w inputs =
     filter (\<lambda>x. \<not> known (shard_hash j) (w_redis w) (ti_Src x)) (dedup_inputs [] inputs)"

lemma redis_self [simp]: "w\<lparr>w_redis := w_redis w\<rparr> = w"
  by simp

lemma add_nothing_new:
  assumes "redis_up (rx S)" "w_jobShardingMode w j = Some True" "add_typed j (w_redis w)"
    and "fresh_inputs j w inputs = []"
  shows "AddTransferTasksToJob S j inputs w = (w, 0, True)"
proof -
  have p: "redis_pipe S (map (\<lambda>x. HEXISTS (getDedupShardKey j (ti_Src x)) (ti_Src x)) xs) w
      = (w, map (\<lambda>x. RInt (if known (shard_hash j) (w_redis w) (ti_Src x) then 1 else 0)) xs)" for xs
    using hexists_pipe [of "shard_hash j" "w_redis w" xs] assms(3)
    by (simp add: redis_pipe_def rx_up [OF assms(1)] add_typed_def)
  show ?thesis
    using assms(2,4)
    by (simp add: AddTransferTasksToJob_def isJobSharded_def addShardedTransferTasks_def p
        pipe_failed_hexists unseen_inputs_known fresh_inputs_def)
qed

lemma add_sharded_spec:
  assumes "redis_up (rx S)" "w_jobShardingMode w j = Some True" "add_typed j (w_redis w)"
    and "counter_at (tx_max_id_key j) (w_redis w) = Some m"
    and "xs = fresh_inputs j w inputs" "xs \<noteq> []" "ts = new_tx_tasks (w_now w) j (m + 1) xs"
  shows "\<exists>w'. AddTransferTasksToJob S j inputs w = (w', length xs, True)
    \<and> w_redis w' = rrun redis_ref ((w_redis w)(tx_max_id_key j \<mapsto> RS (Num (m + int (length xs)))))
                     (sharded_cmds j ts)
    \<and> w_jobShardingMode w' = w_jobShardingMode w
    \<and> w' = count_added S j xs (insert_tx_rows S ts (w\<lparr>w_redis := w_redis w'\<rparr>))"
proof -
  let ?db = "(w_redis w)(tx_max_id_key j \<mapsto> RS (Num (m + int (length xs))))"
  let ?us = "dedup_inputs [] inputs"
  have p: "redis_pipe S (map (\<lambda>x. HEXISTS (getDedupShardKey j (ti_Src x)) (ti_Src x)) ?us) w
      = (w, map (\<lambda>x. RInt (if known (shard_hash j) (w_redis w) (ti_Src x) then 1 else 0)) ?us)"
    using hexists_pipe [of "shard_hash j" "w_redis w" ?us] assms(3)
    by (simp add: redis_pipe_def rx_up [OF assms(1)] add_typed_def)
  have new: "unseen_inputs ?us
      (map (\<lambda>x. RInt (if known (shard_hash j) (w_redis w) (ti_Src x) then 1 else 0)) ?us) = xs"
    by (simp add: unseen_inputs_known assms(5) fresh_inputs_def)
  have inc: "redis_do S (INCRBY (tx_max_id_key j) (int (length xs))) w
      = (w\<lparr>w_redis := ?db\<rparr>, RInt (m + int (length xs)))"
    unfolding redis_do_up [OF assms(1)] incrby_counter [OF assms(4)] by simp
  have start: "m + int (length xs) - int (length xs) + 1 = m + 1" by simp
  have "add_typed j ?db"
    using assms(3) by (simp add: add_typed_def hash_typed_def buckets_typed_def)
  from sharded_cmds_spec [OF this, of ts] obtain db' rs where db': "rpipe redis_ref ?db (sharded_cmds j ts) = (db', rs)"
    "\<not> pipe_failed rs" by blast
  then have pipe: "redis_pipe S (sharded_cmds j ts) (w\<lparr>w_redis := ?db\<rparr>) = (w\<lparr>w_redis := db'\<rparr>, rs)"
    by (simp add: redis_pipe_def rx_up [OF assms(1)])
  define w' where "w' = count_added S j xs (insert_tx_rows S ts (w\<lparr>w_redis := db'\<rparr>))"
  have "inputs \<noteq> []" using assms(5,6) by (auto simp: fresh_inputs_def)
  then have "AddTransferTasksToJob S j inputs w = (w', length xs, True)"
    using assms(2,6) db'(2)
    by (simp add: AddTransferTasksToJob_def isJobSharded_def addShardedTransferTasks_def p new
        pipe_failed_hexists inc start assms(7) [symmetric] pipe w'_def)
      (simp add: assms(7))
  moreover have "w_redis w' = rrun redis_ref ?db (sharded_cmds j ts)"
    using db'(1) by (simp add: w'_def rrun_def)
  ultimately show ?thesis using db'(1) by (intro exI [of _ w']) (simp add: w'_def rrun_def)
qed

section \<open>Properties\<close>

text \<open>C16: Adding a list of sources to a sharded job adds each source the job does not know once,
however often the list names it, and adding the same list again adds nothing and changes nothing.\<close>

theorem add_transfer_tasks_idempotent:
  assumes "redis_up (rx S)" "w_jobShardingMode w j = Some True" "add_typed j (w_redis w)"
    and "counter_at (tx_max_id_key j) (w_redis w) = Some m"
    and "AddTransferTasksToJob S j inputs w = (w', n, ok)"
  shows "ok \<and> n = card {s \<in> ti_Src ` set inputs. \<not> known (shard_hash j) (w_redis w) s}
    \<and> AddTransferTasksToJob S j inputs w' = (w', 0, True)"
proof -
  define xs where "xs = fresh_inputs j w inputs"
  have "distinct (map ti_Src xs)"
    using distinct_dedup_inputs [of "[]" inputs] unfolding xs_def fresh_inputs_def
    by (rule distinct_map_filter)
  then have "card (ti_Src ` set xs) = length xs" by (metis distinct_card length_map set_map)
  moreover have "ti_Src ` set xs = {s \<in> ti_Src ` set (dedup_inputs [] inputs).
      \<not> known (shard_hash j) (w_redis w) s}"
    by (auto simp: xs_def fresh_inputs_def)
  ultimately have card: "length xs = card {s \<in> ti_Src ` set inputs. \<not> known (shard_hash j) (w_redis w) s}"
    using set_dedup_inputs [of "[]" inputs] by simp
  show ?thesis
  proof (cases "xs = []")
    case True
    from add_nothing_new [OF assms(1-3) this [unfolded xs_def]] assms(5) card True show ?thesis by auto
  next
    case False
    define ts where "ts = new_tx_tasks (w_now w) j (m + 1) xs"
    let ?db = "(w_redis w)(tx_max_id_key j \<mapsto> RS (Num (m + int (length xs))))"
    from add_sharded_spec [OF assms(1-4) xs_def False ts_def] assms(5) have w':
      "n = length xs" ok "w_redis w' = rrun redis_ref ?db (sharded_cmds j ts)"
      "w_jobShardingMode w' = w_jobShardingMode w" by auto
    have "add_typed j ?db"
      using assms(3) by (simp add: add_typed_def hash_typed_def buckets_typed_def)
    from sharded_cmds_spec [OF this, of ts] obtain db' rs where
      "rpipe redis_ref ?db (sharded_cmds j ts) = (db', rs)" and t0: "add_typed j db'"
      "\<forall>src. known (shard_hash j) db' src = (known (shard_hash j) ?db src \<or> src \<in> tt_Src ` set ts)"
      by blast
    then have "w_redis w' = db'" by (simp add: w'(3) flip: fst_rpipe)
    with t0 have t: "add_typed j (w_redis w')"
      "\<And>src. known (shard_hash j) (w_redis w') src =
         (known (shard_hash j) ?db src \<or> src \<in> tt_Src ` set ts)"
      by simp_all
    have src: "tt_Src ` set ts = ti_Src ` set xs"
      by (metis map_new_tx_tasks(2) set_map ts_def)
    have "known (shard_hash j) ?db src = known (shard_hash j) (w_redis w) src" for src
      by (simp add: known_def)
    then have k: "known (shard_hash j) (w_redis w') src =
        (known (shard_hash j) (w_redis w) src \<or> src \<in> ti_Src ` set xs)" for src
      unfolding t(2) src by blast
    have "known (shard_hash j) (w_redis w') (ti_Src x)" if "x \<in> set (dedup_inputs [] inputs)" for x
      unfolding k using that by (auto simp: xs_def fresh_inputs_def)
    then have "fresh_inputs j w' inputs = []"
      unfolding fresh_inputs_def by (simp add: filter_empty_conv)
    from add_nothing_new [OF assms(1) _ t(1) this] w' assms(2) card show ?thesis by simp
  qed
qed

definition wit_tx_inputs :: "tx_input list" where
  "wit_tx_inputs = [\<lparr>ti_Src = ''a'', ti_Size = 5\<rparr>, \<lparr>ti_Src = ''b'', ti_Size = 7\<rparr>,
     \<lparr>ti_Src = ''a'', ti_Size = 5\<rparr>]"

definition wit_tx_world :: world where
  "wit_tx_world = world0\<lparr>w_jobShardingMode := [3 \<mapsto> True]\<rparr>"

lemma wit_tx_world_facts:
  "w_jobShardingMode wit_tx_world 3 = Some True" "add_typed 3 (w_redis wit_tx_world)"
  "counter_at (tx_max_id_key 3) (w_redis wit_tx_world) = Some 0"
  "fresh_inputs 3 wit_tx_world wit_tx_inputs = take 2 wit_tx_inputs"
  by (simp_all add: wit_tx_world_def world0_def add_typed_def hash_typed_def hs_of_def
      buckets_typed_def zs_of_def counter_at_def fresh_inputs_def known_def wit_tx_inputs_def
      numeral_2_eq_2)

theorem add_transfer_tasks_idempotent_witness:
  "\<exists>w'. AddTransferTasksToJob svc_ref 3 wit_tx_inputs wit_tx_world = (w', 2, True)
    \<and> AddTransferTasksToJob svc_ref 3 wit_tx_inputs w' = (w', 0, True)"
proof -
  obtain w' n ok where r: "AddTransferTasksToJob svc_ref 3 wit_tx_inputs wit_tx_world = (w', n, ok)"
    by (cases "AddTransferTasksToJob svc_ref 3 wit_tx_inputs wit_tx_world")
  have "{s \<in> ti_Src ` set wit_tx_inputs. \<not> known (shard_hash 3) (w_redis wit_tx_world) s} = {''a'', ''b''}"
    by (auto simp: wit_tx_inputs_def known_def wit_tx_world_def world0_def hs_of_def)
  with add_transfer_tasks_idempotent [OF _ wit_tx_world_facts(1-3) r] r show ?thesis by simp
qed

text \<open>C17: The new tasks of a sharded addition get the identifiers after the job's counter, in the
order of the sources, a PENDING document each under that identifier, and the counter ends at the
last of them; no document of another identifier of the job is touched.\<close>

theorem add_sharded_fresh_ids:
  assumes "redis_up (rx S)" "w_jobShardingMode w j = Some True" "add_typed j (w_redis w)"
    and "counter_at (tx_max_id_key j) (w_redis w) = Some m"
    and "xs = fresh_inputs j w inputs" "xs \<noteq> []"
  shows "\<exists>w'. AddTransferTasksToJob S j inputs w = (w', length xs, True)
    \<and> counter_at (tx_max_id_key j) (w_redis w') = Some (m + int (length xs))
    \<and> (\<forall>i < length xs. w_redis w' (tx_sharded_task_key j (m + 1 + int i)) =
         Some (RS (TxDoc (TransferTask0\<lparr>tt_ID := m + 1 + int i, tt_JobID := j,
           tt_Src := ti_Src (xs ! i), tt_Size := ti_Size (xs ! i), tt_Status := ''PENDING'',
           tt_CreatedAt := w_now w, tt_UpdatedAt := w_now w\<rparr>))))
    \<and> (\<forall>i. i \<le> m \<or> m + int (length xs) < i \<longrightarrow>
         w_redis w' (tx_sharded_task_key j i) = w_redis w (tx_sharded_task_key j i))"
proof -
  define ts where "ts = new_tx_tasks (w_now w) j (m + 1) xs"
  let ?db = "(w_redis w)(tx_max_id_key j \<mapsto> RS (Num (m + int (length xs))))"
  from add_sharded_spec [OF assms ts_def] obtain w' where w':
    "AddTransferTasksToJob S j inputs w = (w', length xs, True)"
    "w_redis w' = rrun redis_ref ?db (sharded_cmds j ts)" by blast
  have ids: "map tt_ID ts = map (\<lambda>i. m + 1 + int i) [0..<length xs]"
    by (simp add: ts_def map_new_tx_tasks)
  have task: "w_redis w' (tx_sharded_task_key j i) = rrun redis_ref ?db
      (map (\<lambda>t. SET (tx_sharded_task_key j i) (TxDoc t)) (filter (\<lambda>t. tt_ID t = i) ts))
      (tx_sharded_task_key j i)" for i
    unfolding w'(2) by (subst rrun_filter) (simp only: sharded_cmds_task)
  have "distinct (map tt_ID ts)" unfolding ids by (simp add: distinct_map inj_on_def)
  then have one: "filter (\<lambda>t. tt_ID t = tt_ID (ts ! i)) ts = [ts ! i]" if "i < length xs" for i
    using that by (intro filter_unique) (simp_all add: ts_def)
  have docs: "w_redis w' (tx_sharded_task_key j (m + 1 + int i)) = Some (RS (TxDoc (ts ! i)))"
    if "i < length xs" for i
  proof -
    have "tt_ID (ts ! i) = m + 1 + int i" using that by (simp add: ts_def new_tx_tasks_nth)
    with one [OF that] show ?thesis unfolding task by (simp add: rrun_Cons)
  qed
  have other: "w_redis w' (tx_sharded_task_key j i) = w_redis w (tx_sharded_task_key j i)"
    if "i \<le> m \<or> m + int (length xs) < i" for i
  proof -
    have "i \<notin> set (map tt_ID ts)" unfolding ids using that by auto
    then have "filter (\<lambda>t. tt_ID t = i) ts = []" by (auto simp: filter_empty_conv)
    then show ?thesis unfolding task by simp
  qed
  have "counter_at (tx_max_id_key j) (w_redis w') = Some (m + int (length xs))"
    unfolding w'(2) counter_at_def sharded_cmds_max_id by simp
  then show ?thesis using w'(1) docs other by (auto simp: ts_def new_tx_tasks_nth)
qed

theorem add_sharded_fresh_ids_witness:
  "\<exists>w'. AddTransferTasksToJob svc_ref 3 wit_tx_inputs wit_tx_world = (w', 2, True)
    \<and> counter_at (tx_max_id_key 3) (w_redis w') = Some 2"
proof -
  have x: "take 2 wit_tx_inputs = fresh_inputs 3 wit_tx_world wit_tx_inputs"
    by (simp add: wit_tx_world_facts)
  have "length (take 2 wit_tx_inputs) = 2" "take 2 wit_tx_inputs \<noteq> []"
    by (simp_all add: wit_tx_inputs_def)
  with add_sharded_fresh_ids [OF _ wit_tx_world_facts(1-3) x, of svc_ref] show ?thesis by auto
qed

section \<open>Buffers\<close>

lemma tx_buffer_lens [simp]:
  "get_tx_buffer j (set_tx_buffer j ch w) = Some ch"
  "get_tx_buffer j (w\<lparr>w_redis := db\<rparr>) = get_tx_buffer j w"
  "w_redis (set_tx_buffer j ch w) = w_redis w"
  by (simp_all add: get_tx_buffer_def set_tx_buffer_def)

interpretation tx_filler: offset_filler "tx_lock_key j" "tx_offset_key j" "tx_job_key j" "''tx:task:''"
    TxFetchBatchSize unmarshal_tx tt_Status "get_tx_buffer j" "set_tx_buffer j" for j :: int
  by unfold_locales (simp_all add: key_defs)

lemma fillLegacy_fill: "fillLeagcyTxJobBuffer S j = tx_filler.fill j S"
  by (simp add: fillLeagcyTxJobBuffer_def)

text \<open>The buffer of a legacy transfer job hands every pending task of the scanned prefix out once
and in order, whatever the order of refills and workers.\<close>

lemma legacy_tx_buffer_delivers_exactly_once:
  assumes "redis_up (rx S)" "get_tx_buffer j w = Some []" "w_redis w (tx_lock_key j) = None"
    and "w_redis w (tx_offset_key j) = None" "zs_of (w_redis w (tx_job_key j)) \<noteq> None"
  shows "\<exists>k ch w' d. buf_run (fillLeagcyTxJobBuffer S j) (get_tx_buffer j) (set_tx_buffer j) es (w, [])
       = (w', d)
     \<and> get_tx_buffer j w' = Some ch \<and> offset_at (tx_offset_key j) (w_redis w') = int k
     \<and> d @ ch = pending_docs unmarshal_tx tt_Status
                  (take k (job_items (tx_job_key j) ''tx:task:'' (w_redis w)))"
proof -
  have "tx_filler.ready j (job_items (tx_job_key j) ''tx:task:'' (w_redis w)) 0 [] w"
    using assms by (simp add: tx_filler.ready_def offset_at_def)
  from tx_filler.run_delivers_prefix [OF assms(1) this, of "[]" es] show ?thesis
    unfolding fillLegacy_fill tx_filler.ready_def by auto
qed

text \<open>
  The sharded fill moves its offset past a pending task that finds the channel full: the task is
  neither in the channel nor above the offset.
\<close>

lemma sharded_push_skips_task:
  assumes "redis_up (rx S)" "get_tx_buffer j w = Some ch" "length ch = BufferSize"
    and "w_redis w (tx_sharded_task_key j i) = Some (RS (TxDoc t))" "tt_Status t = ''PENDING''"
    and "0 \<le> last0" "last0 < i"
  shows "get_tx_buffer j (sharded_push S j last0 [itoa i] w) = Some ch
    \<and> w_redis (sharded_push S j last0 [itoa i] w) (tx_offset_key j) = Some (RS (Num i))"
  using assms
  by (simp add: sharded_push_def redis_do_up redis_set_def str_of_def ensureTxBuffer_def key_defs)

text \<open>
  A refill that finds nothing above the offset in Redis reads the pending rows of the database, also
  those whose tasks wait in the channel, and puts them there again.
\<close>

definition dup_world :: world where
  "dup_world = (let t = TransferTask0\<lparr>tt_ID := 1, tt_JobID := 3, tt_Src := ''a'', tt_Status := ''PENDING''\<rparr>
     in world0\<lparr>w_redis := [tx_bucket_key 3 0 \<mapsto> RZ [(1, itoa 1)], tx_max_id_key 3 \<mapsto> RS (Num 1),
          tx_sharded_task_key 3 1 \<mapsto> RS (TxDoc t)],
        w_txTasks := [t], w_jobShardingMode := [3 \<mapsto> True]\<rparr>)"

lemma sharded_fill_twice_duplicates:
  "map_option (map tt_ID) (get_tx_buffer 3 (fillTxJobBuffer svc_ref 3 dup_world)) = Some [1]"
  "map_option (map tt_ID) (get_tx_buffer 3
     (fillTxJobBuffer svc_ref 3 (fillTxJobBuffer svc_ref 3 dup_world))) = Some [1, 1]"
  by code_simp+

text \<open>
  Sharded jobs number their tasks from 1 each and the table has one primary key: the second job's
  rows are dropped.
\<close>

lemma sharded_rows_collide:
  "(let x = \<lparr>ti_Src = ''a'', ti_Size = 1\<rparr>;
        w1 = fst (AddTransferTasksToJob svc_ref 3 [x] world0);
        w2 = fst (AddTransferTasksToJob svc_ref 4 [x] w1)
    in map (\<lambda>t. (tt_JobID t, tt_ID t)) (w_txTasks w2) = [(3, 1)])"
  by code_simp

end
