(* ===== verification/TransferWorkFacts.thy ===== *)
theory TransferWorkFacts
  imports TransferAddFacts "HOL-Library.Multiset"
begin

text \<open>
  Properties of \<^verbatim>\<open>AcquireTransferTasks\<close> and \<^verbatim>\<open>markTransferTasksRunning\<close>: the rounds over the job
  buffers neither lose nor duplicate a task and keep every job to its share; what is handed out is
  RUNNING, here and in Redis.
\<close>

section \<open>Channels as multisets\<close>

definition waiting :: "(int \<times> 't list) list \<Rightarrow> 't multiset" where
  "waiting xs = sum_list (map (\<lambda>p. mset (snd p)) xs)"

lemma waiting_aset:
  "distinct (map fst xs) \<Longrightarrow> map_of xs j = Some ch \<Longrightarrow>
     waiting (aset j ch' xs) + mset ch = waiting xs + mset ch'"
proof (induction j ch' xs rule: aset.induct)
  case (2 k v k' v' xs)
  then show ?case
    by (cases "k = k'") (auto simp: waiting_def add.commute add.left_commute add.assoc)
qed simp

definition buffers_ok :: "world \<Rightarrow> bool" where
  "buffers_ok w \<longleftrightarrow> distinct (map fst (w_txJobBuffers w))
     \<and> (\<forall>j ch. get_tx_buffer j w = Some ch \<longrightarrow> length ch \<le> BufferSize \<and> (\<forall>t \<in> set ch. tt_JobID t = j))"

lemma buffers_okD:
  assumes "buffers_ok w" "get_tx_buffer j w = Some ch"
  shows "length ch \<le> BufferSize" "\<forall>t \<in> set ch. tt_JobID t = j"
  using assms by (simp_all add: buffers_ok_def)

lemma set_tx_buffer_ok:
  assumes "buffers_ok w" "length ch \<le> BufferSize" "\<forall>t \<in> set ch. tt_JobID t = j"
  shows "buffers_ok (set_tx_buffer j ch w)"
  using assms by (auto simp: buffers_ok_def set_tx_buffer_def get_tx_buffer_def split: if_splits)

lemma trigger_frame [simp]:
  "w_txJobBuffers (triggerTxRefill j w) = w_txJobBuffers w"
  "w_redis (triggerTxRefill j w) = w_redis w"
  by (simp_all add: triggerTxRefill_def spawn_def)

lemma buffers_ok_cong: "w_txJobBuffers w' = w_txJobBuffers w \<Longrightarrow> buffers_ok w' = buffers_ok w"
  by (simp add: buffers_ok_def get_tx_buffer_def)

lemma ensure_ok: "buffers_ok w \<Longrightarrow> buffers_ok (ensureTxBuffer j w)"
  by (simp add: ensureTxBuffer_def set_tx_buffer_ok)

lemma waiting_ensure [simp]: "waiting (w_txJobBuffers (ensureTxBuffer j w)) = waiting (w_txJobBuffers w)"
proof -
  have "waiting (aset j [] xs) = waiting xs" if "map_of xs j = None" for xs :: "(int \<times> transfer_task list) list"
    using that by (induction xs) (auto simp: waiting_def split: if_splits)
  then show ?thesis
    by (simp add: ensureTxBuffer_def set_tx_buffer_def get_tx_buffer_def)
qed

section \<open>One take\<close>

definition is_large :: "transfer_task \<Rightarrow> bool" where
  "is_large t = (tt_Size t \<ge> LargeFileThresholdBytes)"

definition taken_of :: "int \<Rightarrow> transfer_task list \<Rightarrow> nat" where
  "taken_of j ts = length (filter (\<lambda>t. tt_JobID t = j) ts)"

definition large_of :: "int \<Rightarrow> transfer_task list \<Rightarrow> nat" where
  "large_of j ts = length (filter (\<lambda>t. tt_JobID t = j \<and> is_large t) ts)"

lemma taken_append [simp]: "taken_of j (xs @ ys) = taken_of j xs + taken_of j ys"
  by (simp add: taken_of_def)

lemma large_append [simp]: "large_of j (xs @ ys) = large_of j xs + large_of j ys"
  by (simp add: large_of_def)

text \<open>The large tasks counted are the large tasks taken, and no job is over its share of them.\<close>

definition larges_ok :: "nat \<Rightarrow> transfer_task list \<Rightarrow> large_counts \<Rightarrow> bool" where
  "larges_ok maxLarge tasks larges \<longleftrightarrow>
     (\<forall>j. large_count j larges = large_of j tasks \<and> large_of j tasks \<le> maxLarge)"

lemma large_count_aset [simp]:
  "large_count j (aset k n c) = (if j = k then n else large_count j c)"
  by (simp add: large_count_def)

lemma take_one_spec:
  assumes "buffers_ok w" "get_tx_buffer jid w = Some ch" "larges_ok maxLarge tasks larges"
    and "take_one maxLarge jid ch w tasks larges = (w', tasks', larges')"
  shows "buffers_ok w' \<and> larges_ok maxLarge tasks' larges'
    \<and> mset tasks' + waiting (w_txJobBuffers w') = mset tasks + waiting (w_txJobBuffers w)
    \<and> (\<exists>new. tasks' = tasks @ new \<and> length new \<le> 1 \<and> (\<forall>t \<in> set new. tt_JobID t = jid))"
proof (cases ch)
  case Nil
  with assms show ?thesis by (auto simp: take_one_def)
next
  case (Cons t ch')
  have own: "tt_JobID t = jid" "\<forall>t \<in> set ch'. tt_JobID t = jid" "length ch' < BufferSize"
    using buffers_okD [OF assms(1,2)] Cons by simp_all
  have dist: "distinct (map fst (w_txJobBuffers w))" "map_of (w_txJobBuffers w) jid = Some (t # ch')"
    using assms(1,2) Cons by (auto simp: buffers_ok_def get_tx_buffer_def)
  have outset: "add_mset t (waiting (w_txJobBuffers (set_tx_buffer jid ch' w))) = waiting (w_txJobBuffers w)"
    and backset: "waiting (w_txJobBuffers (set_tx_buffer jid (ch' @ [t]) w)) = waiting (w_txJobBuffers w)"
    using waiting_aset [OF dist, of ch'] waiting_aset [OF dist, of "ch' @ [t]"]
    by (simp_all add: set_tx_buffer_def add.commute)
  have ok1: "buffers_ok (set_tx_buffer jid ch' w)" "buffers_ok (set_tx_buffer jid (ch' @ [t]) w)"
    using own by (auto intro!: set_tx_buffer_ok [OF assms(1)])
  show ?thesis
  proof (cases "is_large t")
    case True
    show ?thesis
    proof (cases "large_count jid larges \<ge> maxLarge")
      case full: True
      then show ?thesis
        using assms(3,4) Cons True own(3) ok1(2) backset by (auto simp: take_one_def is_large_def)
    next
      case False
      then have eq: "w' = set_tx_buffer jid ch' w" "tasks' = tasks @ [t]"
        "larges' = aset jid (Suc (large_count jid larges)) larges"
        using assms(4) Cons True by (auto simp: take_one_def is_large_def)
      have "larges_ok maxLarge tasks' larges'"
        using assms(3) False own(1) True eq by (auto simp: larges_ok_def large_of_def)
      then show ?thesis using eq ok1(1) own(1) outset by auto
    qed
  next
    case False
    then have eq: "w' = set_tx_buffer jid ch' w" "tasks' = tasks @ [t]" "larges' = larges"
      using assms(4) Cons by (auto simp: take_one_def is_large_def)
    then have "larges_ok maxLarge tasks' larges'"
      using assms(3) False by (auto simp: larges_ok_def large_of_def)
    then show ?thesis using eq ok1(1) own(1) outset by auto
  qed
qed

section \<open>Rounds\<close>

lemma acquire_round_spec:
  assumes "buffers_ok w" "larges_ok maxLarge tasks larges" "length tasks \<le> limit" "distinct jids"
    and "acquire_round limit maxLarge jids w tasks larges = (w', tasks', larges')"
  shows "buffers_ok w' \<and> larges_ok maxLarge tasks' larges' \<and> length tasks' \<le> limit
    \<and> mset tasks' + waiting (w_txJobBuffers w') = mset tasks + waiting (w_txJobBuffers w)
    \<and> (\<forall>j. taken_of j tasks' \<le> taken_of j tasks + (if j \<in> set jids then 1 else 0))"
  using assms
proof (induction jids arbitrary: w tasks larges)
  case (Cons jid jids)
  show ?case
  proof (cases "length tasks \<ge> limit")
    case True
    with Cons.prems show ?thesis by auto
  next
    case lim: False
    show ?thesis
    proof (cases "get_tx_buffer jid w")
      case None
      let ?w = "triggerTxRefill jid (ensureTxBuffer jid w)"
      have ok: "buffers_ok ?w"
        using ensure_ok [OF Cons.prems(1)] buffers_ok_cong [OF trigger_frame(1)] by blast
      have "acquire_round limit maxLarge jids ?w tasks larges = (w', tasks', larges')"
        using Cons.prems(5) None lim by simp
      from Cons.IH [OF ok Cons.prems(2,3) _ this] Cons.prems(4) show ?thesis
        by (auto intro: order_trans)
    next
      case (Some ch)
      define w1 where "w1 = (if length ch < BufferLowWater then triggerTxRefill jid w else w)"
      have same: "w_txJobBuffers w1 = w_txJobBuffers w" by (simp add: w1_def)
      have b1: "buffers_ok w1" using Cons.prems(1) buffers_ok_cong [OF same] by simp
      have g1: "get_tx_buffer jid w1 = Some ch" using Some same by (simp add: get_tx_buffer_def)
      obtain w2 tasks2 larges2 where t: "take_one maxLarge jid ch w1 tasks larges = (w2, tasks2, larges2)"
        by (cases "take_one maxLarge jid ch w1 tasks larges")
      note one = take_one_spec [OF b1 g1 Cons.prems(2) t]
      then obtain new where new: "tasks2 = tasks @ new" "length new \<le> 1" "\<forall>t \<in> set new. tt_JobID t = jid"
        by blast
      have len: "length tasks2 \<le> limit" using new lim by simp
      have "acquire_round limit maxLarge jids w2 tasks2 larges2 = (w', tasks', larges')"
        using Cons.prems(5) Some lim t by (simp add: w1_def [symmetric])
      from Cons.IH [OF _ _ len _ this] one Cons.prems(4) have ih: "buffers_ok w'"
        "larges_ok maxLarge tasks' larges'" "length tasks' \<le> limit"
        "mset tasks' + waiting (w_txJobBuffers w') = mset tasks2 + waiting (w_txJobBuffers w2)"
        "\<And>j. taken_of j tasks' \<le> taken_of j tasks2 + (if j \<in> set jids then 1 else 0)" by auto
      have n: "taken_of j new \<le> (if j = jid then 1 else 0)" for j
        using new(2,3) length_filter_le [of "\<lambda>t. tt_JobID t = j" new]
        by (auto simp: taken_of_def filter_empty_conv)
      have "taken_of j tasks' \<le> taken_of j tasks + (if j \<in> set (jid # jids) then 1 else 0)" for j
        using ih(5) [of j] n [of j] new(1) Cons.prems(4)
        by (cases "j = jid"; cases "j \<in> set jids") simp_all
      then show ?thesis using ih(1-4) one same by auto
    qed
  qed
qed auto

lemma acquire_rounds_spec:
  assumes "buffers_ok w" "larges_ok maxLarge tasks larges" "length tasks \<le> limit" "distinct jids"
    and "acquire_rounds n limit maxLarge jids w tasks larges = (w', tasks')"
  shows "buffers_ok w' \<and> length tasks' \<le> limit
    \<and> mset tasks' + waiting (w_txJobBuffers w') = mset tasks + waiting (w_txJobBuffers w)
    \<and> (\<forall>j. taken_of j tasks' \<le> taken_of j tasks + n \<and> large_of j tasks' \<le> maxLarge)"
  using assms
proof (induction n arbitrary: w tasks larges)
  case 0
  then show ?case by (auto simp: larges_ok_def)
next
  case (Suc n)
  show ?case
  proof (cases "length tasks \<ge> limit")
    case True
    with Suc.prems show ?thesis by (auto simp: larges_ok_def)
  next
    case False
    obtain w1 tasks1 larges1 where r: "acquire_round limit maxLarge jids w tasks larges = (w1, tasks1, larges1)"
      by (cases "acquire_round limit maxLarge jids w tasks larges")
    note one = acquire_round_spec [OF Suc.prems(1-4) r]
    have "acquire_rounds n limit maxLarge jids w1 tasks1 larges1 = (w', tasks')"
      using Suc.prems(5) False r by simp
    from Suc.IH [OF _ _ _ Suc.prems(4) this] one have ih: "buffers_ok w'" "length tasks' \<le> limit"
      "mset tasks' + waiting (w_txJobBuffers w') = mset tasks1 + waiting (w_txJobBuffers w1)"
      "\<And>j. taken_of j tasks' \<le> taken_of j tasks1 + n \<and> large_of j tasks' \<le> maxLarge" by auto
    have "taken_of j tasks1 \<le> taken_of j tasks + 1" for j
    proof -
      have "taken_of j tasks1 \<le> taken_of j tasks + (if j \<in> set jids then 1 else 0)" using one by blast
      then show ?thesis by (auto split: if_splits)
    qed
    then have "taken_of j tasks' \<le> taken_of j tasks + Suc n" for j
      using ih(4) [of j] by (metis add_Suc_right add_Suc_shift add_le_mono1 Suc_eq_plus1 order_trans)
    then show ?thesis using ih one by auto
  qed
qed

section \<open>Marking\<close>

text \<open>The key of a task is the same throughout a request.\<close>

definition tx_key_of :: "svc \<Rightarrow> world \<Rightarrow> transfer_task \<Rightarrow> string" where
  "tx_key_of S w t = snd (getTxTaskKey S (tt_JobID t) (tt_ID t) w)"

definition same_modes :: "svc \<Rightarrow> world \<Rightarrow> world \<Rightarrow> bool" where
  "same_modes S w w' \<longleftrightarrow> w_redis w' = w_redis w \<and> w_now w' = w_now w
     \<and> w_txJobBuffers w' = w_txJobBuffers w \<and> tx_key_of S w' = tx_key_of S w"

lemma same_modes_refl [simp]: "same_modes S w w"
  by (simp add: same_modes_def)

lemma same_modes_trans: "same_modes S w w' \<Longrightarrow> same_modes S w' w'' \<Longrightarrow> same_modes S w w''"
  by (simp add: same_modes_def)

lemma isJobSharded_up:
  assumes "redis_up (rx S)"
  shows "isJobSharded S j w =
    (case w_jobShardingMode w j of
       Some v \<Rightarrow> (w, v)
     | None \<Rightarrow> (w\<lparr>w_jobShardingMode := (w_jobShardingMode w)(j \<mapsto> w_redis w (tx_job_key j) = None)\<rparr>,
                w_redis w (tx_job_key j) = None))"
  by (cases "w_redis w (tx_job_key j)")
    (auto simp: isJobSharded_def redis_do_up [OF assms] split: option.split)

lemma getTxTaskKey_same:
  assumes "redis_up (rx S)"
  shows "same_modes S w (fst (getTxTaskKey S j i w))"
proof -
  have "snd (isJobSharded S j' (fst (isJobSharded S j w))) = snd (isJobSharded S j' w)" for j'
    by (auto simp: isJobSharded_up [OF assms] split: option.split)
  then have "tx_key_of S (fst (isJobSharded S j w)) = tx_key_of S w"
    by (intro ext) (simp add: tx_key_of_def getTxTaskKey_def split_beta)
  then show ?thesis
    by (simp add: same_modes_def getTxTaskKey_def split_beta isJobSharded_up [OF assms] split: option.split)
qed

lemma tx_rows_same:
  assumes "redis_up (rx S)"
  shows "same_modes S w (w\<lparr>w_txTasks := rows\<rparr>)"
proof -
  have "tx_key_of S (w\<lparr>w_txTasks := rows\<rparr>) = tx_key_of S w"
    by (intro ext) (auto simp: tx_key_of_def getTxTaskKey_def split_beta isJobSharded_up [OF assms]
        split: option.split)
  then show ?thesis by (simp add: same_modes_def)
qed

lemma mark_loop_spec:
  assumes "svc_up S" "\<forall>t \<in> set ts. tt_Status t = ''PENDING''"
  shows "\<exists>w'. mark_loop S wk ts w cmds dn = (w', Some
      (cmds @ map (\<lambda>t. SET (tx_key_of S w t) (TxDoc (running_task (w_now w) wk t))) ts,
       dn @ map (running_task (w_now w) wk) ts)) \<and> same_modes S w w'"
  using assms(2)
proof (induction ts arbitrary: w cmds dn)
  case (Cons t ts)
  have up: "redis_up (rx S)" using assms(1) by (simp add: svc_up_def)
  let ?t = "running_task (w_now w) wk t"
  define w1 where "w1 = (fst (getTxTaskKey S (tt_JobID t) (tt_ID t) w))
    \<lparr>w_txTasks := upsert_running (w_now w) ?t (w_txTasks (fst (getTxTaskKey S (tt_JobID t) (tt_ID t) w)))\<rparr>"
  have v: "same_modes S w w1"
    unfolding w1_def by (rule same_modes_trans [OF getTxTaskKey_same [OF up] tx_rows_same [OF up]])
  have ids: "tt_JobID ?t = tt_JobID t" "tt_ID ?t = tt_ID t" by (simp_all add: running_task_def)
  have step: "mark_loop S wk (t # ts) w cmds dn =
      mark_loop S wk ts w1 (cmds @ [SET (tx_key_of S w t) (TxDoc ?t)]) (dn @ [?t])"
    using Cons.prems svc_upD(2) [OF assms(1)]
    by (simp add: ids split_beta Let_def w1_def tx_key_of_def)
  have pend: "\<forall>t \<in> set ts. tt_Status t = ''PENDING''" using Cons.prems by simp
  from Cons.IH [OF pend, of w1 "cmds @ [SET (tx_key_of S w t) (TxDoc ?t)]" "dn @ [?t]"]
  obtain w' where "mark_loop S wk ts w1 (cmds @ [SET (tx_key_of S w t) (TxDoc ?t)]) (dn @ [?t]) =
      (w', Some ((cmds @ [SET (tx_key_of S w t) (TxDoc ?t)])
          @ map (\<lambda>t. SET (tx_key_of S w t) (TxDoc (running_task (w_now w) wk t))) ts,
        (dn @ [?t]) @ map (running_task (w_now w) wk) ts))" "same_modes S w1 w'"
    using v by (auto simp: same_modes_def)
  then show ?case unfolding step using same_modes_trans [OF v] by auto
qed auto

lemma promote_frame [simp]:
  "w_redis (promoteTransferJobToRunning S j w) = w_redis w"
  "w_txJobBuffers (promoteTransferJobToRunning S j w) = w_txJobBuffers w"
  by (simp_all add: promoteTransferJobToRunning_def)

lemma fold_promote_frame [simp]:
  "w_redis (fold (promoteTransferJobToRunning S) js w) = w_redis w"
  "w_txJobBuffers (fold (promoteTransferJobToRunning S) js w) = w_txJobBuffers w"
  by (induction js arbitrary: w) simp_all

lemma set_pipe_ok: "\<not> pipe_failed (snd (rpipe redis_ref db (map (\<lambda>t. SET (f t) (g t)) ts)))"
  by (auto simp: rpipe_sets pipe_failed_def)

lemma mark_running_spec:
  assumes "svc_up S" "\<forall>t \<in> set ts. tt_Status t = ''PENDING''"
  shows "\<exists>w'. markTransferTasksRunning S ts wk w = (w', Some (map (running_task (w_now w) wk) ts))
    \<and> w_txJobBuffers w' = w_txJobBuffers w
    \<and> w_redis w' = rrun redis_ref (w_redis w)
        (map (\<lambda>t. SET (tx_key_of S w t) (TxDoc (running_task (w_now w) wk t))) ts)"
proof (cases "ts = []")
  case True
  then show ?thesis by (simp add: markTransferTasksRunning_def)
next
  case False
  have up: "redis_up (rx S)" using assms(1) by (simp add: svc_up_def)
  from mark_loop_spec [OF assms, of wk w "[]" "[]"] obtain w1 where
    "mark_loop S wk ts w [] [] = (w1, Some
      (map (\<lambda>t. SET (tx_key_of S w t) (TxDoc (running_task (w_now w) wk t))) ts,
       map (running_task (w_now w) wk) ts))" "same_modes S w w1" by auto
  with False show ?thesis
    by (simp add: markTransferTasksRunning_def redis_pipe_up [OF up] set_pipe_ok same_modes_def Let_def)
qed

lemma tx_key_distinct:
  assumes "redis_up (rx S)" "tt_ID t \<noteq> tt_ID u"
  shows "tx_key_of S w t \<noteq> tx_key_of S w u"
  using assms(2) by (auto simp: tx_key_of_def getTxTaskKey_def split_beta key_defs)

lemma rrun_sets_distinct:
  assumes "distinct (map f ts)" "t \<in> set ts"
  shows "rrun redis_ref db (map (\<lambda>t. SET (f t) (g t)) ts) (f t) = Some (RS (g t))"
proof -
  have "filter (\<lambda>c. f t \<in> cmd_keys c) (map (\<lambda>t. SET (f t) (g t)) ts)
      = map (\<lambda>t. SET (f t) (g t)) (filter (\<lambda>u. f u = f t) ts)"
    by (simp add: filter_map comp_def eq_commute)
  also have "\<dots> = [SET (f t) (g t)]" using filter_unique [OF assms] by simp
  finally show ?thesis by (subst rrun_filter) (simp add: rrun_Cons)
qed

section \<open>Properties\<close>

text \<open>C18: The rounds of an acquire request over several job buffers lose no task and hand none out
twice; they keep to the limit, take at most one task per round from each job, and at most the job's
share of large files.\<close>

theorem acquire_rounds_fair:
  assumes "buffers_ok w" "distinct order" "acquire_rounds n limit maxLarge order w [] [] = (w', ts)"
  shows "length ts \<le> limit \<and> mset ts + waiting (w_txJobBuffers w') = waiting (w_txJobBuffers w)
    \<and> (\<forall>j. taken_of j ts \<le> n \<and> large_of j ts \<le> maxLarge)"
  using acquire_rounds_spec [of w maxLarge "[]" "[]" limit order n w' ts] assms
  by (simp add: larges_ok_def large_of_def large_count_def taken_of_def)

definition wit_pending_tx :: "int \<Rightarrow> int \<Rightarrow> transfer_task" where
  "wit_pending_tx j i = TransferTask0\<lparr>tt_ID := i, tt_JobID := j, tt_Status := ''PENDING''\<rparr>"

definition wit_two_jobs :: world where
  "wit_two_jobs = world0\<lparr>w_txJobBuffers := [(3, [wit_pending_tx 3 1]), (4, [wit_pending_tx 4 2])]\<rparr>"

lemma wit_two_jobs_ok: "buffers_ok wit_two_jobs"
  by (simp add: buffers_ok_def wit_two_jobs_def get_tx_buffer_def wit_pending_tx_def)

theorem acquire_rounds_fair_witness:
  "(let ts = snd (acquire_rounds 1 2 1 [4, 3] wit_two_jobs [] [])
    in length ts \<le> 2 \<and> taken_of 3 ts \<le> 1 \<and> taken_of 4 ts \<le> 1)"
  using acquire_rounds_fair [OF wit_two_jobs_ok, of "[4, 3]" 1 2 1]
  by (cases "acquire_rounds 1 2 1 [4, 3] wit_two_jobs [] []") auto

text \<open>Tasks that a transfer worker acquires are RUNNING under its name, in the answer and, for
distinct identifiers, in Redis under each task's own key; the answer is the whole batch in order.\<close>

theorem mark_running_stored:
  assumes "svc_up S" "\<forall>t \<in> set ts. tt_Status t = ''PENDING''" "distinct (map tt_ID ts)"
  shows "\<exists>w'. markTransferTasksRunning S ts wk w = (w', Some (map (running_task (w_now w) wk) ts))
    \<and> (\<forall>t \<in> set ts. w_redis w' (tx_key_of S w t) = Some (RS (TxDoc (running_task (w_now w) wk t)))
         \<and> tt_Status (running_task (w_now w) wk t) = ''RUNNING''
         \<and> tt_WorkerID (running_task (w_now w) wk t) = wk)"
proof -
  have up: "redis_up (rx S)" using assms(1) by (simp add: svc_up_def)
  obtain w' where w': "markTransferTasksRunning S ts wk w = (w', Some (map (running_task (w_now w) wk) ts))"
    "w_redis w' = rrun redis_ref (w_redis w)
      (map (\<lambda>t. SET (tx_key_of S w t) (TxDoc (running_task (w_now w) wk t))) ts)"
    using mark_running_spec [OF assms(1,2)] by blast
  have "distinct (map (tx_key_of S w) ts)"
    using assms(3) tx_key_distinct [OF up] unfolding distinct_map inj_on_def by metis
  then show ?thesis
    using w' rrun_sets_distinct [where f = "tx_key_of S w" and ts = ts]
    by (auto simp: running_task_def)
qed

theorem mark_running_stored_witness:
  "\<exists>w'. markTransferTasksRunning svc_ref [wit_pending_tx 3 1] ''w1'' wit_two_jobs
      = (w', Some [running_task 1 ''w1'' (wit_pending_tx 3 1)])"
  using mark_running_stored [of svc_ref "[wit_pending_tx 3 1]" "''w1''" wit_two_jobs]
  by (auto simp: wit_pending_tx_def wit_two_jobs_def world0_def)

end
