(* ===== verification/FfmpegTasks.thy ===== *)
theory FfmpegTasks
  imports TransferWorkFacts
begin

text \<open>
  The ffmpeg half of \<^verbatim>\<open>task_handler.go\<close>: adding tasks, the prefetch buffer (a third copy of the
  routine of \<^verbatim>\<open>OffsetBuffer\<close>), the acquire endpoint and the batch update with its counters.
\<close>

section \<open>Adding tasks\<close>

definition number_ff :: "time \<Rightarrow> int \<Rightarrow> int \<Rightarrow> ffmpeg_task list \<Rightarrow> ffmpeg_task list" where
  "number_ff now jobID startID tasks =
     map (\<lambda>(i, t). t\<lparr>ft_ID := startID + int i, ft_JobID := jobID, ft_CreatedAt := now,
                    ft_UpdatedAt := now\<rparr>) (enumerate 0 tasks)"

definition add_ff_cmds :: "int \<Rightarrow> ffmpeg_task list \<Rightarrow> redis_cmd list" where
  "add_ff_cmds jobID tasks = concat (map (\<lambda>t.
     [SET (ff_task_key (ft_ID t)) (FfDoc t),
      ZADD (ff_job_key jobID) [(ft_ID t, itoa (ft_ID t))]]) tasks)"

definition ff_bytes :: "ffmpeg_task \<Rightarrow> int" where
  "ff_bytes t = (if ft_VideoSize t > 0 then ft_VideoSize t else 0)
     + (if ft_AudioSize t > 0 then ft_AudioSize t else 0)"

definition AddFfmpegTasksToJob ::
  "svc \<Rightarrow> int \<Rightarrow> ffmpeg_task list \<Rightarrow> world \<Rightarrow> world \<times> nat \<times> bool" where
  "AddFfmpegTasksToJob S jobID tasks w =
     (if tasks = [] then (w, 0, True)
      else (let (w1, r) = redis_do S (ZREVRANGE (ff_job_key jobID) 0 0) w;
                (w2, rs) = redis_pipe S
                   (add_ff_cmds jobID (number_ff (w_now w) jobID (next_task_id jobID r) tasks)) w1;
                total = sum_list (map ff_bytes tasks)
            in if pipe_failed rs then (w2, 0, False)
               else ((if total > 0 \<and> \<not> dbErr S ''ffmpeg_jobs.total_size'' jobID
                      then w2\<lparr>w_ffJobs := update_where (\<lambda>j. fj_ID j = jobID)
                             (\<lambda>j. j\<lparr>fj_TotalSizeBytes := fj_TotalSizeBytes j + total\<rparr>) (w_ffJobs w2)\<rparr>
                      else w2), length tasks, True)))"

section \<open>Buffers\<close>

definition get_ff_buffer :: "int \<Rightarrow> world \<Rightarrow> ffmpeg_task list option" where
  "get_ff_buffer j w = map_of (w_ffmpegJobBuffers w) j"

definition set_ff_buffer :: "int \<Rightarrow> ffmpeg_task list \<Rightarrow> world \<Rightarrow> world" where
  "set_ff_buffer j ch w = w\<lparr>w_ffmpegJobBuffers := aset j ch (w_ffmpegJobBuffers w)\<rparr>"

definition ensureFfmpegBuffer :: "int \<Rightarrow> world \<Rightarrow> world" where
  "ensureFfmpegBuffer jobID w =
     (if get_ff_buffer jobID w = None then set_ff_buffer jobID [] w else w)"

definition ff_fill_key :: "int \<Rightarrow> fill_key" where
  "ff_fill_key jobID = FillKey (''ff:'' @ itoa jobID)"

definition triggerFfmpegRefill :: "int \<Rightarrow> world \<Rightarrow> world" where
  "triggerFfmpegRefill jobID w =
     (if filling (ff_fill_key jobID) w then w
      else spawn (GoFillFf jobID) (store_filling (ff_fill_key jobID) w))"

definition fillFfmpegJobBuffer :: "svc \<Rightarrow> int \<Rightarrow> world \<Rightarrow> world" where
  "fillFfmpegJobBuffer S jobID =
     offset_fill S (ff_lock_key jobID) (ff_offset_key jobID) (ff_job_key jobID) ''ff:task:''
       FetchBatchSize unmarshal_ff ft_Status (get_ff_buffer jobID) (set_ff_buffer jobID)"

definition reset_stuck_ff :: "svc \<Rightarrow> int \<Rightarrow> world \<Rightarrow> world" where
  "reset_stuck_ff S jid w =
     (let (w1, r) = redis_do S (ZCARD (ff_job_key jid)) w;
          total = (case r of RInt n \<Rightarrow> n | _ \<Rightarrow> 0);
          (w2, o1) = redis_do S (GET (ff_offset_key jid)) w1
      in if total > 0 \<and> scan_num o1 \<ge> total
         then redis_set S (SET (ff_offset_key jid) (Num 0)) w2 else w2)"

definition check_refill_ff :: "svc \<Rightarrow> ffmpeg_job \<Rightarrow> world \<Rightarrow> world" where
  "check_refill_ff S job w =
     (let jid = fj_ID job; w1 = ensureFfmpegBuffer jid w
      in case get_ff_buffer jid w1 of
           None \<Rightarrow> w1
         | Some ch \<Rightarrow>
             (let w2 = (if fj_PendingCount job > 0 \<and> ch = [] \<and> \<not> filling (ff_fill_key jid) w1
                        then reset_stuck_ff S jid w1 else w1)
              in if length ch < BufferLowWater then triggerFfmpegRefill jid w2 else w2))"

definition checkAndRefillFfmpegBuffers :: "svc \<Rightarrow> world \<Rightarrow> world" where
  "checkAndRefillFfmpegBuffers S w =
     (if dbErr S ''ffmpeg_jobs.active'' 0 then w
      else fold (check_refill_ff S)
             (filter (\<lambda>j. fj_Status j \<in> {StatusPending, StatusRunning}) (w_ffJobs w)) w)"

section \<open>Acquiring\<close>

record ff_acquire_request =
  fa_WorkerID :: string
  fa_Limit :: int

text \<open>
  The drain of one channel, with the loop condition of the source: it runs while the answer is
  \<^emph>\<open>at least\<close> as long as the limit.
\<close>

fun drain_ff :: "nat \<Rightarrow> ffmpeg_task list \<Rightarrow> ffmpeg_task list \<Rightarrow> ffmpeg_task list \<times> ffmpeg_task list" where
  "drain_ff limit [] tasks = ([], tasks)"
| "drain_ff limit (t # ch) tasks =
     (if length tasks \<ge> limit then drain_ff limit ch (tasks @ [t]) else (t # ch, tasks))"

fun acquire_ff :: "nat \<Rightarrow> int list \<Rightarrow> world \<Rightarrow> ffmpeg_task list \<Rightarrow> world \<times> ffmpeg_task list" where
  "acquire_ff limit [] w tasks = (w, tasks)"
| "acquire_ff limit (jid # jids) w tasks =
     (if length tasks \<ge> limit then (w, tasks)
      else case get_ff_buffer jid w of
             None \<Rightarrow> acquire_ff limit jids w tasks
           | Some ch \<Rightarrow>
               (let w1 = (if length ch < BufferLowWater then triggerFfmpegRefill jid w else w);
                    (ch', tasks') = drain_ff limit ch tasks
                in acquire_ff limit jids (set_ff_buffer jid ch' w1) tasks'))"

text \<open>With buffers, the handler returns without writing a response: status 200, no body.\<close>

definition AcquireFfmpegTasks ::
  "int list \<Rightarrow> ff_acquire_request option \<Rightarrow> world \<Rightarrow> world \<times> response" where
  "AcquireFfmpegTasks jobIDs req w =
     (case req of
        None \<Rightarrow> (w, StatusBadRequest, BError ''bind'')
      | Some q \<Rightarrow>
          if jobIDs = [] then (w, StatusOK, BFfTasks [])
          else (fst (acquire_ff (nat (if fa_Limit q \<le> 0 then 1 else fa_Limit q)) jobIDs w []),
                StatusOK, BNone))"

section \<open>Batch update\<close>

definition has_progress :: "ffmpeg_task \<Rightarrow> bool" where
  "has_progress u = (ft_TotalCount u > 0 \<or> ft_SuccessCount u > 0 \<or> ft_FailedCount u > 0)"

definition progress_job :: "time \<Rightarrow> ffmpeg_task \<Rightarrow> ffmpeg_job \<Rightarrow> ffmpeg_job" where
  "progress_job now u j =
     j\<lparr>fj_TotalCount := max (fj_TotalCount j) (ft_TotalCount u),
       fj_SuccessCount := ft_SuccessCount u, fj_FailedCount := ft_FailedCount u,
       fj_PendingCount := max 0 (ft_TotalCount u - (ft_SuccessCount u + ft_FailedCount u)),
       fj_Status := ft_Status u, fj_UpdatedAt := now\<rparr>"

text \<open>The change of one counter: a status that is none of the four moves nothing.\<close>

definition move :: "status \<Rightarrow> status \<Rightarrow> status \<Rightarrow> int" where
  "move b old new = (if new = b then 1 else 0) - (if old = b then 1 else 0)"

definition delta_job :: "time \<Rightarrow> status \<Rightarrow> status \<Rightarrow> ffmpeg_job \<Rightarrow> ffmpeg_job" where
  "delta_job now old new j =
     j\<lparr>fj_PendingCount := fj_PendingCount j + move ''PENDING'' old new,
       fj_RunningCount := fj_RunningCount j + move ''RUNNING'' old new,
       fj_SuccessCount := fj_SuccessCount j + move ''COMPLETED'' old new,
       fj_FailedCount := fj_FailedCount j + move ''FAILED'' old new,
       fj_Status := new, fj_UpdatedAt := now\<rparr>"

text \<open>The stored task takes the status and the times of the report, and nothing else of it.\<close>

definition merge_ff :: "time \<Rightarrow> ffmpeg_task \<Rightarrow> ffmpeg_task \<Rightarrow> ffmpeg_task" where
  "merge_ff now u e =
     e\<lparr>ft_Status := ft_Status u, ft_UpdatedAt := now,
       ft_StartedAt := (if ft_Status u = ''RUNNING'' \<and> ft_StartedAt e = 0 then now else ft_StartedAt e),
       ft_CompletedAt := (if (ft_Status u = ''COMPLETED'' \<or> ft_Status u = ''FAILED'')
                             \<and> ft_CompletedAt e = 0 then now else ft_CompletedAt e)\<rparr>"

definition sync_ff_job :: "svc \<Rightarrow> ffmpeg_task \<Rightarrow> ffmpeg_task \<Rightarrow> world \<Rightarrow> world" where
  "sync_ff_job S u e w =
     (if dbErr S ''ffmpeg_jobs.progress'' (ft_JobID e) then w
      else if has_progress u
      then w\<lparr>w_ffJobs := update_where (\<lambda>j. fj_ID j = ft_JobID e) (progress_job (w_now w) u) (w_ffJobs w)\<rparr>
      else if ft_Status e \<noteq> ft_Status u
      then w\<lparr>w_ffJobs := update_where (\<lambda>j. fj_ID j = ft_JobID e)
             (delta_job (w_now w) (ft_Status e) (ft_Status u)) (w_ffJobs w)\<rparr>
      else w)"

definition update_ff ::
  "svc \<Rightarrow> ffmpeg_task \<Rightarrow> rstr option \<Rightarrow> world \<times> redis_cmd list \<times> (int \<times> int) list
     \<Rightarrow> world \<times> redis_cmd list \<times> (int \<times> int) list" where
  "update_ff S u val acc =
     (case acc of (w, cmds, sizes) \<Rightarrow>
        (case Option.bind val unmarshal_ff of
           None \<Rightarrow> acc
         | Some e \<Rightarrow>
             (sync_ff_job S u e w,
              cmds @ [SET (ff_task_key (ft_ID e)) (FfDoc (merge_ff (w_now w) u e))],
              if ft_Status e \<noteq> ''COMPLETED'' \<and> ft_Status u = ''COMPLETED'' \<and> ff_bytes e > 0
              then add_bytes (ft_JobID e) (ff_bytes e) sizes else sizes)))"

fun update_ff_all ::
  "svc \<Rightarrow> ffmpeg_task list \<Rightarrow> rstr option list \<Rightarrow> world \<times> redis_cmd list \<times> (int \<times> int) list
     \<Rightarrow> world \<times> redis_cmd list \<times> (int \<times> int) list" where
  "update_ff_all S (u # us) (v # vs) acc = update_ff_all S us vs (update_ff S u v acc)"
| "update_ff_all S _ _ acc = acc"

definition add_ff_success :: "svc \<Rightarrow> int \<times> int \<Rightarrow> world \<Rightarrow> world" where
  "add_ff_success S p w =
     (case p of (j, n) \<Rightarrow>
        if n > 0 \<and> \<not> dbErr S ''ffmpeg_jobs.success_size'' j
        then w\<lparr>w_ffJobs := update_where (\<lambda>r. fj_ID r = j)
                 (\<lambda>r. r\<lparr>fj_SuccessSizeBytes := fj_SuccessSizeBytes r + n\<rparr>) (w_ffJobs w)\<rparr>
        else w)"

definition BatchUpdateFfmpeg :: "svc \<Rightarrow> ffmpeg_task list option \<Rightarrow> world \<Rightarrow> world \<times> response" where
  "BatchUpdateFfmpeg S req w =
     (case req of
        None \<Rightarrow> (w, StatusBadRequest, BError ''bind'')
      | Some updates \<Rightarrow>
          if updates = [] then (w, StatusOK, BStatus ''no updates'')
          else (let (w1, r) = redis_do S (MGET (map (\<lambda>u. ff_task_key (ft_ID u)) updates)) w
                in case r of
                     RVals vals \<Rightarrow>
                       (let (w2, cmds, sizes) = update_ff_all S updates vals (w1, [], []);
                            (w3, rs) = redis_pipe S cmds w2
                        in if pipe_failed rs then (w3, StatusInternalServerError, BError ''pipe'')
                           else (fold (add_ff_success S) sizes w3, StatusOK, BStatus ''updated''))
                   | _ \<Rightarrow> (w1, StatusInternalServerError,
                           BError ''Failed to fetch existing tasks: '')))"

section \<open>Facts\<close>

lemma ff_buffer_lens [simp]:
  "get_ff_buffer j (set_ff_buffer j ch w) = Some ch"
  "get_ff_buffer j (w\<lparr>w_redis := db\<rparr>) = get_ff_buffer j w"
  "w_redis (set_ff_buffer j ch w) = w_redis w"
  by (simp_all add: get_ff_buffer_def set_ff_buffer_def)

interpretation ff_filler: offset_filler "ff_lock_key j" "ff_offset_key j" "ff_job_key j" "''ff:task:''"
    FetchBatchSize unmarshal_ff ft_Status "get_ff_buffer j" "set_ff_buffer j" for j :: int
  by unfold_locales (simp_all add: key_defs)

lemma drain_ff_none: "0 < limit \<Longrightarrow> drain_ff limit ch [] = (ch, [])"
  by (cases ch) simp_all

lemma get_set_ff_buffer:
  "get_ff_buffer i (set_ff_buffer j ch w) = (if i = j then Some ch else get_ff_buffer i w)"
  by (simp add: get_ff_buffer_def set_ff_buffer_def)

lemma get_ff_buffer_trigger [simp]:
  "get_ff_buffer j (triggerFfmpegRefill i w) = get_ff_buffer j w"
  by (simp add: triggerFfmpegRefill_def spawn_def get_ff_buffer_def)

lemma acquire_ff_none:
  assumes "0 < limit"
  shows "snd (acquire_ff limit jids w []) = []
    \<and> get_ff_buffer j (fst (acquire_ff limit jids w [])) = get_ff_buffer j w"
proof (induction jids arbitrary: w)
  case (Cons jid jids)
  show ?case
  proof (cases "get_ff_buffer jid w")
    case None
    then show ?thesis using Cons assms by simp
  next
    case (Some ch)
    then show ?thesis
      using Cons assms by (auto simp: drain_ff_none get_set_ff_buffer)
  qed
qed (use assms in simp)

text \<open>The ffmpeg acquire endpoint hands out nothing: whatever waits in the buffers, a request
takes no task from any channel, and its answer carries no task.\<close>

theorem AcquireFfmpegTasks_hands_out_nothing:
  "get_ff_buffer j (fst (AcquireFfmpegTasks jobIDs req w)) = get_ff_buffer j w
   \<and> snd (snd (AcquireFfmpegTasks jobIDs req w)) \<in> {BError ''bind'', BFfTasks [], BNone}"
  using acquire_ff_none [of _ jobIDs w j]
  by (auto simp: AcquireFfmpegTasks_def split: option.split)

text \<open>One ffmpeg status report without progress counts moves the job's counters by the task: the
four counters change by the same total when both statuses are counted ones, and the job takes the
status of the task.\<close>

theorem delta_job_conserves:
  assumes "old \<in> {''PENDING'', ''RUNNING'', ''COMPLETED'', ''FAILED''}"
    and "new \<in> {''PENDING'', ''RUNNING'', ''COMPLETED'', ''FAILED''}"
  shows "(let j' = delta_job now old new j in
      fj_PendingCount j' + fj_RunningCount j' + fj_SuccessCount j' + fj_FailedCount j'
        = fj_PendingCount j + fj_RunningCount j + fj_SuccessCount j + fj_FailedCount j
      \<and> fj_Status j' = new
      \<and> (old = new \<longrightarrow> fj_PendingCount j' = fj_PendingCount j \<and> fj_RunningCount j' = fj_RunningCount j))"
  using assms by (auto simp: delta_job_def move_def Let_def)

theorem delta_job_conserves_witness:
  "fj_RunningCount (delta_job 5 ''PENDING'' ''RUNNING'' (FfmpegJob0\<lparr>fj_PendingCount := 1\<rparr>)) = 1
   \<and> fj_Status (delta_job 5 ''PENDING'' ''RUNNING'' (FfmpegJob0\<lparr>fj_PendingCount := 1\<rparr>)) = ''RUNNING''"
  using delta_job_conserves [of "''PENDING''" "''RUNNING''" 5 "FfmpegJob0\<lparr>fj_PendingCount := 1\<rparr>"]
  by (simp add: delta_job_def move_def FfmpegJob0_def)

text \<open>
  The retry of a failed ffmpeg task stores it as PENDING but leaves the job's read offset: refills
  after it do not reach the task.
\<close>

definition ff_failed_world :: world where
  "ff_failed_world = world0\<lparr>w_redis := [ff_job_key 3 \<mapsto> RZ [(7, itoa 7)],
     ff_task_key 7 \<mapsto> RS (FfDoc (FfmpegTask0\<lparr>ft_ID := 7, ft_JobID := 3, ft_Status := ''FAILED''\<rparr>)),
     ff_offset_key 3 \<mapsto> RS (Num 1)], w_ffmpegJobBuffers := [(3, [])]\<rparr>"

lemma ff_retry_not_rescanned:
  "map_option (\<lambda>w. (get_ff_buffer 3 (fillFfmpegJobBuffer svc_ref 3 w),
       case w_redis w (ff_task_key 7) of Some (RS (FfDoc t)) \<Rightarrow> ft_Status t | _ \<Rightarrow> []))
     (RetryFfmpegTasksLogic 2 svc_ref 3 ''FAILED'' ff_failed_world) = Some (Some [], ''PENDING'')"
  by code_simp

end
