(* ===== verification/TransferJobs.thy ===== *)
theory TransferJobs
  imports FfmpegTasks
begin

text \<open>
  The transfer-job handlers of \<^verbatim>\<open>job_handler.go\<close>: creating, starting, stopping and deleting a
  job, the status reports of the scanner with the idle-scan counter of incremental jobs, and the
  cleanup of a job's Redis keys. A path parameter is the integer it names. \<^verbatim>\<open>DB.Create\<close> of a row
  with a zero key takes its key from the sequence of the table, here the argument \<open>newID\<close>.
  \<^verbatim>\<open>Model(&job).Updates(map)\<close> changes the row and writes the same values into the Go struct
  \<^verbatim>\<open>job\<close>, so that the code after it sees the new status. The \<^verbatim>\<open>updated_at\<close> column GORM stamps on
  a job row is kept only where the code itself names it: no handler reads it.
\<close>

section \<open>Creating and reading\<close>

definition task_count :: "int \<Rightarrow> status list \<Rightarrow> transfer_task list \<Rightarrow> int" where
  "task_count jobID ss rows =
     int (length (filter (\<lambda>t. tt_JobID t = jobID \<and> tt_Status t \<in> set ss) rows))"

record transfer_task_counts =
  tc_Total :: int
  tc_Pending :: int
  tc_Running :: int
  tc_Success :: int
  tc_Failed :: int

definition count_rows :: "int \<Rightarrow> transfer_task list \<Rightarrow> transfer_task_counts" where
  "count_rows jobID rows =
     \<lparr>tc_Total = int (length (filter (\<lambda>t. tt_JobID t = jobID) rows)),
      tc_Pending = task_count jobID [''PENDING''] rows,
      tc_Running = task_count jobID [''RUNNING''] rows,
      tc_Success = task_count jobID [''COMPLETED''] rows,
      tc_Failed = task_count jobID [''FAILED''] rows\<rparr>"

definition getTransferTaskCounts :: "svc \<Rightarrow> int \<Rightarrow> world \<Rightarrow> transfer_task_counts option" where
  "getTransferTaskCounts S jobID w =
     (if dbErr S ''transfer_tasks.counts'' jobID then None else Some (count_rows jobID (w_txTasks w)))"

record create_transfer_job_request =
  ct_Job :: transfer_job
  ct_Tasks :: "string list"

definition new_transfer_job :: "int \<Rightarrow> time \<Rightarrow> transfer_job \<Rightarrow> transfer_job" where
  "new_transfer_job newID now j =
     j\<lparr>tj_JobID := (if tj_JobID j = 0 then newID else tj_JobID j),
       tj_Status := StatusPending,
       tj_PeriodicInterval := (if tj_IsIncremental j \<and> tj_PeriodicInterval j \<le> 0 then 600
                               else tj_PeriodicInterval j),
       tj_TotalCount := 0, tj_PendingCount := 0,
       tj_CreatedAt := (if tj_CreatedAt j = 0 then now else tj_CreatedAt j),
       tj_UpdatedAt := (if tj_UpdatedAt j = 0 then now else tj_UpdatedAt j)\<rparr>"

definition CreateTransferJob ::
  "svc \<Rightarrow> int \<Rightarrow> create_transfer_job_request option \<Rightarrow> world \<Rightarrow> world \<times> response" where
  "CreateTransferJob S newID req w =
     (case req of
        None \<Rightarrow> (w, StatusBadRequest, BError ''bind'')
      | Some q \<Rightarrow>
          (let job = new_transfer_job newID (w_now w) (ct_Job q)
           in if dbErr S ''transfer_jobs.create'' (tj_JobID job)
                 \<or> find_row tj_JobID (tj_JobID job) (w_txJobs w) \<noteq> None
              then (w, StatusInternalServerError, BError ''create'')
              else (let w1 = w\<lparr>w_txJobs := w_txJobs w @ [job]\<rparr>
                    in (if ct_Tasks q \<noteq> [] then spawn (GoAddTxTasks (tj_JobID job) (ct_Tasks q)) w1
                        else w1, StatusCreated, BTxJob job))))"

definition with_counts :: "transfer_task_counts \<Rightarrow> transfer_job \<Rightarrow> transfer_job" where
  "with_counts c j =
     j\<lparr>tj_TotalCount := tc_Total c, tj_PendingCount := tc_Pending c, tj_RunningCount := tc_Running c,
       tj_SuccessCount := tc_Success c, tj_FailedCount := tc_Failed c\<rparr>"

definition first_tx_job :: "svc \<Rightarrow> int \<Rightarrow> world \<Rightarrow> transfer_job option" where
  "first_tx_job S jid w =
     (if dbErr S ''transfer_jobs.first'' jid then None else find_row tj_JobID jid (w_txJobs w))"

text \<open>A failed count query leaves the Go variable at zero.\<close>

definition GetTransferJob :: "svc \<Rightarrow> int \<Rightarrow> world \<Rightarrow> response" where
  "GetTransferJob S jid w =
     (case first_tx_job S jid w of
        None \<Rightarrow> (StatusNotFound, BError ''Job not found'')
      | Some j \<Rightarrow>
          (StatusOK, BTxJob (with_counts
             (if dbErr S ''transfer_tasks.job_counts'' jid then \<lparr>tc_Total = 0, tc_Pending = 0,
                  tc_Running = 0, tc_Success = 0, tc_Failed = 0\<rparr>
              else count_rows jid (w_txTasks w)) j)))"

section \<open>Starting, stopping and retrying\<close>

definition restarted :: "transfer_job \<Rightarrow> transfer_job" where
  "restarted j =
     j\<lparr>tj_Status := StatusPending, tj_StartTime := None, tj_EndTime := None, tj_DurationSeconds := 0,
       tj_ConsecutiveIdleScans := 0, tj_ResultMessage := [],
       tj_LastScanTime := (if tj_IsIncremental j then None else tj_LastScanTime j),
       tj_LastScannedKey := (if tj_IsIncremental j then None else tj_LastScannedKey j)\<rparr>"

definition update_tx_job :: "int \<Rightarrow> (transfer_job \<Rightarrow> transfer_job) \<Rightarrow> world \<Rightarrow> world" where
  "update_tx_job jid f w =
     w\<lparr>w_txJobs := update_where (\<lambda>j. tj_JobID j = jid) f (w_txJobs w)\<rparr>"

definition StartTransferJob :: "svc \<Rightarrow> int \<Rightarrow> world \<Rightarrow> world \<times> response" where
  "StartTransferJob S jid w =
     (case first_tx_job S jid w of
        None \<Rightarrow> (w, StatusNotFound, BError ''Job not found'')
      | Some job0 \<Rightarrow>
          if dbErr S ''transfer_jobs.restart'' jid
          then (w, StatusInternalServerError, BError ''restart'')
          else
            (let job = restarted job0; w1 = update_tx_job jid restarted w;
                 refill = (triggerTxRefill jid (ensureTxBuffer jid w1), StatusOK, BTxJob job)
             in if tj_IsIncremental job then refill
                else (case getTransferTaskCounts S jid w1 of
                        None \<Rightarrow> (w1, StatusInternalServerError,
                                 BError ''Failed to inspect transfer tasks: '')
                      | Some c \<Rightarrow>
                          if tc_Total c > 0 \<and> tc_Pending c = 0 \<and> tc_Running c = 0
                          then (spawn (GoRetryTx jid (tj_Status job)) w1, StatusOK, BTxJob job)
                          else refill)))"

text \<open>\<^verbatim>\<open>Save\<close> writes the row that was read back with the new status.\<close>

definition StopTransferJob :: "svc \<Rightarrow> int \<Rightarrow> world \<Rightarrow> world \<times> response" where
  "StopTransferJob S jid w =
     (case first_tx_job S jid w of
        None \<Rightarrow> (w, StatusNotFound, BError ''Job not found'')
      | Some job0 \<Rightarrow>
          (let job = job0\<lparr>tj_Status := StatusStopped\<rparr>
           in if dbErr S ''transfer_jobs.save'' jid then (w, StatusInternalServerError, BError ''save'')
              else (update_tx_job jid (\<lambda>_. job) w, StatusOK, BTxJob job)))"

definition scan_due :: "time \<Rightarrow> int \<Rightarrow> time option \<Rightarrow> bool" where
  "scan_due now interval last_scan =
     (interval > 0 \<and> (case last_scan of None \<Rightarrow> True | Some t \<Rightarrow> t < now - interval * 1000000000))"

definition ListPendingTransferJobs :: "svc \<Rightarrow> world \<Rightarrow> response" where
  "ListPendingTransferJobs S w =
     (if dbErr S ''transfer_jobs.pending'' 0 then (StatusInternalServerError, BError ''list'')
      else (StatusOK, BTxJobs (filter (\<lambda>j. tj_Status j = StatusPending
              \<or> (tj_Status j = StatusRunning \<or> tj_Status j = StatusPhasedCompleted)
                 \<and> scan_due (w_now w) (tj_PeriodicInterval j) (tj_LastScanTime j)) (w_txJobs w))))"

definition RetryFailedTransferTasks :: "svc \<Rightarrow> int \<Rightarrow> world \<Rightarrow> world \<times> response" where
  "RetryFailedTransferTasks S jid w =
     (case first_tx_job S jid w of
        None \<Rightarrow> (w, StatusNotFound, BError ''Job not found'')
      | Some job \<Rightarrow> (spawn (GoRetryTx jid (tj_Status job)) w, StatusOK,
                    BMessage ''Retry initiated in background''))"

section \<open>Status reports\<close>

record update_job_request =
  uj_Status :: status
  uj_LastScanTime :: "time option"
  uj_LastScannedKey :: "string option"
  uj_ResultMessage :: string
  uj_IncSuccess :: int
  uj_IncFailed :: int
  uj_IncSuccessBytes :: int
  uj_StartTime :: "time option"
  uj_EndTime :: "time option"
  uj_TotalCount :: "int option"
  uj_IncExecution :: bool
  uj_ScanDiscoveredCount :: "int option"

abbreviation IncrementalIdleScanThreshold :: int where "IncrementalIdleScanThreshold \<equiv> 2"

definition has_updates :: "update_job_request \<Rightarrow> bool" where
  "has_updates q = (uj_Status q \<noteq> [] \<or> uj_LastScanTime q \<noteq> None \<or> uj_LastScannedKey q \<noteq> None
     \<or> uj_ResultMessage q \<noteq> [] \<or> uj_StartTime q \<noteq> None \<or> uj_TotalCount q \<noteq> None
     \<or> uj_EndTime q \<noteq> None)"

text \<open>\<^verbatim>\<open>int(end.Sub(start).Seconds())\<close> truncates towards zero; a zero start time gives no duration.\<close>

definition report_start :: "update_job_request \<Rightarrow> transfer_job \<Rightarrow> time" where
  "report_start q j = (case uj_StartTime q of Some t \<Rightarrow> t
     | None \<Rightarrow> (case tj_StartTime j of Some t \<Rightarrow> t | None \<Rightarrow> 0))"

definition or_else :: "'a option \<Rightarrow> 'a option \<Rightarrow> 'a option" where
  "or_else a b = (case a of Some x \<Rightarrow> Some x | None \<Rightarrow> b)"

definition report_updates :: "update_job_request \<Rightarrow> transfer_job \<Rightarrow> transfer_job \<Rightarrow> transfer_job" where
  "report_updates q job j =
     j\<lparr>tj_Status := (if uj_Status q \<noteq> [] then uj_Status q else tj_Status j),
       tj_LastScanTime := or_else (uj_LastScanTime q) (tj_LastScanTime j),
       tj_LastScannedKey := or_else (uj_LastScannedKey q) (tj_LastScannedKey j),
       tj_ResultMessage := (if uj_ResultMessage q \<noteq> [] then uj_ResultMessage q else tj_ResultMessage j),
       tj_StartTime := or_else (uj_StartTime q) (tj_StartTime j),
       tj_TotalCount := (case uj_TotalCount q of Some n \<Rightarrow> n | None \<Rightarrow> tj_TotalCount j),
       tj_EndTime := or_else (uj_EndTime q) (tj_EndTime j),
       tj_DurationSeconds := (case uj_EndTime q of
          Some e \<Rightarrow> if report_start q job \<noteq> 0 then go_div (e - report_start q job) 1000000000
                    else tj_DurationSeconds j
        | None \<Rightarrow> tj_DurationSeconds j)\<rparr>"

definition getTransferJobActivityCounts :: "svc \<Rightarrow> int \<Rightarrow> world \<Rightarrow> (int \<times> int) option" where
  "getTransferJobActivityCounts S jid w =
     (if dbErr S ''transfer_tasks.active_count'' jid \<or> dbErr S ''transfer_tasks.failed_count'' jid
      then None
      else Some (task_count jid [''PENDING'', ''RUNNING''] (w_txTasks w),
                 int (length (filter (\<lambda>t. tt_JobID t = jid \<and> tt_Status t = ''FAILED''
                                        \<and> tt_RetryCount t < 3) (w_txTasks w)))))"

definition set_job_status :: "int \<Rightarrow> status \<Rightarrow> world \<Rightarrow> world" where
  "set_job_status jid s = update_tx_job jid (\<lambda>j. j\<lparr>tj_Status := s\<rparr>)"

text \<open>
  What an executed scan does to the job: \<open>Inr\<close> is the answer of an early return. The struct \<open>job\<close>
  is the one the first \<^verbatim>\<open>Updates\<close> has written to.
\<close>

definition after_scan ::
  "svc \<Rightarrow> int \<Rightarrow> bool \<Rightarrow> transfer_job \<Rightarrow> world \<Rightarrow> world \<times> response option" where
  "after_scan S jid idle job w =
     (if tj_IsIncremental job
      then (if idle
        then (if dbErr S ''transfer_jobs.idle_inc'' jid
          then (w, Some (StatusInternalServerError, BError ''idle''))
          else (let w1 = update_tx_job jid
                  (\<lambda>j. j\<lparr>tj_ConsecutiveIdleScans := tj_ConsecutiveIdleScans j + 1\<rparr>) w
                in case first_tx_job S jid w1 of
                     None \<Rightarrow> (w1, Some (StatusNotFound, BError ''Job not found''))
                   | Some job2 \<Rightarrow>
                       if tj_ConsecutiveIdleScans job2 \<ge> IncrementalIdleScanThreshold
                          \<and> tj_Status job2 \<noteq> StatusStopped \<and> tj_Status job2 \<noteq> StatusFailed
                       then (if dbErr S ''transfer_jobs.phased'' jid
                             then (w1, Some (StatusInternalServerError, BError ''phased''))
                             else (set_job_status jid StatusPhasedCompleted w1, None))
                       else (w1, None)))
        else (if dbErr S ''transfer_jobs.rescan'' jid
          then (w, Some (StatusInternalServerError, BError ''rescan''))
          else (update_tx_job jid
                  (\<lambda>j. j\<lparr>tj_Status := StatusRunning, tj_ConsecutiveIdleScans := 0\<rparr>) w, None)))
      else if idle \<and> tj_Status job = StatusRunning
      then (if dbErr S ''transfer_jobs.completed'' jid
            then (w, Some (StatusInternalServerError, BError ''completed''))
            else (set_job_status jid StatusCompleted w, None))
      else (w, None))"

definition reload_response :: "int \<Rightarrow> transfer_job \<Rightarrow> world \<Rightarrow> response" where
  "reload_response jid job w =
     (StatusOK, BTxJob (case find_row tj_JobID jid (w_txJobs w) of Some j \<Rightarrow> j | None \<Rightarrow> job))"

definition scan_idle :: "update_job_request \<Rightarrow> int \<times> int \<Rightarrow> bool" where
  "scan_idle q c =
     ((case uj_ScanDiscoveredCount q of Some n \<Rightarrow> n | None \<Rightarrow> 0) = 0 \<and> fst c = 0 \<and> snd c = 0)"

definition UpdateTransferJobStatus ::
  "svc \<Rightarrow> int \<Rightarrow> update_job_request option \<Rightarrow> world \<Rightarrow> world \<times> response" where
  "UpdateTransferJobStatus S jid req w =
     (case req of
        None \<Rightarrow> (w, StatusBadRequest, BError ''bind'')
      | Some q \<Rightarrow>
     (case first_tx_job S jid w of
        None \<Rightarrow> (w, StatusNotFound, BError ''Job not found'')
      | Some job0 \<Rightarrow>
          if has_updates q \<and> dbErr S ''transfer_jobs.report'' jid
          then (w, StatusInternalServerError, BError ''report'')
          else
            (let job = (if has_updates q then report_updates q job0 job0 else job0);
                 w1 = (if has_updates q then update_tx_job jid (report_updates q job0) w else w)
             in if \<not> uj_IncExecution q then (w1, reload_response jid job w1)
                else if dbErr S ''transfer_jobs.execution'' jid
                then (w1, StatusInternalServerError, BError ''execution'')
                else
                  (let w2 = update_tx_job jid (\<lambda>j. j\<lparr>tj_ExecutionCount := tj_ExecutionCount j + 1\<rparr>) w1
                   in case getTransferJobActivityCounts S jid w2 of
                        None \<Rightarrow> (w2, StatusInternalServerError, BError ''counts'')
                      | Some c \<Rightarrow>
                          (case after_scan S jid (scan_idle q c) job w2 of
                             (w3, Some r) \<Rightarrow> (w3, r)
                           | (w3, None) \<Rightarrow> (w3, reload_response jid job w3))))))"

section \<open>Deleting and cleanup\<close>

text \<open>\<^verbatim>\<open>UNLINK\<close> removes a key as \<^verbatim>\<open>DEL\<close> does, freeing the memory later.\<close>

definition cleanup_tx_cmds :: "int \<Rightarrow> string list \<Rightarrow> redis_cmd list" where
  "cleanup_tx_cmds jobID taskIDs =
     [DEL [tx_job_key jobID, tx_dedup_key jobID, tx_offset_key jobID, tx_lock_key jobID]]
     @ map (\<lambda>tid. DEL [''tx:task:'' @ itoa jobID @ '':'' @ tid]) taskIDs
     @ map (\<lambda>i. DEL [tx_dedup_shard_key jobID (int i)]) [0..<256]
     @ [DEL [tx_offset_key jobID], DEL [tx_max_id_key jobID]]
     @ map (\<lambda>i. DEL [tx_bucket_key jobID (int i)]) [0..<200]"

definition cleanupTransferJobRedis :: "svc \<Rightarrow> int \<Rightarrow> world \<Rightarrow> world" where
  "cleanupTransferJobRedis S jobID w =
     (let (w1, r) = redis_do S (ZRANGE (tx_job_key jobID) 0 (- 1)) w;
          taskIDs = (case r of RArr ids \<Rightarrow> ids | _ \<Rightarrow> []);
          (w2, rs) = redis_pipe S (cleanup_tx_cmds jobID taskIDs) w1
      in if dbErr S ''transfer_jobs.redis_cleaned'' jobID then w2
         else update_tx_job jobID (\<lambda>j. j\<lparr>tj_RedisCleaned := True\<rparr>) w2)"

definition cleanable :: "transfer_job \<Rightarrow> bool" where
  "cleanable j = (tj_Status j = StatusCompleted \<and> \<not> tj_IsIncremental j
     \<and> tj_SuccessCount j = tj_TotalCount j \<and> \<not> tj_RedisCleaned j)"

definition runCleanup :: "svc \<Rightarrow> world \<Rightarrow> world" where
  "runCleanup S w =
     (if dbErr S ''transfer_jobs.cleanable'' 0 then w
      else fold (\<lambda>j. cleanupTransferJobRedis S (tj_JobID j)) (filter cleanable (w_txJobs w)) w)"

definition DeleteTransferJob :: "svc \<Rightarrow> int \<Rightarrow> world \<Rightarrow> world \<times> response" where
  "DeleteTransferJob S jid w =
     (if dbErr S ''transfer_jobs.delete'' jid then (w, StatusInternalServerError, BError ''delete'')
      else (spawn (GoCleanupTx jid) (w\<lparr>w_txJobs := filter (\<lambda>j. tj_JobID j \<noteq> jid) (w_txJobs w)\<rparr>),
            StatusOK, BStatus ''deleted''))"

definition AddTasksToTransferJob ::
  "svc \<Rightarrow> int option \<Rightarrow> tx_input list option \<Rightarrow> world \<Rightarrow> world \<times> response" where
  "AddTasksToTransferJob S pid req w =
     (case pid of
        None \<Rightarrow> (w, StatusBadRequest, BError ''Invalid Job ID'')
      | Some jid \<Rightarrow>
     (case req of
        None \<Rightarrow> (w, StatusBadRequest, BError ''bind'')
      | Some inputs \<Rightarrow>
     (case first_tx_job S jid w of
        None \<Rightarrow> (w, StatusNotFound, BError ''Job not found'')
      | Some job \<Rightarrow>
          (case AddTransferTasksToJob S jid inputs w of
             (w1, added, ok) \<Rightarrow>
               if \<not> ok then (w1, StatusInternalServerError, BError ''Failed to add tasks: '')
               else ((if added > 0 then triggerTxRefill jid (ensureTxBuffer jid w1) else w1),
                     StatusOK, BAdded (int added) jid)))))"

end
