(* ===== verification/TransferJobFacts.thy ===== *)
theory TransferJobFacts
  imports TransferJobs
begin

text \<open>
  Facts about the transfer-job handlers: the idle-scan counter of incremental jobs against its
  specification over a history of reports, the safety of completion, and what the cleanup of a
  job's Redis keys removes and leaves.
\<close>

section \<open>Job rows after a handler\<close>

lemma find_row_update_tx_job:
  assumes "\<And>j. tj_JobID (f j) = tj_JobID j"
  shows "find_row tj_JobID i (w_txJobs (update_tx_job jid f w)) =
    map_option (\<lambda>j. if tj_JobID j = jid then f j else j) (find_row tj_JobID i (w_txJobs w))"
  by (simp add: update_tx_job_def find_row_update_where assms)

lemma update_tx_job_same [simp]:
  "w_txTasks (update_tx_job jid f w) = w_txTasks w" "w_redis (update_tx_job jid f w) = w_redis w"
  by (simp_all add: update_tx_job_def)

lemma find_row_tx_id: "find_row tj_JobID jid rows = Some j \<Longrightarrow> tj_JobID j = jid"
  by (auto dest: find_row_SomeD)

lemma report_updates_sel [simp]:
  "tj_JobID (report_updates q job j) = tj_JobID j"
  "tj_IsIncremental (report_updates q job j) = tj_IsIncremental j"
  "tj_ConsecutiveIdleScans (report_updates q job j) = tj_ConsecutiveIdleScans j"
  "tj_ExecutionCount (report_updates q job j) = tj_ExecutionCount j"
  "tj_Status (report_updates q job j) = (if uj_Status q \<noteq> [] then uj_Status q else tj_Status j)"
  by (simp_all add: report_updates_def)

lemma task_count_zero:
  "task_count jid ss rows = 0 \<longleftrightarrow> (\<forall>t\<in>set rows. tt_JobID t = jid \<longrightarrow> tt_Status t \<notin> set ss)"
  by (simp add: task_count_def filter_empty_conv)

section \<open>Idle scans\<close>

text \<open>
  A history is a list of scan reports, each with the task table at its time. A report is idle when
  the scan found nothing new and the job has no task that is open or can be retried.
\<close>

type_synonym scan_event = "transfer_task list \<times> update_job_request"

definition open_task :: "transfer_task \<Rightarrow> bool" where
  "open_task t = (tt_Status t \<in> {''PENDING'', ''RUNNING''} \<or> tt_Status t = ''FAILED'' \<and> tt_RetryCount t < 3)"

definition idle_event :: "int \<Rightarrow> scan_event \<Rightarrow> bool" where
  "idle_event jid e =
     ((case uj_ScanDiscoveredCount (snd e) of Some n \<Rightarrow> n | None \<Rightarrow> 0) = 0
      \<and> \<not> list_ex (\<lambda>t. tt_JobID t = jid \<and> open_task t) (fst e))"

definition report_step :: "svc \<Rightarrow> int \<Rightarrow> scan_event \<Rightarrow> world \<Rightarrow> world" where
  "report_step S jid e w = fst (UpdateTransferJobStatus S jid (Some (snd e)) (w\<lparr>w_txTasks := fst e\<rparr>))"

lemma scan_idle_iff:
  assumes "svc_up S" "getTransferJobActivityCounts S jid w = Some c"
  shows "scan_idle q c = idle_event jid (w_txTasks w, q)"
  using assms
  by (auto simp: getTransferJobActivityCounts_def scan_idle_def idle_event_def open_task_def
      task_count_zero filter_empty_conv list_ex_iff svc_upD)

text \<open>The specification: the counter counts the idle reports since the last one that was not.\<close>

definition idle_streak :: "int \<Rightarrow> scan_event list \<Rightarrow> nat" where
  "idle_streak jid evs = length (takeWhile (idle_event jid) (rev evs))"

definition scan_effect :: "bool \<Rightarrow> transfer_job \<Rightarrow> int \<times> status" where
  "scan_effect idle j =
     (if idle
      then (tj_ConsecutiveIdleScans j + 1,
            if tj_ConsecutiveIdleScans j + 1 \<ge> IncrementalIdleScanThreshold
               \<and> tj_Status j \<notin> {StatusStopped, StatusFailed}
            then StatusPhasedCompleted else tj_Status j)
      else (0, StatusRunning))"

lemma after_scan_row:
  assumes "svc_up S" "find_row tj_JobID jid (w_txJobs w) = Some j" "tj_IsIncremental job"
    "tj_IsIncremental j"
  shows "\<exists>w' j'. after_scan S jid idle job w = (w', None)
      \<and> find_row tj_JobID jid (w_txJobs w') = Some j'
      \<and> tj_IsIncremental j' \<and> tj_ExecutionCount j' = tj_ExecutionCount j
      \<and> (tj_ConsecutiveIdleScans j', tj_Status j') = scan_effect idle j"
  using assms find_row_tx_id [OF assms(2)]
  by (cases idle)
    (auto simp: after_scan_def first_tx_job_def svc_upD find_row_update_tx_job scan_effect_def
      set_job_status_def Let_def)

lemma report_step_row:
  assumes up: "svc_up S" and row: "find_row tj_JobID jid (w_txJobs w) = Some j"
    and inc: "tj_IsIncremental j" and q: "uj_IncExecution (snd e)" "uj_Status (snd e) \<in> {[], StatusRunning}"
  shows "\<exists>j'. find_row tj_JobID jid (w_txJobs (report_step S jid e w)) = Some j'
      \<and> tj_IsIncremental j' \<and> tj_ExecutionCount j' = tj_ExecutionCount j + 1
      \<and> (tj_ConsecutiveIdleScans j', tj_Status j') = scan_effect (idle_event jid e)
           (j\<lparr>tj_Status := (if uj_Status (snd e) = [] then tj_Status j else StatusRunning)\<rparr>)"
proof -
  obtain rows r where e: "e = (rows, r)" by (cases e)
  define w0 where "w0 = w\<lparr>w_txTasks := rows\<rparr>"
  define job where "job = (if has_updates r then report_updates r j j else j)"
  define w1 where "w1 = (if has_updates r then update_tx_job jid (report_updates r j) w0 else w0)"
  define w2 where "w2 = update_tx_job jid (\<lambda>j. j\<lparr>tj_ExecutionCount := tj_ExecutionCount j + 1\<rparr>) w1"
  note id = find_row_tx_id [OF row]
  have w1: "find_row tj_JobID jid (w_txJobs w1) = Some job" "w_txTasks w2 = rows"
    using row id by (simp_all add: w1_def w2_def job_def w0_def find_row_update_tx_job)
  have jobf: "tj_JobID job = jid" "tj_IsIncremental job"
    "tj_ConsecutiveIdleScans job = tj_ConsecutiveIdleScans j"
    "tj_Status job = (if uj_Status (snd e) = [] then tj_Status j else StatusRunning)"
    "tj_ExecutionCount job = tj_ExecutionCount j"
    using inc id q e by (auto simp: job_def has_updates_def)
  have w2: "find_row tj_JobID jid (w_txJobs w2) =
      Some (job\<lparr>tj_ExecutionCount := tj_ExecutionCount job + 1\<rparr>)"
    using w1 jobf by (simp add: w2_def find_row_update_tx_job)
  obtain c where c: "getTransferJobActivityCounts S jid w2 = Some c"
    using up by (simp add: getTransferJobActivityCounts_def svc_upD)
  have idle: "scan_idle r c = idle_event jid e"
    using scan_idle_iff [OF up c] w1(2) e by simp
  obtain w' j' where w': "after_scan S jid (scan_idle r c) job w2 = (w', None)"
    and j': "find_row tj_JobID jid (w_txJobs w') = Some j'" "tj_IsIncremental j'"
      "tj_ExecutionCount j' = tj_ExecutionCount j + 1"
      "(tj_ConsecutiveIdleScans j', tj_Status j') = scan_effect (idle_event jid e)
         (j\<lparr>tj_Status := (if uj_Status (snd e) = [] then tj_Status j else StatusRunning)\<rparr>)"
    using after_scan_row [OF up w2 jobf(2), of "scan_idle r c"] jobf idle
    by (auto simp: scan_effect_def)
  have "report_step S jid e w = w'"
    using row q c w' svc_upD(2) [OF up]
    by (cases "has_updates r") (simp_all add: report_step_def UpdateTransferJobStatus_def
        first_tx_job_def Let_def e w0_def job_def w1_def w2_def)
  with j' show ?thesis by blast
qed

lemma idle_streak_snoc:
  "idle_streak jid (evs @ [e]) = (if idle_event jid e then Suc (idle_streak jid evs) else 0)"
  by (simp add: idle_streak_def)

text \<open>C19: An incremental job that is running counts exactly its streak of idle scan reports,
whatever else happens to the task table between them: after any history of reports the counter is
the number of idle reports since the last one that was not idle, the job is PHASEDCOMPLETED when the
streak is two or longer and RUNNING otherwise, and every report has been counted as an execution.\<close>

theorem scan_reports_count_idle_streak:
  assumes "svc_up S" and "find_row tj_JobID jid (w_txJobs w) = Some j" and "tj_IsIncremental j"
    and "tj_Status j = StatusRunning" and "tj_ConsecutiveIdleScans j = 0"
    and "\<forall>e\<in>set evs. uj_IncExecution (snd e) \<and> uj_Status (snd e) \<in> {[], StatusRunning}"
  shows "\<exists>j'. find_row tj_JobID jid (w_txJobs (fold (report_step S jid) evs w)) = Some j'
      \<and> tj_ConsecutiveIdleScans j' = int (idle_streak jid evs)
      \<and> tj_Status j' = (if idle_streak jid evs \<ge> 2 then StatusPhasedCompleted else StatusRunning)
      \<and> tj_ExecutionCount j' = tj_ExecutionCount j + int (length evs)
      \<and> tj_IsIncremental j'"
  using assms(6)
proof (induction evs rule: rev_induct)
  case Nil
  then show ?case using assms by (simp add: idle_streak_def)
next
  case (snoc e evs)
  then obtain j' where j': "find_row tj_JobID jid (w_txJobs (fold (report_step S jid) evs w)) = Some j'"
      "tj_ConsecutiveIdleScans j' = int (idle_streak jid evs)"
      "tj_Status j' = (if idle_streak jid evs \<ge> 2 then StatusPhasedCompleted else StatusRunning)"
      "tj_ExecutionCount j' = tj_ExecutionCount j + int (length evs)" "tj_IsIncremental j'"
    by auto
  have q: "uj_IncExecution (snd e)" "uj_Status (snd e) \<in> {[], StatusRunning}" using snoc.prems by simp_all
  then obtain j'' where "find_row tj_JobID jid
        (w_txJobs (report_step S jid e (fold (report_step S jid) evs w))) = Some j''"
      "tj_IsIncremental j''" "tj_ExecutionCount j'' = tj_ExecutionCount j' + 1"
      "(tj_ConsecutiveIdleScans j'', tj_Status j'') = scan_effect (idle_event jid e)
         (j'\<lparr>tj_Status := (if uj_Status (snd e) = [] then tj_Status j' else StatusRunning)\<rparr>)"
    using report_step_row [OF assms(1) j'(1) j'(5) q] by blast
  then show ?case
    using j'(2-4) by (auto simp: idle_streak_snoc scan_effect_def)
qed

definition report0 :: update_job_request where
  "report0 = \<lparr>uj_Status = [], uj_LastScanTime = None, uj_LastScannedKey = None, uj_ResultMessage = [],
     uj_IncSuccess = 0, uj_IncFailed = 0, uj_IncSuccessBytes = 0, uj_StartTime = None,
     uj_EndTime = None, uj_TotalCount = None, uj_IncExecution = False, uj_ScanDiscoveredCount = None\<rparr>"

definition idle_world :: world where
  "idle_world = world0\<lparr>w_txJobs := [TransferJob0\<lparr>tj_JobID := 4, tj_IsIncremental := True,
     tj_Status := StatusRunning\<rparr>]\<rparr>"

definition scan_report :: "int \<Rightarrow> update_job_request" where
  "scan_report n = report0\<lparr>uj_Status := StatusRunning, uj_IncExecution := True, uj_ScanDiscoveredCount := Some n\<rparr>"

lemma idle_world_row: "find_row tj_JobID 4 (w_txJobs idle_world) =
    Some (TransferJob0\<lparr>tj_JobID := 4, tj_IsIncremental := True, tj_Status := StatusRunning\<rparr>)"
  by (simp add: idle_world_def)

lemma scan_report_sel [simp]:
  "uj_IncExecution (scan_report n)" "uj_Status (scan_report n) = StatusRunning"
  "uj_ScanDiscoveredCount (scan_report n) = Some n"
  by (simp_all add: scan_report_def report0_def)

theorem scan_reports_count_idle_streak_witness:
  "\<exists>j'. find_row tj_JobID 4 (w_txJobs (fold (report_step svc_ref 4)
        [([], scan_report 3), ([], scan_report 0), ([], scan_report 0)] idle_world)) = Some j'
     \<and> tj_ConsecutiveIdleScans j' = 2 \<and> tj_Status j' = StatusPhasedCompleted"
proof -
  let ?evs = "[([], scan_report 3), ([], scan_report 0), ([], scan_report 0)]"
  have streak: "idle_streak 4 ?evs = 2"
    by (simp add: idle_streak_def idle_event_def)
  show ?thesis
    using scan_reports_count_idle_streak [OF svc_up_ref idle_world_row, of ?evs]
    unfolding streak by (auto simp: TransferJob0_def)
qed

text \<open>A stopped job is running again after a scan that was still on its way reports a discovery.\<close>

lemma scan_report_restarts_stopped:
  "(case fst (StopTransferJob svc_ref 4 idle_world) of w \<Rightarrow>
      (map tj_Status (w_txJobs w), map tj_Status (w_txJobs (report_step svc_ref 4 ([], scan_report 1) w))))
   = ([StatusStopped], [StatusRunning])"
  by code_simp

section \<open>Completion\<close>

text \<open>
  \<open>only_status s i P t t'\<close>: a row of the table \<open>t'\<close> that has the status \<open>s\<close> had it in \<open>t\<close>, or \<open>P\<close>
  holds of the row's identifier. Every handler is a composition of such changes.
\<close>

definition new_status_only :: "status \<Rightarrow> (int \<Rightarrow> bool) \<Rightarrow> transfer_job list \<Rightarrow> transfer_job list \<Rightarrow> bool" where
  "new_status_only s P t t' = (\<forall>j'\<in>set t'. tj_Status j' = s \<longrightarrow>
     P (tj_JobID j') \<or> (\<exists>j\<in>set t. tj_JobID j = tj_JobID j' \<and> tj_Status j = s))"

lemma new_status_only_refl [simp]: "new_status_only s P t t"
  by (auto simp: new_status_only_def)

lemma new_status_only_trans:
  "new_status_only s P t u \<Longrightarrow> new_status_only s P u v \<Longrightarrow> new_status_only s P t v"
  unfolding new_status_only_def by metis

lemma new_status_only_update:
  assumes "\<And>j. tj_JobID (f j) = tj_JobID j" "\<And>j. tj_Status (f j) = s \<Longrightarrow> c j \<Longrightarrow> tj_Status j = s \<or> P (tj_JobID j)"
  shows "new_status_only s P t (update_where c f t)"
  unfolding new_status_only_def
proof (intro ballI impI)
  fix j' assume j': "j' \<in> set (update_where c f t)" "tj_Status j' = s"
  then obtain j where j: "j \<in> set t" "j' = (if c j then f j else j)"
    by (auto simp: set_update_where)
  then show "P (tj_JobID j') \<or> (\<exists>j\<in>set t. tj_JobID j = tj_JobID j' \<and> tj_Status j = s)"
    using assms [of j] j'(2) by (cases "c j") auto
qed

lemma new_status_only_tx:
  assumes "\<And>j. tj_JobID (f j) = tj_JobID j" "\<And>j. tj_Status (f j) = s \<Longrightarrow> tj_Status j = s \<or> P jid"
  shows "new_status_only s P (w_txJobs w) (w_txJobs (update_tx_job jid f w))"
  using assms(2) unfolding update_tx_job_def
  by (simp) (rule new_status_only_update, simp add: assms(1), auto)

definition finished_job :: "transfer_task list \<Rightarrow> int \<Rightarrow> bool" where
  "finished_job rows jid = (\<forall>t\<in>set rows. tt_JobID t = jid \<longrightarrow> \<not> open_task t)"

lemma after_scan_completes:
  assumes "idle \<Longrightarrow> P jid"
  shows "new_status_only StatusCompleted P (w_txJobs w)
    (w_txJobs (fst (after_scan S jid idle job w)))"
  using assms
  by (auto simp: after_scan_def set_job_status_def Let_def split: option.split
      intro!: new_status_only_tx intro: new_status_only_trans [OF new_status_only_tx new_status_only_tx])

lemma report_completes:
  "new_status_only StatusCompleted
     (\<lambda>k. finished_job (w_txTasks w) k \<or> uj_Status q = StatusCompleted \<and> k = jid) (w_txJobs w)
     (w_txJobs (fst (UpdateTransferJobStatus S jid (Some q) w)))"
proof -
  let ?P = "\<lambda>k. finished_job (w_txTasks w) k \<or> uj_Status q = StatusCompleted \<and> k = jid"
  let ?N = "\<lambda>u. new_status_only StatusCompleted ?P (w_txJobs w) (w_txJobs u)"
  let ?exec = "update_tx_job jid (\<lambda>j. j\<lparr>tj_ExecutionCount := tj_ExecutionCount j + 1\<rparr>)"
  have rep: "?N (update_tx_job jid (report_updates q job0) w)" for job0
    by (intro new_status_only_tx) (auto split: if_splits)
  have exe: "?N (?exec u)" if "?N u" for u
    using that by (rule new_status_only_trans) (auto intro!: new_status_only_tx)
  have fin: "finished_job (w_txTasks u) jid"
    if "getTransferJobActivityCounts S jid u = Some c" "scan_idle q c" for u c
    using that by (auto simp: getTransferJobActivityCounts_def scan_idle_def finished_job_def
        open_task_def task_count_zero filter_empty_conv split: if_splits)
  have after: "?N v" if u: "?N u" "w_txTasks u = w_txTasks w"
    and c: "getTransferJobActivityCounts S jid u = Some c"
    and v: "after_scan S jid (scan_idle q c) job u = (v, r)" for u v c r job
  proof (rule new_status_only_trans [OF u(1)])
    have "scan_idle q c \<Longrightarrow> ?P jid" using fin [OF c] u(2) by simp
    then show "new_status_only StatusCompleted ?P (w_txJobs u) (w_txJobs v)"
      using after_scan_completes [of "scan_idle q c" ?P jid u S job] v by simp
  qed
  note after1 = after [OF exe [OF new_status_only_refl]] and after2 = after [OF exe [OF rep]]
  show ?thesis
    unfolding UpdateTransferJobStatus_def Let_def
    by (auto split: option.split prod.split intro: rep exe after1 after2)
qed

lemma monitor_completes:
  "new_status_only StatusCompleted (finished_job (w_txTasks w)) (w_txJobs w)
    (w_txJobs (updateCompletedTransferJobs S w))"
  by (auto simp: updateCompletedTransferJobs_def completable_def finished_job_def open_task_def
      list_ex_iff intro!: new_status_only_update)

text \<open>C20: A transfer job that a status report or the monitor turns into COMPLETED, whatever
services fail, has no task row that is pending or running and no failed one with retries left, unless
the report itself names the status COMPLETED for this job: that is written without a look at the
tasks.\<close>

theorem transfer_job_completion_safe:
  assumes "w' = fst (UpdateTransferJobStatus S jid (Some q) w)
      \<or> w' = updateCompletedTransferJobs S w"
    and "j' \<in> set (w_txJobs w')" and "tj_Status j' = StatusCompleted"
    and "\<And>j. j \<in> set (w_txJobs w) \<Longrightarrow> tj_JobID j = tj_JobID j' \<Longrightarrow> tj_Status j \<noteq> StatusCompleted"
    and "t \<in> set (w_txTasks w)" and "tt_JobID t = tj_JobID j'"
  shows "(tt_Status t \<noteq> ''PENDING'' \<and> tt_Status t \<noteq> ''RUNNING''
      \<and> \<not> (tt_Status t = ''FAILED'' \<and> tt_RetryCount t < 3))
    \<or> (w' = fst (UpdateTransferJobStatus S jid (Some q) w) \<and> uj_Status q = StatusCompleted
      \<and> jid = tj_JobID j')"
proof -
  have "finished_job (w_txTasks w) (tj_JobID j')
      \<or> w' = fst (UpdateTransferJobStatus S jid (Some q) w) \<and> uj_Status q = StatusCompleted
        \<and> tj_JobID j' = jid"
    using assms(1)
  proof
    assume w': "w' = fst (UpdateTransferJobStatus S jid (Some q) w)"
    show ?thesis
      using report_completes [of w q jid S] assms(2-4) w' unfolding new_status_only_def by blast
  next
    assume w': "w' = updateCompletedTransferJobs S w"
    show ?thesis
      using monitor_completes [of w S] assms(2-4) w' unfolding new_status_only_def by blast
  qed
  then show ?thesis
    using assms(5,6) by (auto simp: finished_job_def open_task_def)
qed

text \<open>A report with that status completes a job whose task waits.\<close>

lemma report_completes_unfinished:
  "(let w = world0\<lparr>w_txJobs := [TransferJob0\<lparr>tj_JobID := 4, tj_Status := StatusRunning\<rparr>],
            w_txTasks := [TransferTask0\<lparr>tt_ID := 1, tt_JobID := 4, tt_Status := ''PENDING''\<rparr>]\<rparr>
    in map tj_Status (w_txJobs (fst (UpdateTransferJobStatus svc_ref 4
         (Some (report0\<lparr>uj_Status := StatusCompleted\<rparr>)) w)))) = [StatusCompleted]"
  by code_simp

definition done_world :: world where
  "done_world = world0\<lparr>w_txJobs := [TransferJob0\<lparr>tj_JobID := 4, tj_Status := StatusRunning,
     tj_TotalCount := 1\<rparr>],
     w_txTasks := [TransferTask0\<lparr>tt_ID := 1, tt_JobID := 4, tt_Status := ''COMPLETED''\<rparr>]\<rparr>"

theorem transfer_job_completion_safe_witness:
  "map tj_Status (w_txJobs (updateCompletedTransferJobs svc_ref done_world)) = [StatusCompleted]
   \<and> map tt_Status (w_txTasks done_world) \<noteq> [''PENDING'']"
proof -
  let ?t = "TransferTask0\<lparr>tt_ID := 1, tt_JobID := 4, tt_Status := ''COMPLETED''\<rparr>"
  have one: "map tj_Status (w_txJobs (updateCompletedTransferJobs svc_ref done_world)) = [StatusCompleted]"
    by code_simp
  then obtain j where j: "w_txJobs (updateCompletedTransferJobs svc_ref done_world) = [j]"
    "tj_Status j = StatusCompleted" by (auto simp: map_eq_Cons_conv)
  have "map tj_JobID (w_txJobs (updateCompletedTransferJobs svc_ref done_world)) = [4]"
    by code_simp
  with j have "tj_JobID j = 4" by simp
  then have "tt_Status ?t \<noteq> ''PENDING''"
    using transfer_job_completion_safe [of _ svc_ref 0 report0 done_world j ?t, OF disjI2 [OF refl]] j
    by (simp add: done_world_def TransferTask0_def TransferJob0_def report0_def)
  then show ?thesis using one by (simp add: done_world_def)
qed

section \<open>Cleanup\<close>

lemma rrun_dels:
  "rrun redis_ref db (map DEL kss) k = (if k \<in> set (concat kss) then None else db k)"
  by (induction kss arbitrary: db) (auto simp: rrun_Cons foldl_del)

text \<open>The keys a cleanup unlinks, given the members of the legacy index.\<close>

definition cleanup_keys :: "int \<Rightarrow> string list \<Rightarrow> string list list" where
  "cleanup_keys jobID taskIDs =
     [[tx_job_key jobID, tx_dedup_key jobID, tx_offset_key jobID, tx_lock_key jobID]]
     @ map (\<lambda>tid. [''tx:task:'' @ itoa jobID @ '':'' @ tid]) taskIDs
     @ map (\<lambda>i. [tx_dedup_shard_key jobID (int i)]) [0..<256]
     @ [[tx_offset_key jobID], [tx_max_id_key jobID]]
     @ map (\<lambda>i. [tx_bucket_key jobID (int i)]) [0..<200]"

definition index_keys :: "int \<Rightarrow> string set" where
  "index_keys j = {tx_job_key j, tx_dedup_key j, tx_offset_key j, tx_lock_key j, tx_max_id_key j}
     \<union> tx_dedup_shard_key j ` {0..<256} \<union> tx_bucket_key j ` {0..<200}"

lemma image_of_upt: "set (concat (map (\<lambda>i. [f (int i)]) [0..<n])) = f ` {0..<int n}"
  by (simp add: image_image flip: image_int_atLeastLessThan [of 0 n, simplified])

lemma set_cleanup_keys:
  "set (concat (cleanup_keys j ids)) =
     index_keys j \<union> (\<lambda>tid. ''tx:task:'' @ itoa j @ '':'' @ tid) ` set ids"
proof -
  have parts: "set (concat (cleanup_keys j ids)) =
      {tx_job_key j, tx_dedup_key j, tx_offset_key j, tx_lock_key j}
      \<union> (\<lambda>tid. ''tx:task:'' @ itoa j @ '':'' @ tid) ` set ids
      \<union> tx_dedup_shard_key j ` {0..<int 256} \<union> {tx_offset_key j, tx_max_id_key j}
      \<union> tx_bucket_key j ` {0..<int 200}"
    unfolding cleanup_keys_def concat_append set_append image_of_upt
    by (simp only: concat.simps concat_map_singleton set_append list.set set_map append_Nil2
        append_Cons append_Nil Un_assoc)
  show ?thesis unfolding parts index_keys_def by (simp only: of_nat_numeral) blast
qed

lemma cleanup_tx_cmds_dels: "cleanup_tx_cmds jobID taskIDs = map DEL (cleanup_keys jobID taskIDs)"
  by (simp add: cleanup_tx_cmds_def cleanup_keys_def comp_def del: upt_rec_numeral)

definition legacy_members :: "int \<Rightarrow> world \<Rightarrow> string list" where
  "legacy_members j w = (case zs_of (w_redis w (tx_job_key j)) of Some zs \<Rightarrow> map snd zs | None \<Rightarrow> [])"

lemma cleanup_redis:
  assumes "svc_up S"
  shows "w_redis (cleanupTransferJobRedis S j w) k =
    (if k \<in> set (concat (cleanup_keys j (legacy_members j w))) then None else w_redis w k)"
proof -
  have up: "redis_up (rx S)" using assms by (simp add: svc_up_def)
  show ?thesis
    by (auto simp: cleanupTransferJobRedis_def Let_def redis_do_up [OF up] redis_pipe_up [OF up]
        cleanup_tx_cmds_dels rrun_dels legacy_members_def z_slice_all svc_upD(2) [OF assms]
        split: option.split)
qed

lemma task_key_not_cleaned:
  "tx_task_key i \<notin> set (concat (cleanup_keys j ids))"
  unfolding set_cleanup_keys index_keys_def by (auto simp: key_defs)

text \<open>The cleanup of a transfer job removes its index, offset, lock, identifier counter,
deduplication sets and first 200 buckets, keeps every key that is not among those or the documents it
names, and marks the job as cleaned. The documents of legacy tasks are not among them: they are all
kept.\<close>

theorem cleanupTransferJobRedis_effect:
  assumes "svc_up S"
  shows "(\<forall>k\<in>index_keys j. w_redis (cleanupTransferJobRedis S j w) k = None)
    \<and> w_redis (cleanupTransferJobRedis S j w) (tx_task_key i) = w_redis w (tx_task_key i)
    \<and> (tj_JobID r = j \<longrightarrow> r \<in> set (w_txJobs (cleanupTransferJobRedis S j w)) \<longrightarrow> tj_RedisCleaned r)"
proof -
  have "\<exists>u. cleanupTransferJobRedis S j w = update_tx_job j (\<lambda>j. j\<lparr>tj_RedisCleaned := True\<rparr>) u"
    unfolding cleanupTransferJobRedis_def Let_def split_beta svc_upD(2) [OF assms] if_False
    by (rule exI) (rule refl)
  then obtain u where
    u: "cleanupTransferJobRedis S j w = update_tx_job j (\<lambda>j. j\<lparr>tj_RedisCleaned := True\<rparr>) u" ..
  have cleaned: "tj_RedisCleaned r"
    if a: "tj_JobID r = j" "r \<in> set (w_txJobs (cleanupTransferJobRedis S j w))"
  proof -
    obtain r0 where "r = (if tj_JobID r0 = j then r0\<lparr>tj_RedisCleaned := True\<rparr> else r0)"
      using a(2) unfolding u update_tx_job_def by (auto dest: update_where_mem)
    with a(1) show ?thesis by (cases "tj_JobID r0 = j") auto
  qed
  show ?thesis
    unfolding cleanup_redis [OF assms] using cleaned task_key_not_cleaned
    by (simp add: set_cleanup_keys del: set_concat)
qed

definition legacy_world :: world where
  "legacy_world = world0\<lparr>w_redis := [tx_job_key 4 \<mapsto> RZ [(7, itoa 7)], tx_offset_key 4 \<mapsto> RS (Num 1),
     tx_task_key 7 \<mapsto> RS (TxDoc (TransferTask0\<lparr>tt_ID := 7, tt_JobID := 4\<rparr>))],
     w_txJobs := [TransferJob0\<lparr>tj_JobID := 4\<rparr>]\<rparr>"

theorem cleanupTransferJobRedis_effect_witness:
  "w_redis (cleanupTransferJobRedis svc_ref 4 legacy_world) (tx_job_key 4) = None
   \<and> w_redis (cleanupTransferJobRedis svc_ref 4 legacy_world) (tx_task_key 7)
     = Some (RS (TxDoc (TransferTask0\<lparr>tt_ID := 7, tt_JobID := 4\<rparr>)))"
proof -
  have key: "tx_job_key 4 \<in> index_keys 4" unfolding index_keys_def by blast
  have doc: "w_redis legacy_world (tx_task_key 7)
      = Some (RS (TxDoc (TransferTask0\<lparr>tt_ID := 7, tt_JobID := 4\<rparr>)))"
    by (simp add: legacy_world_def key_defs)
  show ?thesis
    using cleanupTransferJobRedis_effect [OF svc_up_ref, of 4 legacy_world 7] key
    unfolding doc by blast
qed

end
