(* ===== verification/TaskUrls.thy ===== *)
theory TaskUrls
  imports GoStrings
begin

text \<open>
  The text side of \<^verbatim>\<open>job_handler.go\<close>: splitting an upload into candidates, trimming them,
  recognising YouTube URLs and bare video identifiers, and classifying error messages. Strings are
  byte lists and the classes of characters are the ASCII ones; the two regular expressions are
  case-insensitive on ASCII letters. The facts give the round trip of a repaired URL and the safety of
  a validated list.
\<close>

section \<open>Candidates\<close>

definition is_separator :: "char \<Rightarrow> bool" where
  "is_separator c = (c \<in> {CHR 0x0A, CHR 0x0D, CHR 0x09, CHR '' '', CHR '','', CHR '';'', CHR ''|''})"

text \<open>\<^verbatim>\<open>strings.FieldsFunc\<close>: the maximal runs of other characters. The accumulator is reversed.\<close>

fun fields_from :: "(char \<Rightarrow> bool) \<Rightarrow> string \<Rightarrow> string \<Rightarrow> string list" where
  "fields_from sep acc [] = (if acc = [] then [] else [rev acc])"
| "fields_from sep acc (c # s) =
     (if sep c then (if acc = [] then [] else [rev acc]) @ fields_from sep [] s
      else fields_from sep (c # acc) s)"

definition splitTaskCandidates :: "string \<Rightarrow> string list" where
  "splitTaskCandidates line = fields_from is_separator [] line"

definition is_quote :: "char \<Rightarrow> bool" where
  "is_quote c = (c \<in> {CHR 0x60, CHR 0x22, CHR 0x27})"

definition sanitizeTaskCandidate :: "string \<Rightarrow> string" where
  "sanitizeTaskCandidate s = trim_by is_space (trim_by is_quote (trim_by is_space s))"

section \<open>URLs\<close>

definition id_char :: "char \<Rightarrow> bool" where
  "id_char c = (let n = (of_char c :: nat) in
     48 \<le> n \<and> n \<le> 57 \<or> 65 \<le> n \<and> n \<le> 90 \<or> 97 \<le> n \<and> n \<le> 122 \<or> c = CHR ''_'' \<or> c = CHR ''-'')"

text \<open>\<open>strip_ci l s\<close>: the rest of \<open>s\<close> behind the lower-case literal \<open>l\<close>, letters compared without case.\<close>

fun strip_ci :: "string \<Rightarrow> string \<Rightarrow> string option" where
  "strip_ci [] s = Some s"
| "strip_ci (l # ls) [] = None"
| "strip_ci (l # ls) (c # s) = (if to_lower c = l then strip_ci ls s else None)"

fun strip_first :: "string list \<Rightarrow> string \<Rightarrow> string option" where
  "strip_first [] s = None"
| "strip_first (l # ls) s = (case strip_ci l s of Some r \<Rightarrow> Some r | None \<Rightarrow> strip_first ls s)"

definition optional :: "string list \<Rightarrow> string \<Rightarrow> string" where
  "optional ls s = (case strip_first ls s of Some r \<Rightarrow> r | None \<Rightarrow> s)"

definition url_hosts :: "string list" where
  "url_hosts = [''youtube.com/watch?v='', ''youtu.be/'', ''youtube.com/embed/'', ''m.youtube.com/watch?v='']"

definition re_space :: "char \<Rightarrow> bool" where
  "re_space c = ((of_char c :: nat) \<in> {9, 10, 12, 13, 32})"

text \<open>
  \<^verbatim>\<open>youtubeURLPattern\<close>: an optional scheme, an optional \<^verbatim>\<open>www.\<close>, one of four hosts, eleven
  characters of an identifier, and a tail that is empty or starts a query. No host starts with
  \<^verbatim>\<open>http\<close> or \<^verbatim>\<open>www.\<close> and no host is a prefix of another, so that greedy matching is the whole of
  it. The result is the fourth group.
\<close>

definition youtube_url_id :: "string \<Rightarrow> string option" where
  "youtube_url_id s =
     (case strip_first url_hosts (optional [''www.''] (optional [''https://'', ''http://''] s)) of
        None \<Rightarrow> None
      | Some r \<Rightarrow>
          (let v = take 11 r; tail = drop 11 r
           in if length v = 11 \<and> list_all id_char v
                 \<and> (case tail of [] \<Rightarrow> True
                     | c # t \<Rightarrow> (c = CHR ''?'' \<or> c = CHR ''&'') \<and> list_all (\<lambda>x. \<not> re_space x) t)
              then Some v else None))"

definition is_video_id :: "string \<Rightarrow> bool" where
  "is_video_id s = (length s = 11 \<and> list_all id_char s)"

datatype url_verdict = ValidURL string | BareVideoID string | EmptyLine | InvalidFormat

definition validateYouTubeURL :: "string \<Rightarrow> url_verdict" where
  "validateYouTubeURL line0 =
     (let line = trim_by is_space line0
      in if line = [] then EmptyLine
         else case youtube_url_id line of
                Some v \<Rightarrow> ValidURL v
              | None \<Rightarrow> if is_video_id line then BareVideoID line else InvalidFormat)"

definition standard_url :: "string \<Rightarrow> string" where
  "standard_url v = ''https://www.youtube.com/watch?v='' @ v"

record task_error =
  te_LineNumber :: nat
  te_Content :: string
  te_FixedURL :: "string option"

definition check_candidate ::
  "nat \<Rightarrow> string \<Rightarrow> string list \<times> task_error list \<Rightarrow> string list \<times> task_error list" where
  "check_candidate lineNum raw acc =
     (let candidate = sanitizeTaskCandidate raw
      in case acc of (valid, errs) \<Rightarrow>
        if candidate = [] then acc
        else (case validateYouTubeURL candidate of
                ValidURL _ \<Rightarrow> (valid @ [candidate], errs)
              | BareVideoID v \<Rightarrow> (valid @ [standard_url v],
                  errs @ [\<lparr>te_LineNumber = lineNum + 1, te_Content = candidate,
                           te_FixedURL = Some (standard_url v)\<rparr>])
              | _ \<Rightarrow> (valid, errs @ [\<lparr>te_LineNumber = lineNum + 1, te_Content = candidate,
                                    te_FixedURL = None\<rparr>])))"

definition parseAndValidateTasks :: "string list \<Rightarrow> string list \<times> task_error list" where
  "parseAndValidateTasks tlines =
     fold (\<lambda>(n, line) acc. fold (check_candidate n) (splitTaskCandidates line) acc)
       (enumerate 0 tlines) ([], [])"

section \<open>Permanent errors\<close>

definition permanentKeywords :: "string list" where
  "permanentKeywords =
     [''sign in to confirm you'' @ [CHR 0x27] @ ''re not a bot'', ''this video is not available'',
      ''video unavailable'', ''this video is restricted'', ''private video'', ''members-only'',
      ''removed by the uploader'', ''copyright'']"

definition isPermanentYoutubeTaskError :: "string \<Rightarrow> bool" where
  "isPermanentYoutubeTaskError msg =
     (msg \<noteq> [] \<and> list_ex (\<lambda>kw. has_substring kw (map to_lower msg)) permanentKeywords)"

section \<open>Facts\<close>

lemma strip_ci_append:
  "map to_lower l = l \<Longrightarrow> strip_ci l (l @ s) = Some s"
  by (induction l) auto

lemma trim_by_id:
  assumes "list_all (\<lambda>c. \<not> p c) s"
  shows "trim_by p s = s"
proof -
  have "dropWhile p t = t" if "list_all (\<lambda>c. \<not> p c) t" for t
    using that by (cases t) auto
  moreover have "list_all (\<lambda>c. \<not> p c) (rev s)" using assms by (simp add: list_all_iff)
  ultimately show ?thesis using assms by (simp add: trim_by_def)
qed

lemma id_char_plain:
  "id_char c \<Longrightarrow> \<not> is_space c \<and> \<not> is_quote c \<and> \<not> is_separator c"
  by (auto simp: id_char_def is_space_def is_quote_def is_separator_def Let_def)

definition url_head :: string where "url_head = ''https://www.youtube.com/watch?v=''"

lemma url_head_plain: "list_all (\<lambda>c. \<not> is_space c \<and> \<not> is_quote c \<and> \<not> is_separator c) url_head"
  by code_simp

lemma standard_url_head: "standard_url v = url_head @ v"
  by (simp add: standard_url_def url_head_def)

lemma standard_url_plain:
  assumes "list_all id_char v"
  shows "list_all (\<lambda>c. \<not> is_space c \<and> \<not> is_quote c \<and> \<not> is_separator c) (standard_url v)"
  using assms url_head_plain id_char_plain by (auto simp: standard_url_head list_all_iff)

lemma youtube_url_id_standard:
  assumes "is_video_id v"
  shows "youtube_url_id (standard_url v) = Some v"
proof -
  have host: "strip_first url_hosts (optional [''www.''] (optional [''https://'', ''http://''] (standard_url v)))
      = Some v"
    by (simp add: standard_url_def optional_def url_hosts_def to_lower_def)
  show ?thesis
    using assms unfolding youtube_url_id_def host by (simp add: is_video_id_def)
qed

lemma fields_from_no_sep:
  "list_all (\<lambda>c. \<not> sep c) s \<Longrightarrow> fields_from sep acc s = (if rev acc @ s = [] then [] else [rev acc @ s])"
  by (induction s arbitrary: acc) auto

lemma strip_ci_chars: "strip_ci l s = Some r \<Longrightarrow> c \<in> set l \<Longrightarrow> \<exists>d\<in>set s. to_lower d = c"
  by (induction l s rule: strip_ci.induct) (auto split: if_splits)

text \<open>A literal with a character that is no letter, digit, underscore or dash does not match an identifier.\<close>

definition foreign :: "string \<Rightarrow> bool" where
  "foreign l = (CHR ''.'' \<in> set l \<or> CHR '':'' \<in> set l)"

lemma to_lower_foreign: "id_char d \<Longrightarrow> to_lower d \<noteq> CHR ''.'' \<and> to_lower d \<noteq> CHR '':''"
proof -
  assume d: "id_char d"
  have "id_char (to_lower d)"
    using d by (auto simp: id_char_def to_lower_def Let_def)
  moreover have "\<not> id_char CHR ''.''" "\<not> id_char CHR '':''" by code_simp+
  ultimately show ?thesis by metis
qed

lemma strip_ci_foreign: "foreign l \<Longrightarrow> list_all id_char s \<Longrightarrow> strip_ci l s = None"
  using strip_ci_chars [of l s] to_lower_foreign
  by (cases "strip_ci l s") (fastforce simp: foreign_def list_all_iff)+

lemma strip_first_foreign: "list_all foreign ls \<Longrightarrow> list_all id_char s \<Longrightarrow> strip_first ls s = None"
  by (induction ls) (auto simp: strip_ci_foreign)

lemma youtube_url_id_bare:
  assumes "list_all id_char v"
  shows "youtube_url_id v = None"
proof -
  have "list_all foreign url_hosts" "list_all foreign [''www.'']" "list_all foreign [''https://'', ''http://'']"
    by code_simp+
  note this [THEN strip_first_foreign, OF assms]
  then show ?thesis
    by (simp only: youtube_url_id_def optional_def option.case)
qed

lemma sanitize_plain:
  assumes "list_all (\<lambda>c. \<not> is_space c \<and> \<not> is_quote c \<and> \<not> is_separator c) s"
  shows "sanitizeTaskCandidate s = s" "trim_by is_space s = s"
    "s \<noteq> [] \<Longrightarrow> splitTaskCandidates s = [s]"
  using assms
  by (simp_all add: sanitizeTaskCandidate_def trim_by_id list_all_iff splitTaskCandidates_def
      fields_from_no_sep)

lemma validate_standard: "is_video_id v \<Longrightarrow> validateYouTubeURL (standard_url v) = ValidURL v"
  using standard_url_plain [of v] youtube_url_id_standard [of v]
  by (simp add: validateYouTubeURL_def sanitize_plain is_video_id_def)
     (simp add: standard_url_def)

lemma video_id_plain:
  assumes "is_video_id v"
  shows "list_all (\<lambda>c. \<not> is_space c \<and> \<not> is_quote c \<and> \<not> is_separator c) v"
  using assms id_char_plain by (auto simp: is_video_id_def list_all_iff)

lemma validate_bare: "is_video_id v \<Longrightarrow> validateYouTubeURL v = BareVideoID v"
  using video_id_plain [of v] youtube_url_id_bare [of v]
  by (auto simp: validateYouTubeURL_def sanitize_plain is_video_id_def)

text \<open>C21: The URL that the check proposes for a bare video identifier is right: it is a valid URL with
that identifier, a list that holds just it is accepted without an error and unchanged, and the bare
identifier itself is reported as an error that proposes it.\<close>

theorem proposed_url_round_trip:
  assumes "is_video_id v"
  shows "validateYouTubeURL (standard_url v) = ValidURL v
    \<and> parseAndValidateTasks [standard_url v] = ([standard_url v], [])
    \<and> parseAndValidateTasks [v] = ([standard_url v],
        [\<lparr>te_LineNumber = 1, te_Content = v, te_FixedURL = Some (standard_url v)\<rparr>])"
proof -
  have ne: "v \<noteq> []" "standard_url v \<noteq> []" using assms by (auto simp: is_video_id_def standard_url_def)
  have pv: "list_all (\<lambda>c. \<not> is_space c \<and> \<not> is_quote c \<and> \<not> is_separator c) (standard_url v)"
    using assms by (intro standard_url_plain) (simp add: is_video_id_def)
  show ?thesis
    using ne sanitize_plain [OF pv] sanitize_plain [OF video_id_plain [OF assms]]
      validate_standard [OF assms] validate_bare [OF assms]
    by (simp add: parseAndValidateTasks_def check_candidate_def)
qed

theorem proposed_url_round_trip_witness:
  "parseAndValidateTasks [''https://www.youtube.com/watch?v=dQw4w9WgXcQ'']
     = ([''https://www.youtube.com/watch?v=dQw4w9WgXcQ''], [])"
proof -
  have "is_video_id ''dQw4w9WgXcQ''" by code_simp
  from proposed_url_round_trip [OF this] show ?thesis by (simp add: standard_url_def)
qed

section \<open>Accepted lists\<close>

definition valid_task :: "string \<Rightarrow> bool" where
  "valid_task u = (case validateYouTubeURL u of ValidURL _ \<Rightarrow> True | _ \<Rightarrow> False)"

lemma BareVideoID_is_id: "validateYouTubeURL s = BareVideoID v \<Longrightarrow> is_video_id v"
  by (auto simp: validateYouTubeURL_def Let_def split: option.splits if_splits)

lemma check_candidate_valid:
  "list_all valid_task (fst acc) \<Longrightarrow> list_all valid_task (fst (check_candidate n raw acc))"
  using validate_standard [OF BareVideoID_is_id]
  by (cases acc; cases "validateYouTubeURL (sanitizeTaskCandidate raw)")
    (simp_all add: check_candidate_def Let_def valid_task_def)

lemma check_candidates_valid:
  "list_all valid_task (fst acc) \<Longrightarrow> list_all valid_task (fst (fold (check_candidate n) cs acc))"
  by (induction cs arbitrary: acc) (simp_all add: check_candidate_valid)

lemma parse_valid: "list_all valid_task (fst (parseAndValidateTasks tlines))"
proof -
  have "list_all valid_task (fst (fold (\<lambda>(n, line) acc.
      fold (check_candidate n) (splitTaskCandidates line) acc) xs acc))"
    if "list_all valid_task (fst acc)" for xs acc
    using that
  proof (induction xs arbitrary: acc)
    case (Cons x xs)
    then show ?case by (cases x) (simp add: check_candidates_valid)
  qed simp
  then show ?thesis by (simp add: parseAndValidateTasks_def)
qed

end
