(* ===== verification/YoutubeJobs.thy ===== *)
theory YoutubeJobs
  imports TransferJobFacts TaskUrls
begin

text \<open>
  The YouTube-job handlers of \<^verbatim>\<open>job_handler.go\<close>. An HTTP request is what the handler reads of it:
  the content type, the bound JSON or the form fields and the uploaded file; the download behind
  \<^verbatim>\<open>file_url\<close> is the argument \<open>get\<close>. A file or a body is given as the lines its scanner yields.
\<close>

section \<open>Creating\<close>

record create_yt_request =
  cy_R2Prefix :: string
  cy_FileUrl :: string
  cy_DownloadMode :: string
  cy_VideoSelectionStrategy :: string
  cy_MachineName :: string
  cy_Tasks :: "string list"

datatype upload = NoUpload | OpenFailed | ReadFailed | Uploaded "string list"

datatype fetched = GetFailed | BadStatus int | BodyFailed | Fetched "string list"

record http_request =
  hr_ContentType :: string
  hr_Json :: "create_yt_request option"
  hr_Form :: create_yt_request
  hr_File :: upload
  hr_FormTasks :: string

text \<open>\<^verbatim>\<open>strings.Split(s, "\n")\<close>\<close>

fun split_newlines :: "string \<Rightarrow> string \<Rightarrow> string list" where
  "split_newlines acc [] = [rev acc]"
| "split_newlines acc (c # s) =
     (if c = CHR 0x0A then rev acc # split_newlines [] s else split_newlines (c # acc) s)"

text \<open>One of the four copies of the check: all lines are valid, or the request is refused.\<close>

definition validated :: "string \<Rightarrow> string list \<Rightarrow> response + string list" where
  "validated err tlines =
     (case parseAndValidateTasks tlines of (valid, errs) \<Rightarrow>
        if errs \<noteq> [] then Inl (StatusBadRequest, BInvalid err (length valid) (length errs) (length tlines))
        else Inr valid)"

definition json_request :: "create_yt_request option \<Rightarrow> response + create_yt_request" where
  "json_request j =
     (case j of
        None \<Rightarrow> Inl (StatusBadRequest, BError ''bind'')
      | Some q \<Rightarrow>
          if cy_Tasks q = [] then Inr q
          else (case validated ''Tasks contain invalid YouTube URL formats'' (cy_Tasks q) of
                  Inl r \<Rightarrow> Inl r | Inr valid \<Rightarrow> Inr (q\<lparr>cy_Tasks := valid\<rparr>)))"

definition add_validated ::
  "string \<Rightarrow> string list \<Rightarrow> create_yt_request \<Rightarrow> response + create_yt_request" where
  "add_validated err tlines q =
     (case validated err tlines of
        Inl r \<Rightarrow> Inl r | Inr valid \<Rightarrow> Inr (q\<lparr>cy_Tasks := cy_Tasks q @ valid\<rparr>))"

definition form_request :: "http_request \<Rightarrow> response + create_yt_request" where
  "form_request h =
     (let q = (hr_Form h)\<lparr>cy_Tasks := []\<rparr>;
          manual = (\<lambda>q. if hr_FormTasks h \<noteq> []
            then add_validated ''Manual input contains invalid YouTube URL formats''
                   (split_newlines [] (hr_FormTasks h)) q
            else Inr q)
      in case hr_File h of
           NoUpload \<Rightarrow> manual q
         | OpenFailed \<Rightarrow> Inl (StatusInternalServerError, BError ''Failed to open file'')
         | ReadFailed \<Rightarrow> Inl (StatusInternalServerError, BError ''Failed to read file: '')
         | Uploaded ls \<Rightarrow>
             (case add_validated ''File contains invalid YouTube URL formats'' ls q of
                Inl r \<Rightarrow> Inl r | Inr q1 \<Rightarrow> manual q1))"

definition url_request ::
  "(string \<Rightarrow> fetched) \<Rightarrow> create_yt_request \<Rightarrow> response + create_yt_request" where
  "url_request get q =
     (if cy_FileUrl q = [] then Inr q
      else (case get (cy_FileUrl q) of
              GetFailed \<Rightarrow> Inl (StatusBadRequest, BError ''Failed to download file from URL: '')
            | BadStatus _ \<Rightarrow> Inl (StatusBadRequest, BError ''Failed to download file from URL, status: '')
            | BodyFailed \<Rightarrow> Inl (StatusInternalServerError, BError ''Failed to read downloaded file: '')
            | Fetched ls \<Rightarrow> add_validated ''File from URL contains invalid YouTube URL formats'' ls q))"

definition read_request ::
  "(string \<Rightarrow> fetched) \<Rightarrow> http_request \<Rightarrow> response + create_yt_request" where
  "read_request get h =
     (let r = (if has_substring ''application/json'' (hr_ContentType h) then json_request (hr_Json h)
               else if has_substring ''multipart/form-data'' (hr_ContentType h) then form_request h
               else Inl (StatusBadRequest, BError ''Unsupported Content-Type''))
      in case r of Inl e \<Rightarrow> Inl e | Inr q \<Rightarrow> url_request get q)"

definition new_youtube_job :: "int \<Rightarrow> time \<Rightarrow> create_yt_request \<Rightarrow> youtube_job" where
  "new_youtube_job newID now q =
     YoutubeJob0\<lparr>yj_ID := newID, yj_R2Prefix := cy_R2Prefix q,
       yj_DownloadMode := (if cy_DownloadMode q = [] then ''both'' else cy_DownloadMode q),
       yj_VideoSelectionStrategy := (if cy_VideoSelectionStrategy q = [] then ''highest_quality''
                                     else cy_VideoSelectionStrategy q),
       yj_MachineName := cy_MachineName q, yj_Status := StatusPending,
       yj_TotalCount := int (length (cy_Tasks q)), yj_PendingCount := int (length (cy_Tasks q)),
       yj_CreatedAt := now\<rparr>"

definition CreateYoutubeJob ::
  "svc \<Rightarrow> (string \<Rightarrow> fetched) \<Rightarrow> int \<Rightarrow> http_request \<Rightarrow> world \<Rightarrow> world \<times> response" where
  "CreateYoutubeJob S get newID h w =
     (case read_request get h of
        Inl r \<Rightarrow> (w, r)
      | Inr q \<Rightarrow>
          if dbErr S ''youtube_jobs.create'' newID
          then (w, StatusInternalServerError, BError ''Failed to create job in PG: '')
          else (let job = new_youtube_job newID (w_now w) q; w1 = w\<lparr>w_ytJobs := w_ytJobs w @ [job]\<rparr>
                in (if cy_Tasks q \<noteq> [] then spawn (GoAddYtTasks newID (cy_Tasks q)) w1 else w1,
                    StatusCreated, BYtJob job)))"

section \<open>Reading\<close>

definition rec_count :: "int \<Rightarrow> status \<Rightarrow> youtube_task_record list \<Rightarrow> int" where
  "rec_count jid s rows = int (length (filter (\<lambda>r. yr_JobID r = jid \<and> yr_Status r = s) rows))"

definition yt_counted :: "int \<Rightarrow> youtube_task_record list \<Rightarrow> youtube_job \<Rightarrow> youtube_job" where
  "yt_counted jid rows j =
     j\<lparr>yj_TotalCount := int (length (filter (\<lambda>r. yr_JobID r = jid) rows)),
       yj_PendingCount := rec_count jid ''PENDING'' rows,
       yj_RunningCount := rec_count jid ''RUNNING'' rows,
       yj_SuccessCount := rec_count jid ''COMPLETED'' rows,
       yj_FailedCount := rec_count jid ''FAILED'' rows\<rparr>"

definition rec_size :: "youtube_task_record \<Rightarrow> int" where
  "rec_size r = yr_AudioSize r + yr_VideoSize r"

definition yt_sized :: "int \<Rightarrow> youtube_task_record list \<Rightarrow> youtube_job \<Rightarrow> youtube_job" where
  "yt_sized jid rows j =
     (let mine = filter (\<lambda>r. yr_JobID r = jid) rows
      in j\<lparr>yj_TotalSizeBytes := sum_list (map rec_size mine),
           yj_SuccessSizeBytes := sum_list (map rec_size
              (filter (\<lambda>r. yr_Status r = ''COMPLETED'') mine))\<rparr>)"

definition first_yt_job :: "svc \<Rightarrow> int \<Rightarrow> world \<Rightarrow> youtube_job option" where
  "first_yt_job S jid w =
     (if dbErr S ''youtube_jobs.first'' jid then None else find_row yj_ID jid (w_ytJobs w))"

definition GetYoutubeJob :: "svc \<Rightarrow> int \<Rightarrow> world \<Rightarrow> response" where
  "GetYoutubeJob S jid w =
     (case first_yt_job S jid w of
        None \<Rightarrow> (StatusNotFound, BError ''Job not found'')
      | Some j \<Rightarrow>
          (let rows = (if dbErr S ''youtube_task_records.counts'' jid then [] else w_ytRecs w)
           in (StatusOK, BYtJob (yt_sized jid rows (yt_counted jid rows j)))))"

section \<open>Deleting\<close>

definition cleanup_yt_cmds :: "string list \<Rightarrow> string list \<Rightarrow> string list \<Rightarrow> redis_cmd list" where
  "cleanup_yt_cmds downloadQueues metadataQueues taskIDs =
     concat (map (\<lambda>tid. DEL [''task:'' @ tid] # map (\<lambda>q. LREM q tid) downloadQueues
                        @ map (\<lambda>q. LREM q tid) metadataQueues) taskIDs)"

text \<open>The queues a job's tasks may wait in: the queue of its machine, if it has one, and the common one.\<close>

definition cleanup_queues :: "(string \<Rightarrow> string) \<Rightarrow> string \<Rightarrow> string list" where
  "cleanup_queues queue m = (if m \<noteq> [] then [queue m, queue ''all''] else [queue ''all''])"

definition cleanupYoutubeJobRedis :: "svc \<Rightarrow> int \<Rightarrow> world \<Rightarrow> world" where
  "cleanupYoutubeJobRedis S jobID w =
     (let (w1, r) = redis_do S (ZRANGE (yt_job_key jobID) 0 (- 1)) w;
          w2 = (case r of
                  RArr (tid # tids) \<Rightarrow>
                    (let (w', m) = getJobMachineName S jobID w1
                     in fst (redis_pipe S (cleanup_yt_cmds (cleanup_queues download_queue m)
                               (cleanup_queues metadata_queue m) (tid # tids)) w'))
                | _ \<Rightarrow> w1);
          w3 = redis_set S (DEL [yt_job_key jobID]) w2;
          w4 = redis_set S (DEL [yt_lock_key jobID]) w3
      in redis_set S (DEL [yt_offset_key jobID]) w4)"

definition DeleteYoutubeJob :: "svc \<Rightarrow> int \<Rightarrow> world \<Rightarrow> world \<times> response" where
  "DeleteYoutubeJob S jid w =
     (case first_yt_job S jid w of
        None \<Rightarrow> (w, StatusNotFound, BError ''Job not found'')
      | Some job \<Rightarrow>
          (let w1 = spawn (GoCleanupYt jid) w
           in if dbErr S ''youtube_jobs.status'' jid
              then (w1, StatusInternalServerError, BError ''Failed to update job status: '')
              else (set_yt_status S jid StatusCompleted w1, StatusOK, BStatus ''completed'')))"

definition DeletePendingYoutubeJobs :: "svc \<Rightarrow> world \<Rightarrow> world \<times> response" where
  "DeletePendingYoutubeJobs S w =
     (if dbErr S ''youtube_jobs.pending'' 0 then (w, StatusInternalServerError, BError ''find'')
      else (let jobIDs = map yj_ID (filter (\<lambda>j. yj_Status j = StatusPending) (w_ytJobs w))
            in if jobIDs = [] then (w, StatusOK, BMessage ''No pending jobs found'')
               else if dbErr S ''youtube_task_records.delete'' 0
               then (w, StatusInternalServerError, BError ''Failed to delete task records: '')
               else (let w1 = w\<lparr>w_ytRecs := filter (\<lambda>r. yr_JobID r \<notin> set jobIDs) (w_ytRecs w)\<rparr>
                     in if dbErr S ''youtube_jobs.delete_pending'' 0
                        then (w1, StatusInternalServerError, BError ''delete'')
                        else (spawn (GoCleanupYtAll jobIDs)
                                (w1\<lparr>w_ytJobs := filter (\<lambda>j. yj_Status j \<noteq> StatusPending) (w_ytJobs w1)\<rparr>),
                              StatusOK, BCount (int (length jobIDs))))))"

section \<open>Adding tasks and retrying\<close>

record add_tasks_request =
  at_ContentType :: string
  at_Json :: "string list option"
  at_File :: upload

definition nonblank_lines :: "string list \<Rightarrow> string list" where
  "nonblank_lines ls = filter (\<lambda>l. l \<noteq> []) (map (trim_by is_space) ls)"

definition read_tasks :: "add_tasks_request \<Rightarrow> response + string list" where
  "read_tasks q =
     (if has_substring ''application/json'' (at_ContentType q)
      then (case at_Json q of None \<Rightarrow> Inl (StatusBadRequest, BError ''bind'') | Some ts \<Rightarrow> Inr ts)
      else if has_substring ''multipart/form-data'' (at_ContentType q)
      then (case at_File q of
              NoUpload \<Rightarrow> Inr []
            | OpenFailed \<Rightarrow> Inl (StatusInternalServerError, BError ''Failed to open file'')
            | ReadFailed \<Rightarrow> Inl (StatusInternalServerError, BError ''Failed to read file: '')
            | Uploaded ls \<Rightarrow> Inr (nonblank_lines ls))
      else Inl (StatusBadRequest, BError ''Unsupported Content-Type''))"

definition AddTasksToYoutubeJob ::
  "svc \<Rightarrow> int option \<Rightarrow> add_tasks_request \<Rightarrow> world \<Rightarrow> world \<times> response" where
  "AddTasksToYoutubeJob S pid req w =
     (case pid of
        None \<Rightarrow> (w, StatusBadRequest, BError ''Invalid Job ID'')
      | Some jid \<Rightarrow>
     (case read_tasks req of
        Inl r \<Rightarrow> (w, r)
      | Inr tasks \<Rightarrow>
     (case first_yt_job S jid w of
        None \<Rightarrow> (w, StatusNotFound, BError ''Job not found'')
      | Some job \<Rightarrow>
          (case AddTasksToJob S jid tasks w of
             (w1, n, ok) \<Rightarrow>
               if \<not> ok then (w1, StatusInternalServerError, BError ''Failed to add tasks: '')
               else (if n > 0 \<and> \<not> dbErr S ''youtube_jobs.add_counts'' jid
                     then w1\<lparr>w_ytJobs := update_where (\<lambda>j. yj_ID j = jid)
                            (\<lambda>j. j\<lparr>yj_TotalCount := yj_TotalCount j + n,
                                   yj_PendingCount := yj_PendingCount j + n\<rparr>) (w_ytJobs w1)\<rparr>
                     else w1, StatusOK, BAdded n jid)))))"

definition RetryFailedYoutubeTasks :: "svc \<Rightarrow> int \<Rightarrow> world \<Rightarrow> world \<times> response" where
  "RetryFailedYoutubeTasks S jid w =
     (case first_yt_job S jid w of
        None \<Rightarrow> (w, StatusNotFound, BError ''Job not found'')
      | Some job \<Rightarrow> (spawn (GoRetryYt jid (yj_Status job)) w, StatusOK,
                    BMessage ''Retry initiated in background''))"

definition retry_lock_key :: "int \<Rightarrow> string" where
  [key_defs]: "retry_lock_key jid = ''youtube:retry_non_completed:'' @ itoa jid @ '':running''"

definition RetryNonCompletedYoutubeTasks :: "svc \<Rightarrow> int option \<Rightarrow> world \<Rightarrow> world \<times> response" where
  "RetryNonCompletedYoutubeTasks S pid w =
     (case pid of
        None \<Rightarrow> (w, StatusBadRequest, BError ''Invalid job ID'')
      | Some jid \<Rightarrow>
     (case first_yt_job S jid w of
        None \<Rightarrow> (w, StatusNotFound, BError ''Job not found'')
      | Some job \<Rightarrow>
          (case redis_do S (SETNX (retry_lock_key jid) (Num (w_now w div 1000000000))) w of
             (w1, RInt n) \<Rightarrow>
               if n = 0 then (w1, StatusOK, BMessage ''Retry is already running in background'')
               else (spawn (GoRetryNonCompleted jid (retry_lock_key jid)) w1, StatusAccepted,
                     BMessage ''Retry started in background'')
           | (w1, _) \<Rightarrow> (w1, StatusInternalServerError, BError ''Failed to start retry: ''))))"

definition ResetYoutubeJobOffset :: "svc \<Rightarrow> int option \<Rightarrow> world \<Rightarrow> world \<times> response" where
  "ResetYoutubeJobOffset S pid w =
     (case pid of
        None \<Rightarrow> (w, StatusBadRequest, BError ''Invalid job ID'')
      | Some jid \<Rightarrow>
     (case first_yt_job S jid w of
        None \<Rightarrow> (w, StatusNotFound, BError ''Job not found'')
      | Some job \<Rightarrow>
          (let (w1, c) = redis_do S (ZCARD (yt_job_key jid)) w;
               total = (case c of RInt n \<Rightarrow> n | _ \<Rightarrow> 0);
               (w2, o1) = redis_do S (GET (yt_offset_key jid)) w1;
               (w3, r) = redis_do S (SET (yt_offset_key jid) (Num 0)) w2
           in if r = RErr then (w3, StatusInternalServerError, BError ''Failed to reset offset: '')
              else (w3, StatusOK, BOffset total (scan_num o1) 0 (yj_PendingCount job)))))"

end
