(* ===== verification/YoutubeRetry.thy ===== *)
theory YoutubeRetry
  imports YoutubeJobs
begin

text \<open>
  \<^verbatim>\<open>retryNonCompletedYoutubeTasksBackground\<close>: the keyset-paged loop over the failed rows of a job.
  The loop is a \<open>function\<close> whose measure is the number of failed rows beyond the cursor. The main
  fact describes the run as one update of the table and one push.
\<close>

section \<open>The loop\<close>

definition nc_pending :: "int \<Rightarrow> int \<Rightarrow> youtube_task_record \<Rightarrow> bool" where
  "nc_pending jid cursor r = (yr_JobID r = jid \<and> yr_ID r > cursor \<and> yr_Status r = ''FAILED'')"

definition nc_batch :: "int \<Rightarrow> int \<Rightarrow> youtube_task_record list \<Rightarrow> youtube_task_record list" where
  "nc_batch jid cursor rows = take 5000 (sort_key yr_ID (filter (nc_pending jid cursor) rows))"

definition retryable :: "youtube_task_record \<Rightarrow> bool" where
  "retryable r = (\<not> isPermanentYoutubeTaskError (yr_ErrorMessage r))"

definition nc_reset :: "time \<Rightarrow> youtube_task_record \<Rightarrow> youtube_task_record" where
  "nc_reset now r = r\<lparr>yr_Status := ''PENDING'', yr_WorkerID := [], yr_ErrorMessage := [],
     yr_UpdatedAt := now\<rparr>"

definition nc_update :: "int \<Rightarrow> int list \<Rightarrow> time \<Rightarrow> youtube_task_record list \<Rightarrow> youtube_task_record list"
where
  "nc_update jid ids now = update_where (\<lambda>r. yr_JobID r = jid \<and> yr_ID r \<in> set ids) (nc_reset now)"

lemma nc_reset_sel [simp]:
  "yr_ID (nc_reset now r) = yr_ID r" "yr_JobID (nc_reset now r) = yr_JobID r"
  "yr_Status (nc_reset now r) = ''PENDING''"
  by (simp_all add: nc_reset_def)

lemma nc_pending_update:
  "filter (nc_pending jid c) (nc_update jid ids now rows) =
   filter (\<lambda>r. nc_pending jid c r \<and> yr_ID r \<notin> set ids) rows"
  unfolding nc_update_def by (induction rows) (auto simp: nc_pending_def)

lemma set_nc_batch: "set (nc_batch jid c rows) \<subseteq> {r \<in> set rows. nc_pending jid c r}"
  using set_take_subset [of 5000 "sort_key yr_ID (filter (nc_pending jid c) rows)"]
  by (auto simp: nc_batch_def)

lemma nc_cursor:
  assumes "nc_batch jid c rows \<noteq> []"
  shows "last (nc_batch jid c rows) \<in> set rows"
    "nc_pending jid c (last (nc_batch jid c rows))" "c < yr_ID (last (nc_batch jid c rows))"
  using set_nc_batch [of jid c rows] last_in_set [OF assms] by (auto simp: nc_pending_def)

lemma length_filter_strict:
  "(\<And>x. x \<in> set xs \<Longrightarrow> q x \<Longrightarrow> p x) \<Longrightarrow> x \<in> set xs \<Longrightarrow> p x \<Longrightarrow> \<not> q x
   \<Longrightarrow> length (filter q xs) < length (filter p xs)"
proof (induction xs)
  case (Cons y xs)
  have "length (filter q xs) \<le> length (filter p xs)"
  proof -
    have "filter q xs = filter q (filter p xs)"
      using Cons.prems(1) by (auto intro: filter_cong)
    then show ?thesis by (metis length_filter_le)
  qed
  with Cons show ?case by (cases "x \<in> set xs") auto
qed simp

lemma nc_measure:
  assumes "nc_batch jid c rows \<noteq> []"
  shows "length (filter (nc_pending jid (yr_ID (last (nc_batch jid c rows)))) (nc_update jid ids now rows))
    < length (filter (nc_pending jid c) rows)"
    and "length (filter (nc_pending jid (yr_ID (last (nc_batch jid c rows)))) rows)
    < length (filter (nc_pending jid c) rows)"
  unfolding nc_pending_update
  by (rule length_filter_strict [where x = "last (nc_batch jid c rows)"],
      use nc_cursor [OF assms] in \<open>auto simp: nc_pending_def\<close>)+

lemma w_ytRecs_redis_do [simp]: "w_ytRecs (fst (redis_do S c w)) = w_ytRecs w"
  by (simp add: redis_do_def split: prod.split)

lemma w_now_redis_do [simp]: "w_now (fst (redis_do S c w)) = w_now w"
  by (simp add: redis_do_def split: prod.split)

function nc_loop :: "svc \<Rightarrow> int \<Rightarrow> string \<Rightarrow> int \<Rightarrow> world \<Rightarrow> world \<times> bool" where
  "nc_loop S jid queue cursor w =
     (let tasks = nc_batch jid cursor (w_ytRecs w)
      in if dbErr S ''youtube_task_records.failed'' cursor then (w, False)
         else if tasks = [] then (w, True)
         else
           (let cursor' = yr_ID (last tasks);
                ids = map yr_ID (filter retryable tasks)
            in if ids = [] then nc_loop S jid queue cursor' w
               else if dbErr S ''youtube_task_records.reset'' cursor then (w, False)
               else
                 (let w1 = w\<lparr>w_ytRecs := nc_update jid ids (w_now w) (w_ytRecs w)\<rparr>;
                      w2 = fst (redis_do S (RPUSH queue (map itoa ids)) w1)
                  in if snd (redis_do S (RPUSH queue (map itoa ids)) w1) = RErr then (w2, False)
                     else nc_loop S jid queue cursor' w2)))"
  by pat_completeness auto
termination
  by (relation "measure (\<lambda>(S, jid, queue, cursor, w).
        length (filter (nc_pending jid cursor) (w_ytRecs w)))")
    (auto simp: nc_measure Let_def)

declare nc_loop.simps [simp del]

definition recount_yt :: "svc \<Rightarrow> int \<Rightarrow> world \<Rightarrow> world" where
  "recount_yt S jid w =
     (let rows = (if dbErr S ''youtube_task_records.recount'' jid then [] else w_ytRecs w)
      in if dbErr S ''youtube_jobs.recount'' jid then w
         else w\<lparr>w_ytJobs := update_where (\<lambda>j. yj_ID j = jid) (yt_counted jid rows) (w_ytJobs w)\<rparr>)"

text \<open>The deferred \<^verbatim>\<open>DEL\<close> of the lock runs on every return.\<close>

definition retryNonCompletedYoutubeTasksBackground :: "svc \<Rightarrow> int \<Rightarrow> string \<Rightarrow> world \<Rightarrow> world" where
  "retryNonCompletedYoutubeTasksBackground S jid lockKey w =
     (let (w1, queue) = getMetadataQueueName S jid w;
          (w2, done) = nc_loop S jid queue 0 w1
      in redis_set S (DEL [lockKey]) (if done then recount_yt S jid w2 else w2))"

section \<open>What a run does\<close>

lemma filter_above_last:
  fixes f :: "'a \<Rightarrow> int"
  assumes "sorted_wrt (<) (map f (a @ b))" "a \<noteq> []"
  shows "filter (\<lambda>r. f (last a) < f r) (a @ b) = b"
proof -
  obtain ys y where a: "a = ys @ [y]" using assms(2) by (metis rev_exhaust)
  have "filter (\<lambda>r. f y < f r) a = []" "filter (\<lambda>r. f y < f r) b = b"
    using assms(1) by (auto simp: a sorted_wrt_append filter_empty_conv intro!: filter_True)
  then show ?thesis by (simp add: a)
qed

lemma nc_pending_batch:
  assumes "distinct (map yr_ID rows)" "nc_batch jid c rows \<noteq> []"
  shows "sort_key yr_ID (filter (nc_pending jid c) rows) =
    nc_batch jid c rows @
      sort_key yr_ID (filter (nc_pending jid (yr_ID (last (nc_batch jid c rows)))) rows)"
proof -
  define xs where "xs = sort_key yr_ID (filter (nc_pending jid c) rows)"
  define l where "l = yr_ID (last (nc_batch jid c rows))"
  have sorted: "sorted (map yr_ID xs)" by (simp add: xs_def)
  have dist: "distinct (map yr_ID xs)"
    using assms(1) by (auto simp: xs_def distinct_map intro: inj_on_subset)
  have b: "nc_batch jid c rows = take 5000 xs" "take 5000 xs \<noteq> []"
    using assms(2) by (simp_all add: nc_batch_def xs_def)
  have split: "xs = take 5000 xs @ drop 5000 xs" by simp
  have "sorted_wrt (<) (map yr_ID (take 5000 xs @ drop 5000 xs))"
    unfolding append_take_drop_id strict_sorted_iff using sorted dist by (rule conjI)
  from filter_above_last [OF this b(2)]
  have "filter (\<lambda>r. l < yr_ID r) xs = drop 5000 xs" by (simp add: l_def b(1))
  moreover have "filter (nc_pending jid l) rows = filter (\<lambda>r. l < yr_ID r) (filter (nc_pending jid c) rows)"
    using nc_cursor [OF assms(2)] by (auto simp: nc_pending_def l_def intro!: filter_cong)
  ultimately have "sort_key yr_ID (filter (nc_pending jid l) rows) = drop 5000 xs"
    by (simp add: xs_def filter_sort)
  then show ?thesis
    using split by (simp only: flip: l_def xs_def b(1))
qed

definition nc_todo :: "int \<Rightarrow> int \<Rightarrow> youtube_task_record list \<Rightarrow> int list" where
  "nc_todo jid c rows =
     map yr_ID (filter retryable (sort_key yr_ID (filter (nc_pending jid c) rows)))"

lemma nc_todo_step:
  assumes "distinct (map yr_ID rows)" "nc_batch jid c rows \<noteq> []"
  shows "nc_todo jid c rows = map yr_ID (filter retryable (nc_batch jid c rows))
    @ nc_todo jid (yr_ID (last (nc_batch jid c rows))) rows"
  by (simp add: nc_todo_def nc_pending_batch [OF assms])

lemma set_nc_todo: "set (nc_todo jid c rows) = {yr_ID r | r. r \<in> set rows \<and> nc_pending jid c r \<and> retryable r}"
  by (auto simp: nc_todo_def)

lemma nc_batch_below:
  assumes "i \<in> set (map yr_ID (filter retryable (nc_batch jid c rows)))"
  shows "i \<le> yr_ID (last (nc_batch jid c rows))"
proof -
  let ?xs = "nc_batch jid c rows"
  have sorted: "sorted (map yr_ID ?xs)" by (simp add: nc_batch_def take_map [symmetric] sorted_wrt_take)
  obtain ys y where ys: "?xs = ys @ [y]" using assms by (cases ?xs rule: rev_cases) auto
  show ?thesis using assms sorted unfolding ys by (auto simp: sorted_append split: if_splits)
qed

lemma nc_update_beyond:
  assumes "\<And>i. i \<in> set ids \<Longrightarrow> i \<le> c"
  shows "nc_todo jid c (nc_update jid ids now rows) = nc_todo jid c rows"
proof -
  have "filter (nc_pending jid c) (nc_update jid ids now rows) = filter (nc_pending jid c) rows"
    unfolding nc_pending_update using assms by (fastforce simp: nc_pending_def intro!: filter_cong)
  then show ?thesis by (simp add: nc_todo_def)
qed

lemma nc_update_append:
  "nc_update jid ids2 now (nc_update jid ids1 now rows) = nc_update jid (ids1 @ ids2) now rows"
  by (auto simp: nc_update_def update_where_def nc_reset_def)

lemma nc_update_ids: "map yr_ID (nc_update jid ids now rows) = map yr_ID rows"
  by (simp add: nc_update_def update_where_keys)

lemma nc_update_Nil [simp]: "nc_update jid [] now rows = rows"
  by (simp add: nc_update_def update_where_def)

text \<open>A run from a cursor: one update of all rows that are to be retried, one push of their identifiers.\<close>

lemma rpush_up:
  assumes "redis_up (rx S)" "ls_of (w_redis w q) = Some l"
  shows "redis_do S (RPUSH q vs) w =
    (w\<lparr>w_redis := put_list q (l @ vs) (w_redis w)\<rparr>, RInt (int (length (l @ vs))))"
  using assms by (simp add: redis_do_up)

lemma nc_loop_run:
  assumes "svc_up S" "distinct (map yr_ID (w_ytRecs w))" "ls_of (w_redis w queue) = Some l"
  shows "\<exists>db. nc_loop S jid queue c w =
      (w\<lparr>w_ytRecs := nc_update jid (nc_todo jid c (w_ytRecs w)) (w_now w) (w_ytRecs w),
         w_redis := db\<rparr>, True)
    \<and> ls_of (db queue) = Some (l @ map itoa (nc_todo jid c (w_ytRecs w)))
    \<and> (\<forall>k. k \<noteq> queue \<longrightarrow> db k = w_redis w k)"
  using assms
proof (induction S jid queue c w arbitrary: l rule: nc_loop.induct)
  case (1 S jid queue c w)
  let ?rows = "w_ytRecs w"
  let ?b = "nc_batch jid c ?rows"
  let ?ids = "map yr_ID (filter retryable ?b)"
  note ok = svc_upD(2) [OF 1(3)]
  show ?case
  proof (cases "?b = []")
    case True
    then have "sort_key yr_ID (filter (nc_pending jid c) ?rows) = []"
      by (metis nc_batch_def numeral_eq_Suc take_eq_Nil old.nat.distinct(2))
    then have "nc_todo jid c ?rows = []" by (simp add: nc_todo_def)
    moreover have "nc_loop S jid queue c w = (w, True)"
      using True ok by (subst nc_loop.simps) (simp add: Let_def)
    ultimately show ?thesis using 1(5) by (intro exI [of _ "w_redis w"]) simp
  next
    case False
    let ?c = "yr_ID (last ?b)"
    note todo = nc_todo_step [OF 1(4) False]
    show ?thesis
    proof (cases "?ids = []")
      case True
      then have "nc_loop S jid queue c w = nc_loop S jid queue ?c w"
        using False ok by (subst nc_loop.simps) (simp add: Let_def)
      moreover have "nc_todo jid c ?rows = nc_todo jid ?c ?rows" using todo True by simp
      ultimately show ?thesis
        using "1.IH"(1) [OF refl _ False refl refl True 1(3,4,5)] ok by simp
    next
      case ids: False
      let ?w1 = "w\<lparr>w_ytRecs := nc_update jid ?ids (w_now w) ?rows\<rparr>"
      let ?w2 = "?w1\<lparr>w_redis := put_list queue (l @ map itoa ?ids) (w_redis w)\<rparr>"
      have push: "redis_do S (RPUSH queue (map itoa ?ids)) ?w1
          = (?w2, RInt (int (length (l @ map itoa ?ids))))"
        using rpush_up [of S ?w1 queue l] 1(3,5) by (simp add: svc_up_def)
      have step: "nc_loop S jid queue c w = nc_loop S jid queue ?c ?w2"
        using False ids ok push by (subst nc_loop.simps) (simp add: Let_def)
      have rest: "nc_todo jid ?c (nc_update jid ?ids (w_now w) ?rows) = nc_todo jid ?c ?rows"
        by (rule nc_update_beyond) (rule nc_batch_below)
      have "\<exists>db. nc_loop S jid queue ?c ?w2 =
          (?w2\<lparr>w_ytRecs := nc_update jid (nc_todo jid ?c (w_ytRecs ?w2)) (w_now ?w2) (w_ytRecs ?w2),
             w_redis := db\<rparr>, True)
        \<and> ls_of (db queue) = Some ((l @ map itoa ?ids) @ map itoa (nc_todo jid ?c (w_ytRecs ?w2)))
        \<and> (\<forall>k. k \<noteq> queue \<longrightarrow> db k = w_redis ?w2 k)"
        using "1.IH"(2) [OF refl _ False refl refl ids _ refl, of "fst (redis_do S (RPUSH queue (map itoa ?ids)) ?w1)"
            "l @ map itoa ?ids"] ok push 1(3,4) by (simp add: nc_update_ids)
      then show ?thesis
        unfolding step by (auto simp: rest todo nc_update_append put_list_def)
    qed
  qed
qed

lemma w_ytRecs_name [simp]: "w_ytRecs (fst (getJobMachineName S j w)) = w_ytRecs w"
  by (simp add: getJobMachineName_def Let_def split: option.split)

lemma metadata_queue_of:
  "getMetadataQueueName S j w = (fst (getJobMachineName S j w), snd (getMetadataQueueName S j w))"
  by (simp add: getMetadataQueueName_def split_beta)

lemma retry_lock_not_queue: "retry_lock_key jid \<noteq> snd (getMetadataQueueName S j w)"
  by (auto simp: getMetadataQueueName_def split_beta key_defs)

text \<open>The rows that a run retries.\<close>

definition retried :: "int \<Rightarrow> youtube_task_record \<Rightarrow> bool" where
  "retried jid r = (yr_JobID r = jid \<and> yr_Status r = ''FAILED'' \<and> retryable r)"

lemma nc_update_retried:
  assumes "distinct (map yr_ID rows)" "\<forall>r\<in>set rows. 0 < yr_ID r"
  shows "nc_update jid (nc_todo jid 0 rows) now rows = update_where (retried jid) (nc_reset now) rows"
proof -
  have "(yr_JobID r = jid \<and> yr_ID r \<in> set (nc_todo jid 0 rows)) = retried jid r" if r: "r \<in> set rows" for r
  proof -
    have same: "r' = r" if "r' \<in> set rows" "yr_ID r' = yr_ID r" for r'
      using assms(1) r that by (auto simp: distinct_map inj_on_def)
    show ?thesis
    proof
      assume a: "yr_JobID r = jid \<and> yr_ID r \<in> set (nc_todo jid 0 rows)"
      then obtain r' where "r' \<in> set rows" "yr_ID r' = yr_ID r" "nc_pending jid 0 r'" "retryable r'"
        unfolding set_nc_todo by auto
      with same [of r'] show "retried jid r" by (simp add: nc_pending_def retried_def)
    next
      assume "retried jid r"
      then show "yr_JobID r = jid \<and> yr_ID r \<in> set (nc_todo jid 0 rows)"
        using r assms(2) unfolding set_nc_todo by (auto simp: nc_pending_def retried_def)
    qed
  qed
  then show ?thesis by (auto simp: nc_update_def update_where_def)
qed

text \<open>C22: The background retry ends, resets in the table exactly the failed rows of the job whose error
is not a permanent one, pushes their identifiers in ascending order behind what waits in the job's
metadata queue, recounts the job's row from the table and releases its lock. It changes no other Redis
key: the documents of the tasks still say FAILED.\<close>

theorem retryNonCompleted_resets_and_requeues:
  assumes "svc_up S" and "distinct (map yr_ID (w_ytRecs w))" and "\<forall>r\<in>set (w_ytRecs w). 0 < yr_ID r"
    and "queue = snd (getMetadataQueueName S jid w)" and "ls_of (w_redis w queue) = Some l"
    and "w' = retryNonCompletedYoutubeTasksBackground S jid (retry_lock_key jid) w"
  shows "w_ytRecs w' = update_where (retried jid) (nc_reset (w_now w)) (w_ytRecs w)
    \<and> ls_of (w_redis w' queue) = Some (l @ map (\<lambda>r. itoa (yr_ID r))
          (sort_key yr_ID (filter (retried jid) (w_ytRecs w))))
    \<and> w_ytJobs w' = update_where (\<lambda>j. yj_ID j = jid) (yt_counted jid (w_ytRecs w')) (w_ytJobs w)
    \<and> w_redis w' (retry_lock_key jid) = None
    \<and> (\<forall>k. k \<noteq> queue \<longrightarrow> k \<noteq> retry_lock_key jid \<longrightarrow> w_redis w' k = w_redis w k)"
proof -
  let ?w1 = "fst (getJobMachineName S jid w)"
  let ?todo = "nc_todo jid 0 (w_ytRecs w)"
  have up: "redis_up (rx S)" using assms(1) by (simp add: svc_up_def)
  have "distinct (map yr_ID (w_ytRecs ?w1))" "ls_of (w_redis ?w1 queue) = Some l"
    using assms by simp_all
  from nc_loop_run [OF assms(1) this, of jid 0] obtain db where db:
    "nc_loop S jid queue 0 ?w1 =
       (?w1\<lparr>w_ytRecs := nc_update jid ?todo (w_now w) (w_ytRecs w), w_redis := db\<rparr>, True)"
    "ls_of (db queue) = Some (l @ map itoa ?todo)" "\<And>k. k \<noteq> queue \<Longrightarrow> db k = w_redis w k"
    by auto
  have lock: "retry_lock_key jid \<noteq> queue" using assms(4) retry_lock_not_queue by simp
  have todo: "?todo = map yr_ID (sort_key yr_ID (filter (retried jid) (w_ytRecs w)))"
  proof -
    have "filter (\<lambda>r. nc_pending jid 0 r \<and> retryable r) (w_ytRecs w) = filter (retried jid) (w_ytRecs w)"
      using assms(3) by (intro filter_cong) (auto simp: retried_def nc_pending_def)
    then show ?thesis by (simp add: nc_todo_def filter_sort)
  qed
  have w': "w' = redis_set S (DEL [retry_lock_key jid]) (recount_yt S jid
      (?w1\<lparr>w_ytRecs := nc_update jid ?todo (w_now w) (w_ytRecs w), w_redis := db\<rparr>))"
    using db(1) metadata_queue_of [of S jid w] assms(4,6)
    by (simp add: retryNonCompletedYoutubeTasksBackground_def split_beta Let_def)
       (metis fst_conv snd_conv)
  have "w_ytRecs w' = nc_update jid ?todo (w_now w) (w_ytRecs w)"
    "w_ytJobs w' = update_where (\<lambda>j. yj_ID j = jid)
       (yt_counted jid (nc_update jid ?todo (w_now w) (w_ytRecs w))) (w_ytJobs w)"
    "w_redis w' = db(retry_lock_key jid := None)"
    by (simp_all add: w' redis_set_def redis_do_up [OF up] recount_yt_def svc_upD(2) [OF assms(1)])
  then show ?thesis
    using db(2,3) lock nc_update_retried [OF assms(2,3), of jid "w_now w"]
    by (simp add: todo comp_def)
qed

definition nc_world :: world where
  "nc_world = world0\<lparr>w_ytJobs := [YoutubeJob0\<lparr>yj_ID := 3, yj_FailedCount := 2\<rparr>],
     w_ytRecs := [YoutubeTaskRecord0\<lparr>yr_ID := 9, yr_JobID := 3, yr_Status := ''FAILED''\<rparr>,
       YoutubeTaskRecord0\<lparr>yr_ID := 7, yr_JobID := 3, yr_Status := ''FAILED'',
         yr_ErrorMessage := ''Private video''\<rparr>]\<rparr>"

theorem retryNonCompleted_resets_and_requeues_witness:
  "map yr_Status (w_ytRecs (retryNonCompletedYoutubeTasksBackground svc_ref 3 (retry_lock_key 3) nc_world))
    = [''PENDING'', ''FAILED'']"
proof -
  have h: "distinct (map yr_ID (w_ytRecs nc_world))" "\<forall>r\<in>set (w_ytRecs nc_world). 0 < yr_ID r"
    by (simp_all add: nc_world_def)
  have q: "ls_of (w_redis nc_world (snd (getMetadataQueueName svc_ref 3 nc_world))) = Some []"
    by (simp add: nc_world_def world0_def ls_of_def)
  have "map yr_Status (update_where (retried 3) (nc_reset (w_now nc_world)) (w_ytRecs nc_world))
      = [''PENDING'', ''FAILED'']"
    by code_simp
  with retryNonCompleted_resets_and_requeues [OF svc_up_ref h refl q refl] show ?thesis by simp
qed

end
