(* ===== verification/YoutubeJobFacts.thy ===== *)
theory YoutubeJobFacts
  imports YoutubeRetry
begin

text \<open>
  Facts about the YouTube-job handlers: a create request is accepted with valid URLs only or leaves
  no trace, and what the cleanup of a job removes from Redis.
\<close>

section \<open>Create\<close>

lemma validated_valid: "validated err ls = Inr ts \<Longrightarrow> list_all valid_task ts"
  using parse_valid [of ls] by (auto simp: validated_def split: prod.splits if_splits)

lemma add_validated_valid:
  "add_validated err ls q = Inr q' \<Longrightarrow> list_all valid_task (cy_Tasks q) \<Longrightarrow> list_all valid_task (cy_Tasks q')"
  by (auto simp: add_validated_def dest: validated_valid split: sum.splits)

lemma json_request_valid: "json_request j = Inr q \<Longrightarrow> list_all valid_task (cy_Tasks q)"
  by (auto simp: json_request_def dest: validated_valid split: option.splits if_splits sum.splits)

lemma form_request_valid: "form_request h = Inr q \<Longrightarrow> list_all valid_task (cy_Tasks q)"
  by (auto simp: form_request_def Let_def split: upload.splits if_splits sum.splits
      elim!: add_validated_valid)

lemma read_request_valid:
  assumes "read_request get h = Inr q"
  shows "list_all valid_task (cy_Tasks q)"
proof -
  obtain p where p: "json_request (hr_Json h) = Inr p \<or> form_request h = Inr p" "url_request get p = Inr q"
    using assms by (auto simp: read_request_def Let_def split: if_splits sum.splits)
  then have "list_all valid_task (cy_Tasks p)"
    using json_request_valid form_request_valid by blast
  with p(2) show ?thesis
    by (auto simp: url_request_def split: if_splits fetched.splits elim!: add_validated_valid)
qed

definition refusal :: "response + 'a \<Rightarrow> bool" where
  "refusal r = (case r of Inl (st, _) \<Rightarrow> st \<in> {400, 500} | Inr _ \<Rightarrow> True)"

lemma refusals [simp]: "refusal (validated e ls)" "refusal (add_validated e ls q)" "refusal (json_request j)"
  by (auto simp: refusal_def validated_def add_validated_def json_request_def
      split: prod.splits option.splits sum.splits if_splits)

lemma refusal_Inr [simp]: "refusal (Inr x)"
  by (simp add: refusal_def)

lemma refusal_bind:
  "refusal x \<Longrightarrow> (\<And>q. refusal (f q)) \<Longrightarrow> refusal (case x of Inl r \<Rightarrow> Inl r | Inr q \<Rightarrow> f q)"
proof (cases x)
  case (Inl r)
  then show "refusal x \<Longrightarrow> ?thesis" by (simp add: refusal_def)
next
  case (Inr q)
  then show "(\<And>q. refusal (f q)) \<Longrightarrow> ?thesis" by simp
qed

lemma refusal_read: "refusal (read_request get h)"
proof -
  have "refusal (form_request h)"
    by (auto simp: form_request_def Let_def refusal_def [of "Inl _"] split: upload.split intro!: refusal_bind)
  moreover have "refusal (url_request get q)" for q
    by (auto simp: url_request_def refusal_def [of "Inl _"] split: fetched.split)
  ultimately show ?thesis
    by (auto simp: read_request_def Let_def refusal_def [of "Inl _"] intro!: refusal_bind)
qed

text \<open>C23: A request to create a YouTube job is accepted as a whole or refused as a whole: with status
201 exactly one job is added, pending, its counters are the number of its tasks, and the tasks handed to
the background insertion are all valid YouTube URLs; with any other status the answer is 400 or 500 and
nothing has changed.\<close>

theorem CreateYoutubeJob_all_or_nothing:
  "case CreateYoutubeJob S get newID h w of
     (w', st, b) \<Rightarrow>
       st = StatusCreated
       \<and> (\<exists>job tasks. b = BYtJob job \<and> w_ytJobs w' = w_ytJobs w @ [job] \<and> yj_ID job = newID
           \<and> yj_Status job = StatusPending \<and> yj_TotalCount job = int (length tasks)
           \<and> yj_PendingCount job = int (length tasks) \<and> list_all valid_task tasks
           \<and> w_spawned w' = w_spawned w @ (if tasks = [] then [] else [GoAddYtTasks newID tasks]))
     \<or> st \<in> {400, 500} \<and> w' = w"
proof (cases "read_request get h")
  case (Inl r)
  then show ?thesis
    using refusal_read [of get h] by (cases r) (simp add: CreateYoutubeJob_def refusal_def)
next
  case (Inr q)
  then show ?thesis
    using read_request_valid [OF Inr]
    by (auto simp: CreateYoutubeJob_def Let_def new_youtube_job_def spawn_def intro!: exI [of _ "cy_Tasks q"])
qed

section \<open>Cleanup\<close>

lemma rrun_lrems:
  assumes "ls_of (db q) = Some l"
  shows "ls_of (rrun redis_ref db (map (\<lambda>q. LREM q tid) qs) q) =
    Some (if q \<in> set qs then filter (\<lambda>x. x \<noteq> tid) l else l)"
  using assms
proof (induction qs arbitrary: db l)
  case (Cons p qs)
  show ?case
  proof (cases "p = q")
    case True
    then have "ls_of (fst (redis_ref db (LREM p tid)) q) = Some (filter (\<lambda>x. x \<noteq> tid) l)"
      using Cons.prems by simp
    from Cons.IH [where db = "fst (redis_ref db (LREM p tid))", OF this] show ?thesis
      using True by (simp add: rrun_Cons)
  next
    case False
    have "ls_of (fst (redis_ref db (LREM p tid)) q) = Some l"
      using Cons.prems False by (simp add: redis_ref_frame del: redis_ref.simps)
    from Cons.IH [where db = "fst (redis_ref db (LREM p tid))", OF this] False show ?thesis
      by (simp add: rrun_Cons)
  qed
qed simp

abbreviation cleanup_one :: "string list \<Rightarrow> string list \<Rightarrow> string \<Rightarrow> redis_cmd list" where
  "cleanup_one ds ms tid \<equiv>
     DEL [''task:'' @ tid] # map (\<lambda>q. LREM q tid) ds @ map (\<lambda>q. LREM q tid) ms"

lemma cleanup_yt_queue:
  assumes "ls_of (db q) = Some l" "q \<in> set ds \<union> set ms" "\<And>tid. q \<noteq> ''task:'' @ tid"
  shows "ls_of (rrun redis_ref db (cleanup_yt_cmds ds ms tids) q) =
    Some (filter (\<lambda>x. x \<notin> set tids) l)"
  using assms(1)
proof (induction tids arbitrary: db l)
  case (Cons tid tids)
  let ?d0 = "fst (redis_ref db (DEL [''task:'' @ tid]))"
  let ?d1 = "rrun redis_ref ?d0 (map (\<lambda>q. LREM q tid) ds)"
  let ?d2 = "rrun redis_ref ?d1 (map (\<lambda>q. LREM q tid) ms)"
  have "ls_of (?d0 q) = Some l"
    using Cons.prems assms(3) [of tid] by (simp add: redis_ref_frame del: redis_ref.simps)
  from rrun_lrems [where db = ?d1 and tid = tid and qs = ms,
      OF rrun_lrems [where db = ?d0 and tid = tid and qs = ds, OF this]]
  have "ls_of (?d2 q) = Some (filter (\<lambda>x. x \<noteq> tid) l)"
    using assms(2) by (auto simp: filter_filter [symmetric] split: if_splits)
  from Cons.IH [where db = ?d2, OF this] show ?case
    by (simp add: cleanup_yt_cmds_def rrun_Cons rrun_append conj_commute)
qed (simp add: cleanup_yt_cmds_def)

lemma cleanup_yt_docs:
  assumes "tid \<in> set tids" "\<And>q. q \<in> set ds \<union> set ms \<Longrightarrow> q \<noteq> ''task:'' @ tid"
  shows "rrun redis_ref db (cleanup_yt_cmds ds ms tids) (''task:'' @ tid) = None"
proof -
  have only: "filter (\<lambda>c. ''task:'' @ tid \<in> cmd_keys c) (cleanup_yt_cmds ds ms tids)
      = replicate (length (filter (\<lambda>t. t = tid) tids)) (DEL [''task:'' @ tid])" for tids
  proof (induction tids)
    case (Cons t tids)
    have "filter (\<lambda>c. ''task:'' @ tid \<in> cmd_keys c) (map (\<lambda>q. LREM q t) qs) = []"
      if "set qs \<subseteq> set ds \<union> set ms" for qs
      using that assms(2) by (auto simp: filter_empty_conv)
    then show ?case using Cons by (auto simp: cleanup_yt_cmds_def)
  qed (simp add: cleanup_yt_cmds_def)
  have dels: "rrun redis_ref db (replicate (Suc n) (DEL [k])) k = None" for n k and db :: redis_db
    using rrun_dels [of db "replicate (Suc n) [k]" k] by (simp add: map_replicate_const)
  obtain n where n: "length (filter (\<lambda>t. t = tid) tids) = Suc n"
    using assms(1) by (cases "length (filter (\<lambda>t. t = tid) tids)") (auto simp: filter_empty_conv)
  show ?thesis
    using rrun_filter [of db "cleanup_yt_cmds ds ms tids" "''task:'' @ tid"]
    unfolding only n by (rule trans) (rule dels)
qed

definition yt_queues :: "string \<Rightarrow> string list" where
  "yt_queues m = cleanup_queues download_queue m @ cleanup_queues metadata_queue m"

lemma yt_queue_plain:
  "q \<in> set (yt_queues m) \<Longrightarrow> q \<noteq> ''task:'' @ tid \<and> q \<noteq> yt_job_key j \<and> q \<noteq> yt_lock_key j \<and> q \<noteq> yt_offset_key j"
  by (auto simp: yt_queues_def cleanup_queues_def key_defs split: if_splits)

lemma cleanup_yt_redis:
  assumes "svc_up S" "zs_of (w_redis w (yt_job_key j)) = Some zs"
  shows "w_redis (cleanupYoutubeJobRedis S j w) =
    (rrun redis_ref (w_redis w) (if zs = [] then [] else
        cleanup_yt_cmds (cleanup_queues download_queue (snd (getJobMachineName S j w)))
          (cleanup_queues metadata_queue (snd (getJobMachineName S j w))) (map snd zs)))
      (yt_job_key j := None, yt_lock_key j := None, yt_offset_key j := None)"
proof -
  have up: "redis_up (rx S)" using assms(1) by (simp add: svc_up_def)
  have z: "redis_do S (ZRANGE (yt_job_key j) 0 (- 1)) w = (w, RArr (map snd zs))"
    using assms(2) by (simp add: redis_do_up [OF up] z_slice_all)
  show ?thesis
  proof (cases zs)
    case Nil
    then show ?thesis
      using z by (simp add: cleanupYoutubeJobRedis_def redis_set_def redis_do_up [OF up] Let_def)
  next
    case (Cons p ps)
    then show ?thesis
      using z by (simp add: cleanupYoutubeJobRedis_def redis_set_def redis_do_up [OF up]
          redis_pipe_up [OF up] split_beta Let_def)
  qed
qed

text \<open>Cleaning up a YouTube job leaves none of its tasks behind: its index, lock and offset are
gone, every document the index named is gone, and in each queue its tasks can wait in - those of its
machine and the common ones - exactly the entries of other tasks remain, in order.\<close>

theorem cleanupYoutubeJobRedis_effect:
  assumes "svc_up S" and "zs_of (w_redis w (yt_job_key j)) = Some zs"
    and "q \<in> set (yt_queues (snd (getJobMachineName S j w)))" and "ls_of (w_redis w q) = Some l"
    and "w' = cleanupYoutubeJobRedis S j w"
  shows "ls_of (w_redis w' q) = Some (filter (\<lambda>x. x \<notin> snd ` set zs) l)
    \<and> (\<forall>m\<in>snd ` set zs. w_redis w' (''task:'' @ m) = None)
    \<and> w_redis w' (yt_job_key j) = None \<and> w_redis w' (yt_lock_key j) = None
    \<and> w_redis w' (yt_offset_key j) = None"
proof (cases "zs = []")
  case True
  then show ?thesis
    using assms yt_queue_plain [OF assms(3)] by (simp add: cleanup_yt_redis)
next
  case False
  let ?m = "snd (getJobMachineName S j w)"
  let ?cmds = "cleanup_yt_cmds (cleanup_queues download_queue ?m) (cleanup_queues metadata_queue ?m) (map snd zs)"
  have "ls_of (rrun redis_ref (w_redis w) ?cmds q) = Some (filter (\<lambda>x. x \<notin> set (map snd zs)) l)"
    using assms(3,4) yt_queue_plain [OF assms(3)] by (intro cleanup_yt_queue) (auto simp: yt_queues_def)
  moreover have "rrun redis_ref (w_redis w) ?cmds (''task:'' @ m) = None" if "m \<in> snd ` set zs" for m
  proof (rule cleanup_yt_docs)
    show "m \<in> set (map snd zs)" using that by simp
    show "q \<noteq> ''task:'' @ m"
      if "q \<in> set (cleanup_queues download_queue ?m) \<union> set (cleanup_queues metadata_queue ?m)" for q
      using that yt_queue_plain [of q ?m m] by (auto simp: yt_queues_def)
  qed
  moreover have "''task:'' @ m \<noteq> yt_job_key j \<and> ''task:'' @ m \<noteq> yt_lock_key j \<and> ''task:'' @ m \<noteq> yt_offset_key j" for m
    by (simp add: key_defs)
  ultimately show ?thesis
    using False yt_queue_plain [OF assms(3), of _ j]
    by (simp add: assms(5) cleanup_yt_redis [OF assms(1,2)])
qed

definition yt_clean_world :: world where
  "yt_clean_world = world0\<lparr>w_redis := [yt_job_key 3 \<mapsto> RZ [(7, itoa 7)],
     metadata_queue ''all'' \<mapsto> RL [itoa 7, itoa 8, itoa 7]]\<rparr>"

theorem cleanupYoutubeJobRedis_effect_witness:
  "ls_of (w_redis (cleanupYoutubeJobRedis svc_ref 3 yt_clean_world) (metadata_queue ''all'')) = Some [itoa 8]"
proof -
  have m: "snd (getJobMachineName svc_ref 3 yt_clean_world) = []"
    by (simp add: getJobMachineName_def yt_clean_world_def world0_def)
  have z: "zs_of (w_redis yt_clean_world (yt_job_key 3)) = Some [(7, itoa 7)]"
    by (simp add: yt_clean_world_def zs_of_def key_defs)
  have l: "ls_of (w_redis yt_clean_world (metadata_queue ''all'')) = Some [itoa 7, itoa 8, itoa 7]"
    by (simp add: yt_clean_world_def ls_of_def)
  have q: "metadata_queue ''all'' \<in> set (yt_queues (snd (getJobMachineName svc_ref 3 yt_clean_world)))"
    unfolding m by (simp add: yt_queues_def cleanup_queues_def)
  show ?thesis
    using cleanupYoutubeJobRedis_effect [OF svc_up_ref z q l refl] by simp
qed

end
