(* ===== verification/FfmpegJobs.thy ===== *)
theory FfmpegJobs
  imports YoutubeJobFacts
begin

text \<open>
  The ffmpeg-job handlers of \<^verbatim>\<open>job_handler.go\<close>, the queue statistics, and the pipeline handlers
  of \<^verbatim>\<open>pipeline_handler.go\<close> that create a chain of three jobs.
\<close>

section \<open>Ffmpeg jobs\<close>

definition new_ffmpeg_job :: "int \<Rightarrow> time \<Rightarrow> ffmpeg_job \<Rightarrow> ffmpeg_job" where
  "new_ffmpeg_job newID now j =
     j\<lparr>fj_ID := (if fj_ID j = 0 then newID else fj_ID j), fj_Status := StatusPending,
       fj_PeriodicInterval := (if fj_IsIncremental j \<and> fj_PeriodicInterval j \<le> 0 then 600
                               else fj_PeriodicInterval j),
       fj_TotalCount := 0, fj_PendingCount := 0,
       fj_CreatedAt := (if fj_CreatedAt j = 0 then now else fj_CreatedAt j),
       fj_UpdatedAt := (if fj_UpdatedAt j = 0 then now else fj_UpdatedAt j)\<rparr>"

definition CreateFfmpegJob :: "svc \<Rightarrow> int \<Rightarrow> ffmpeg_job option \<Rightarrow> world \<Rightarrow> world \<times> response" where
  "CreateFfmpegJob S newID req w =
     (case req of
        None \<Rightarrow> (w, StatusBadRequest, BError ''bind'')
      | Some j \<Rightarrow>
          (let job = new_ffmpeg_job newID (w_now w) j
           in if dbErr S ''ffmpeg_jobs.create'' (fj_ID job)
                 \<or> find_row fj_ID (fj_ID job) (w_ffJobs w) \<noteq> None
              then (w, StatusInternalServerError, BError ''create'')
              else (let w1 = w\<lparr>w_ffJobs := w_ffJobs w @ [job]\<rparr>
                    in if dbErr S ''ffmpeg_jobs.reload'' (fj_ID job)
                       then (w1, StatusInternalServerError, BError ''Failed to load metadata: '')
                       else (w1, StatusCreated, BFfJob job))))"

definition ff_due :: "time \<Rightarrow> ffmpeg_job \<Rightarrow> bool" where
  "ff_due now j = (fj_Status j = StatusPending
     \<or> fj_Status j = StatusRunning \<and> scan_due now (fj_PeriodicInterval j) (fj_LastScanTime j))"

text \<open>
  The handler runs two statements, without a transaction: the due jobs are read, and those that
  were read are set to SCANNING. The error of the second one is ignored. Other requests run between
  the two; \<open>ListPendingFfmpegJobs\<close> is a request that runs alone, \<open>claim_run\<close> below interleaves them.
\<close>

definition find_due_ffmpeg :: "svc \<Rightarrow> world \<Rightarrow> ffmpeg_job list option" where
  "find_due_ffmpeg S w =
     (if dbErr S ''ffmpeg_jobs.due'' 0 then None
      else Some (filter (ff_due (w_now w)) (w_ffJobs w)))"

definition mark_scanning :: "svc \<Rightarrow> ffmpeg_job list \<Rightarrow> world \<Rightarrow> world" where
  "mark_scanning S jobs w =
     (let ids = map fj_ID jobs
      in if ids \<noteq> [] \<and> \<not> dbErr S ''ffmpeg_jobs.scanning'' 0
         then w\<lparr>w_ffJobs := update_where (\<lambda>j. fj_ID j \<in> set ids)
                (\<lambda>j. j\<lparr>fj_Status := StatusScanning\<rparr>) (w_ffJobs w)\<rparr>
         else w)"

definition ListPendingFfmpegJobs :: "svc \<Rightarrow> world \<Rightarrow> world \<times> response" where
  "ListPendingFfmpegJobs S w =
     (case find_due_ffmpeg S w of
        None \<Rightarrow> (w, StatusInternalServerError, BError ''find'')
      | Some jobs \<Rightarrow> (mark_scanning S jobs w, StatusOK, BFfJobs jobs))"

definition ff_report_updates :: "update_job_request \<Rightarrow> ffmpeg_job \<Rightarrow> ffmpeg_job" where
  "ff_report_updates q j =
     j\<lparr>fj_Status := (if uj_Status q \<noteq> [] then uj_Status q else fj_Status j),
       fj_LastScanTime := or_else (uj_LastScanTime q) (fj_LastScanTime j),
       fj_LastScannedKey := or_else (uj_LastScannedKey q) (fj_LastScannedKey j),
       fj_TotalCount := (case uj_TotalCount q of Some n \<Rightarrow> n | None \<Rightarrow> fj_TotalCount j)\<rparr>"

definition ff_increments :: "update_job_request \<Rightarrow> ffmpeg_job \<Rightarrow> ffmpeg_job" where
  "ff_increments q j =
     j\<lparr>fj_SuccessCount := fj_SuccessCount j + uj_IncSuccess q,
       fj_FailedCount := fj_FailedCount j + uj_IncFailed q,
       fj_PendingCount := max 0 (fj_PendingCount j - (uj_IncSuccess q + uj_IncFailed q)),
       fj_SuccessSizeBytes := fj_SuccessSizeBytes j + uj_IncSuccessBytes q\<rparr>"

definition update_ff_job :: "int \<Rightarrow> (ffmpeg_job \<Rightarrow> ffmpeg_job) \<Rightarrow> world \<Rightarrow> world" where
  "update_ff_job jid f w = w\<lparr>w_ffJobs := update_where (\<lambda>j. fj_ID j = jid) f (w_ffJobs w)\<rparr>"

definition first_ff_job :: "svc \<Rightarrow> int \<Rightarrow> world \<Rightarrow> ffmpeg_job option" where
  "first_ff_job S jid w =
     (if dbErr S ''ffmpeg_jobs.first'' jid then None else find_row fj_ID jid (w_ffJobs w))"

definition UpdateFfmpegJobStatus ::
  "svc \<Rightarrow> int \<Rightarrow> update_job_request option \<Rightarrow> world \<Rightarrow> world \<times> response" where
  "UpdateFfmpegJobStatus S jid req w =
     (case req of
        None \<Rightarrow> (w, StatusBadRequest, BError ''bind'')
      | Some q \<Rightarrow>
     (case first_ff_job S jid w of
        None \<Rightarrow> (w, StatusNotFound, BError ''Job not found'')
      | Some job0 \<Rightarrow>
          (let updates = (uj_Status q \<noteq> [] \<or> uj_LastScanTime q \<noteq> None \<or> uj_LastScannedKey q \<noteq> None
                          \<or> uj_TotalCount q \<noteq> None);
               w1 = (if (uj_IncSuccess q > 0 \<or> uj_IncFailed q > 0 \<or> uj_IncSuccessBytes q > 0)
                        \<and> \<not> dbErr S ''ffmpeg_jobs.inc'' jid
                     then update_ff_job jid (ff_increments q) w else w)
           in if updates \<and> dbErr S ''ffmpeg_jobs.report'' jid
              then (w1, StatusInternalServerError, BError ''report'')
              else (let w2 = (if updates then update_ff_job jid (ff_report_updates q) w1 else w1)
                    in (w2, StatusOK, BFfJob (case find_row fj_ID jid (w_ffJobs w2) of
                                                Some j \<Rightarrow> j | None \<Rightarrow> job0))))))"

definition DeleteFfmpegJob :: "svc \<Rightarrow> int \<Rightarrow> world \<Rightarrow> world \<times> response" where
  "DeleteFfmpegJob S jid w =
     (if dbErr S ''ffmpeg_jobs.delete'' jid then (w, StatusInternalServerError, BError ''delete'')
      else (spawn (GoCleanupFf jid) (w\<lparr>w_ffJobs := filter (\<lambda>j. fj_ID j \<noteq> jid) (w_ffJobs w)\<rparr>),
            StatusOK, BStatus ''deleted''))"

text \<open>The goroutine of the delete handler.\<close>

definition cleanupFfmpegJobRedis :: "svc \<Rightarrow> int \<Rightarrow> world \<Rightarrow> world" where
  "cleanupFfmpegJobRedis S jid w =
     (let (w1, r) = redis_do S (ZRANGE (ff_job_key jid) 0 (- 1)) w;
          w2 = (case r of
                  RArr (tid # tids) \<Rightarrow>
                    fst (redis_pipe S (map (\<lambda>t. DEL [''ff:task:'' @ t]) (tid # tids)) w1)
                | _ \<Rightarrow> w1);
          w3 = redis_set S (DEL [ff_job_key jid]) w2;
          w4 = redis_set S (DEL [ff_lock_key jid]) w3
      in redis_set S (DEL [ff_offset_key jid]) w4)"

section \<open>Queue statistics\<close>

text \<open>\<^verbatim>\<open>strconv.ParseInt(s, 10, 64)\<close>\<close>

definition parse_int :: "string \<Rightarrow> int option" where
  "parse_int s =
     (let body = (case s of [] \<Rightarrow> [] | c # cs \<Rightarrow> if c = CHR ''-'' \<or> c = CHR ''+'' then cs else s);
          n = (case s of [] \<Rightarrow> 0 | c # _ \<Rightarrow> if c = CHR ''-'' then - int (aton body) else int (aton body))
      in if body \<noteq> [] \<and> list_all is_digit body \<and> - (2 ^ 63) \<le> n \<and> n < 2 ^ 63 then Some n else None)"

definition job_of_task :: "int \<Rightarrow> int" where
  "job_of_task taskID = go_div taskID 1000000"

definition count_job :: "string \<Rightarrow> (int \<times> nat) list \<Rightarrow> (int \<times> nat) list" where
  "count_job s acc =
     (case parse_int s of
        None \<Rightarrow> acc
      | Some t \<Rightarrow> (let j = job_of_task t
                   in aset j (Suc (case map_of acc j of Some n \<Rightarrow> n | None \<Rightarrow> 0)) acc))"

definition queue_jobs :: "string list \<Rightarrow> (int \<times> nat) list" where
  "queue_jobs ids = fold count_job ids []"

record queue_stat =
  qs_Queue :: string
  qs_Machine :: string
  qs_Download :: bool
  qs_Jobs :: "(int \<times> nat) list"

definition enabled_machines :: "string list \<Rightarrow> string list" where
  "enabled_machines names = rev (remdups (rev (filter (\<lambda>m. m \<noteq> []) names)))"

text \<open>
  Kind and machine are read off the queue's name: the machine is \<^verbatim>\<open>all\<close> when the name ends so,
  else the fourth of the parts between the colons.
\<close>

fun split_colons :: "string \<Rightarrow> string \<Rightarrow> string list" where
  "split_colons acc [] = [rev acc]"
| "split_colons acc (c # s) =
     (if c = CHR '':'' then rev acc # split_colons [] s else split_colons (c # acc) s)"

definition queue_machine :: "string \<Rightarrow> string" where
  "queue_machine q =
     (if drop (length q - 4) q = '':all'' then ''all''
      else (let parts = split_colons [] q in if length parts \<ge> 4 then parts ! 3 else []))"

definition queue_names :: "string list \<Rightarrow> string list" where
  "queue_names machines =
     [download_queue ''all'', metadata_queue ''all'']
     @ concat (map (\<lambda>m. [download_queue m, metadata_queue m]) machines)"

definition queue_stat_of :: "svc \<Rightarrow> world \<Rightarrow> string \<Rightarrow> queue_stat list" where
  "queue_stat_of S w q =
     (case snd (redis_do S (LLEN q) w) of
        RInt n \<Rightarrow>
          if n = 0 then []
          else (case snd (redis_do S (LRANGE q 0 (- 1)) w) of
                  RArr ids \<Rightarrow> [\<lparr>qs_Queue = q, qs_Machine = queue_machine q,
                     qs_Download = has_substring ''download_ready'' q, qs_Jobs = queue_jobs ids\<rparr>]
                | _ \<Rightarrow> [])
      | _ \<Rightarrow> [])"

definition GetYoutubeQueueStats :: "svc \<Rightarrow> string list option \<Rightarrow> world \<Rightarrow> (queue_stat list \<times> nat \<times> nat) option"
where
  "GetYoutubeQueueStats S configs w =
     (case configs of
        None \<Rightarrow> None
      | Some names \<Rightarrow>
          (let machines = enabled_machines names; qs = queue_names machines
           in Some (concat (map (queue_stat_of S w) qs), length qs, length machines)))"

section \<open>Pipelines\<close>

record create_pipeline_request =
  cp_Name :: string
  cp_YoutubeURLs :: "string list"
  cp_MetadataID :: int

fun join_lines :: "string list \<Rightarrow> string" where
  "join_lines [] = []"
| "join_lines [s] = s"
| "join_lines (s # t # ss) = s @ CHR 0x0A # join_lines (t # ss)"

definition raw_path :: "int \<Rightarrow> string" where
  "raw_path i = ''pipeline/'' @ itoa i @ ''/raw/''"

definition process_path :: "int \<Rightarrow> string" where
  "process_path i = ''pipeline/'' @ itoa i @ ''/process/''"

record pipeline_ids =
  id_Pipeline :: int
  id_Youtube :: int
  id_Transfer :: int
  id_Ffmpeg :: int

definition pipeline_row :: "pipeline_ids \<Rightarrow> time \<Rightarrow> create_pipeline_request \<Rightarrow> pipeline_job" where
  "pipeline_row ids now q =
     \<lparr>pj_ID = id_Pipeline ids, pj_Name = cp_Name q, pj_Status = StatusRunning, pj_YoutubeJobID = 0,
      pj_TransferJobID = 0, pj_FfmpegJobID = 0, pj_YoutubeURLs = join_lines (cp_YoutubeURLs q),
      pj_CreatedAt = now, pj_UpdatedAt = now\<rparr>"

text \<open>The two columns with a default that the literal leaves empty take it.\<close>

definition pipeline_yt :: "pipeline_ids \<Rightarrow> time \<Rightarrow> create_pipeline_request \<Rightarrow> youtube_job" where
  "pipeline_yt ids now q =
     YoutubeJob0\<lparr>yj_ID := id_Youtube ids, yj_R2Prefix := raw_path (id_Pipeline ids),
       yj_DownloadMode := ''both'', yj_VideoSelectionStrategy := ''highest_quality'',
       yj_Status := StatusPending, yj_TotalCount := int (length (cp_YoutubeURLs q)),
       yj_PendingCount := int (length (cp_YoutubeURLs q)), yj_CreatedAt := now\<rparr>"

definition pipeline_tx :: "pipeline_ids \<Rightarrow> time \<Rightarrow> create_pipeline_request \<Rightarrow> transfer_job" where
  "pipeline_tx ids now q =
     TransferJob0\<lparr>tj_JobID := id_Transfer ids, tj_MetadataID := cp_MetadataID q,
       tj_SrcDir := raw_path (id_Pipeline ids), tj_DstDir := process_path (id_Pipeline ids),
       tj_DeleteSource := True, tj_IsIncremental := True, tj_PeriodicInterval := 60,
       tj_Status := StatusPending, tj_CreatedAt := now, tj_UpdatedAt := now\<rparr>"

definition pipeline_ff :: "pipeline_ids \<Rightarrow> time \<Rightarrow> create_pipeline_request \<Rightarrow> ffmpeg_job" where
  "pipeline_ff ids now q =
     FfmpegJob0\<lparr>fj_ID := id_Ffmpeg ids, fj_MetadataID := cp_MetadataID q,
       fj_S3Prefix := process_path (id_Pipeline ids), fj_IsIncremental := True,
       fj_PeriodicInterval := 60, fj_Status := StatusPending, fj_CreatedAt := now,
       fj_UpdatedAt := now\<rparr>"

text \<open>
  Five statements in a row, none of them in a transaction: what is created before a failing one
  stays.
\<close>

definition CreatePipelineJob ::
  "svc \<Rightarrow> pipeline_ids \<Rightarrow> create_pipeline_request option \<Rightarrow> world \<Rightarrow> world \<times> response" where
  "CreatePipelineJob S ids req w =
     (case req of
        None \<Rightarrow> (w, StatusBadRequest, BError ''bind'')
      | Some q \<Rightarrow>
     (let now = w_now w; row = pipeline_row ids now q;
          w1 = w\<lparr>w_pipelines := w_pipelines w @ [row]\<rparr>;
          w2 = spawn (GoAddYtTasks (id_Youtube ids) (cp_YoutubeURLs q))
                 (w1\<lparr>w_ytJobs := w_ytJobs w1 @ [pipeline_yt ids now q]\<rparr>);
          w3 = w2\<lparr>w_txJobs := w_txJobs w2 @ [pipeline_tx ids now q]\<rparr>;
          w4 = w3\<lparr>w_ffJobs := w_ffJobs w3 @ [pipeline_ff ids now q]\<rparr>;
          linked = row\<lparr>pj_YoutubeJobID := id_Youtube ids, pj_TransferJobID := id_Transfer ids,
                       pj_FfmpegJobID := id_Ffmpeg ids\<rparr>;
          fail = (\<lambda>v e. (v, StatusInternalServerError, BError e))
      in if cp_YoutubeURLs q = [] then (w, StatusBadRequest, BError ''No Youtube URLs provided'')
         else if dbErr S ''pipeline_jobs.create'' 0 then fail w ''Failed to create pipeline: ''
         else if dbErr S ''youtube_jobs.create'' (id_Youtube ids)
         then fail w1 ''Failed to create youtube job: ''
         else if dbErr S ''transfer_jobs.create'' (id_Transfer ids)
         then fail w2 ''Failed to create transfer job: ''
         else if dbErr S ''ffmpeg_jobs.create'' (id_Ffmpeg ids)
         then fail w3 ''Failed to create ffmpeg job: ''
         else if dbErr S ''pipeline_jobs.save'' (id_Pipeline ids)
         then fail w4 ''Failed to update pipeline: ''
         else (w4\<lparr>w_pipelines := update_where (\<lambda>p. pj_ID p = id_Pipeline ids) (\<lambda>_. linked)
                    (w_pipelines w4)\<rparr>, StatusCreated, BPipeline linked)))"

definition first_pipeline :: "svc \<Rightarrow> int \<Rightarrow> world \<Rightarrow> pipeline_job option" where
  "first_pipeline S i w =
     (if dbErr S ''pipeline_jobs.first'' i then None else find_row pj_ID i (w_pipelines w))"

definition GetPipelineJob :: "svc \<Rightarrow> int \<Rightarrow> world \<Rightarrow> response" where
  "GetPipelineJob S i w =
     (case first_pipeline S i w of
        None \<Rightarrow> (StatusNotFound, BError ''Job not found'')
      | Some p \<Rightarrow> (StatusOK, BPipeline p))"

definition RetryPipelineJob :: "svc \<Rightarrow> int \<Rightarrow> world \<Rightarrow> world \<times> response" where
  "RetryPipelineJob S i w =
     (case first_pipeline S i w of
        None \<Rightarrow> (w, StatusNotFound, BError ''Job not found'')
      | Some p \<Rightarrow>
          (let w1 = (case if pj_YoutubeJobID p \<noteq> 0 then first_yt_job S (pj_YoutubeJobID p) w else None of
                       Some j \<Rightarrow> spawn (GoRetryYt (pj_YoutubeJobID p) (yj_Status j)) w | None \<Rightarrow> w);
               w2 = (case if pj_TransferJobID p \<noteq> 0 then first_tx_job S (pj_TransferJobID p) w1 else None of
                       Some j \<Rightarrow> spawn (GoRetryTx (pj_TransferJobID p) (tj_Status j)) w1 | None \<Rightarrow> w1);
               w3 = (if finished_status (pj_Status p) \<and> \<not> dbErr S ''pipeline_jobs.save'' i
                     then w2\<lparr>w_pipelines := update_where (\<lambda>r. pj_ID r = i)
                            (\<lambda>_. p\<lparr>pj_Status := StatusRunning\<rparr>) (w_pipelines w2)\<rparr> else w2)
           in (w3, StatusOK, BMessage ''Pipeline retry initiated'')))"

section \<open>Facts\<close>

lemma parse_int_itoa:
  assumes "0 \<le> i" "i < 2 ^ 63"
  shows "parse_int (itoa i) = Some i"
proof -
  obtain c cs where s: "ntoa (nat i) = c # cs" by (cases "ntoa (nat i)") simp_all
  have d: "list_all is_digit (c # cs)" using ntoa_digits [of _ "nat i"] s by (auto simp: list_all_iff)
  then have "c \<noteq> CHR ''-''" "c \<noteq> CHR ''+''" by (auto simp: is_digit_def)
  moreover have "int (aton (c # cs)) = i" using assms(1) aton_ntoa [of "nat i"] s by simp
  ultimately show ?thesis
    using assms d s by (simp add: parse_int_def itoa_def Let_def)
qed

lemma queue_jobs_one:
  assumes "\<And>s. s \<in> set ids \<Longrightarrow> \<exists>t. parse_int s = Some t \<and> job_of_task t = j" "ids \<noteq> []"
  shows "queue_jobs ids = [(j, length ids)]"
  using assms
proof (induction ids rule: rev_induct)
  case (snoc s ids)
  obtain t where t: "parse_int s = Some t" "job_of_task t = j" using snoc.prems(1) [of s] by auto
  show ?case
  proof (cases "ids = []")
    case True
    then show ?thesis using t by (simp add: queue_jobs_def count_job_def)
  next
    case False
    then have "queue_jobs ids = [(j, length ids)]" using snoc by auto
    then show ?thesis using t by (simp add: queue_jobs_def count_job_def)
  qed
qed simp

text \<open>The statistics attribute queued tasks to their job: of a job whose tasks were numbered from the
start of its range, a queue that holds their identifiers is reported as that job with their number, as
long as there are at most a million of them.\<close>

theorem queue_stats_attribute_tasks:
  assumes "0 \<le> j" and "j < 1000000" and "urls \<noteq> []" and "length urls \<le> 1000000"
  shows "queue_jobs (map (\<lambda>t. itoa (yt_ID t)) (new_tasks now j (next_task_id j (RArr [])) urls))
    = [(j, length urls)]"
proof -
  have start: "next_task_id j (RArr []) = j * 1000000" by (simp add: next_task_id_def)
  have "\<exists>t. parse_int s = Some t \<and> job_of_task t = j"
    if "s \<in> set (map (\<lambda>t. itoa (yt_ID t)) (new_tasks now j (j * 1000000) urls))" for s
  proof -
    obtain i where i: "i < length urls" "s = itoa (j * 1000000 + int i)"
      using \<open>s \<in> _\<close> by (auto simp: new_tasks_def in_set_enumerate_eq)
    let ?t = "j * 1000000 + int i"
    have "?t div 1000000 = j" using i(1) assms(4) by simp
    moreover have "0 \<le> ?t" "?t < 2 ^ 63" using assms(1,2,4) i(1) by simp_all
    ultimately show ?thesis
      using i(2) parse_int_itoa [of ?t] by (auto simp: job_of_task_def)
  qed
  moreover have "map (\<lambda>t. itoa (yt_ID t)) (new_tasks now j (j * 1000000) urls) \<noteq> []"
    using assms(3) by (cases urls) (simp_all add: new_tasks_def)
  ultimately have "queue_jobs (map (\<lambda>t. itoa (yt_ID t)) (new_tasks now j (j * 1000000) urls))
      = [(j, length (map (\<lambda>t. itoa (yt_ID t)) (new_tasks now j (j * 1000000) urls)))]"
    by (rule queue_jobs_one)
  then show ?thesis unfolding start by (simp add: new_tasks_def)
qed

theorem queue_stats_attribute_tasks_witness:
  "queue_jobs (map (\<lambda>t. itoa (yt_ID t)) (new_tasks 5 13 (next_task_id 13 (RArr [])) [''a'', ''b''])) = [(13, 2)]"
  using queue_stats_attribute_tasks [of 13 "[''a'', ''b'']" 5] by simp

text \<open>
  Requests for pending jobs, interleaved by statements. A request, named by a number, has read the
  jobs of \<open>cl_read\<close> and not yet marked them, or it has marked and answered those of \<open>cl_answer\<close>.
\<close>

record claim_state =
  cl_world :: world
  cl_read :: "nat \<Rightarrow> ffmpeg_job list option"
  cl_answer :: "nat \<Rightarrow> ffmpeg_job list option"

datatype claim_event = Reads nat | Marks nat | Passes time

fun claim_step :: "svc \<Rightarrow> claim_event \<Rightarrow> claim_state \<Rightarrow> claim_state" where
  "claim_step S (Reads r) s =
     (if cl_read s r = None \<and> cl_answer s r = None
      then s\<lparr>cl_read := (cl_read s)(r := find_due_ffmpeg S (cl_world s))\<rparr> else s)"
| "claim_step S (Marks r) s =
     (case cl_read s r of
        None \<Rightarrow> s
      | Some jobs \<Rightarrow> s\<lparr>cl_world := mark_scanning S jobs (cl_world s),
                       cl_read := (cl_read s)(r := None), cl_answer := (cl_answer s)(r \<mapsto> jobs)\<rparr>)"
| "claim_step S (Passes now) s = s\<lparr>cl_world := (cl_world s)\<lparr>w_now := now\<rparr>\<rparr>"

abbreviation claim_run :: "svc \<Rightarrow> claim_event list \<Rightarrow> claim_state \<Rightarrow> claim_state" where
  "claim_run S es s \<equiv> fold (claim_step S) es s"

abbreviation claims0 :: "world \<Rightarrow> claim_state" where
  "claims0 w \<equiv> \<lparr>cl_world = w, cl_read = Map.empty, cl_answer = Map.empty\<rparr>"

lemma ListPendingFfmpegJobs_claims:
  "find_due_ffmpeg S w = Some jobs \<Longrightarrow>
     (let s = claim_run S [Reads r, Marks r] (claims0 w)
      in ListPendingFfmpegJobs S w = (cl_world s, StatusOK, BFfJobs jobs) \<and> cl_answer s r = Some jobs)"
  by (simp add: ListPendingFfmpegJobs_def)

definition scanning :: "int set \<Rightarrow> world \<Rightarrow> bool" where
  "scanning X w \<longleftrightarrow> (\<forall>j \<in> set (w_ffJobs w). fj_ID j \<in> X \<longrightarrow> fj_Status j = StatusScanning)"

lemma scanning_mark: "scanning X w \<Longrightarrow> scanning X (mark_scanning S jobs w)"
  by (auto simp: scanning_def mark_scanning_def Let_def set_update_where)

lemma mark_scanning_marks:
  "\<not> dbErr S ''ffmpeg_jobs.scanning'' 0 \<Longrightarrow> scanning (fj_ID ` set jobs) (mark_scanning S jobs w)"
  by (auto simp: scanning_def mark_scanning_def Let_def set_update_where)

lemma scanning_not_due:
  "scanning X w \<Longrightarrow> find_due_ffmpeg S w = Some jobs \<Longrightarrow> X \<inter> fj_ID ` set jobs = {}"
  by (auto simp: scanning_def find_due_ffmpeg_def ff_due_def split: if_splits)

lemma claim_step_marked:
  assumes "\<not> dbErr S ''ffmpeg_jobs.scanning'' 0"
    and "\<forall>r jobs. cl_answer s r = Some jobs \<longrightarrow> scanning (fj_ID ` set jobs) (cl_world s)"
  shows "\<forall>r jobs. cl_answer (claim_step S e s) r = Some jobs
    \<longrightarrow> scanning (fj_ID ` set jobs) (cl_world (claim_step S e s))"
proof (cases e)
  case (Marks r)
  then show ?thesis
    using assms by (auto simp: scanning_mark mark_scanning_marks split: option.split)
qed (use assms(2) in \<open>auto simp: scanning_def\<close>)

lemma claim_run_marked:
  assumes "\<not> dbErr S ''ffmpeg_jobs.scanning'' 0"
    and "\<forall>r jobs. cl_answer s r = Some jobs \<longrightarrow> scanning (fj_ID ` set jobs) (cl_world s)"
  shows "\<forall>r jobs. cl_answer (claim_run S es s) r = Some jobs
    \<longrightarrow> scanning (fj_ID ` set jobs) (cl_world (claim_run S es s))"
  using assms(2)
proof (induction es arbitrary: s)
  case (Cons e es)
  show ?case using Cons.IH [OF claim_step_marked [OF assms(1) Cons.prems]] by simp
qed simp

text \<open>A request that has not read yet when the jobs \<open>X\<close> are marked does not get one of them.\<close>

definition misses :: "int set \<Rightarrow> nat \<Rightarrow> claim_state \<Rightarrow> bool" where
  "misses X r s \<longleftrightarrow> scanning X (cl_world s)
     \<and> (\<forall>jobs. cl_read s r = Some jobs \<or> cl_answer s r = Some jobs \<longrightarrow> X \<inter> fj_ID ` set jobs = {})"

lemma claim_step_misses: "misses X r s \<Longrightarrow> misses X r (claim_step S e s)"
proof (cases e)
  case (Reads q)
  assume "misses X r s"
  with Reads show ?thesis
    by (auto simp: misses_def dest: scanning_not_due)
next
  case (Marks q)
  assume "misses X r s"
  with Marks show ?thesis
    by (auto simp: misses_def scanning_mark split: option.split)
qed (auto simp: misses_def scanning_def)

lemma claim_run_misses: "misses X r s \<Longrightarrow> misses X r (claim_run S es s)"
  by (induction es arbitrary: s) (simp_all add: claim_step_misses)

text \<open>C24: However the statements of requests for pending ffmpeg jobs interleave, a job that one
request has marked and answered is not in the answer of a request that reads the due jobs after
that, whenever it does, until something else changes the job's status.\<close>

theorem later_scanner_misses_claimed_jobs:
  assumes "\<not> dbErr S ''ffmpeg_jobs.scanning'' 0"
    and "s = claim_run S before (claims0 w)" "cl_answer s r = Some jobs"
    and "cl_read s q = None" "cl_answer s q = None"
    and "cl_answer (claim_run S after s) q = Some jobs'"
  shows "fj_ID ` set jobs \<inter> fj_ID ` set jobs' = {}"
proof -
  have "scanning (fj_ID ` set jobs) (cl_world s)"
    using claim_run_marked [OF assms(1), of "claims0 w" before] assms(2,3) by simp
  with assms(4,5) have "misses (fj_ID ` set jobs) q s" by (simp add: misses_def)
  from claim_run_misses [OF this, of S after] show ?thesis
    using assms(6) by (simp add: misses_def)
qed

definition ff_due_world :: world where
  "ff_due_world = world0\<lparr>w_ffJobs := [FfmpegJob0\<lparr>fj_ID := 6, fj_Status := StatusPending\<rparr>,
     FfmpegJob0\<lparr>fj_ID := 7, fj_Status := StatusRunning, fj_PeriodicInterval := 1,
       fj_LastScanTime := Some 0\<rparr>]\<rparr>"

theorem later_scanner_misses_claimed_jobs_witness:
  "(let s = claim_run svc_ref [Reads 1, Marks 1] (claims0 ff_due_world);
        t = claim_run svc_ref [Passes 2000000000, Reads 2, Marks 2] s
    in map fj_ID (the (cl_answer s 1)) = [6] \<and> map fj_ID (the (cl_answer t 2)) = [7]
       \<and> fj_ID ` set (the (cl_answer s 1)) \<inter> fj_ID ` set (the (cl_answer t 2)) = {})"
proof -
  let ?s = "claim_run svc_ref [Reads 1, Marks 1] (claims0 ff_due_world)"
  let ?t = "claim_run svc_ref [Passes 2000000000, Reads 2, Marks 2] ?s"
  have one: "map fj_ID (the (cl_answer ?s 1)) = [6]" "cl_answer ?s 1 \<noteq> None"
    "cl_read ?s 2 = None" "cl_answer ?s 2 = None"
    by (simp_all add: find_due_ffmpeg_def ff_due_world_def ff_due_def scan_due_def world0_def
        FfmpegJob0_def svc_ref_def)
  have two: "map fj_ID (the (cl_answer ?t 2)) = [7]" "cl_answer ?t 2 \<noteq> None"
    by (simp_all add: find_due_ffmpeg_def mark_scanning_def ff_due_world_def ff_due_def scan_due_def
        world0_def FfmpegJob0_def svc_ref_def)
  have up: "\<not> dbErr svc_ref ''ffmpeg_jobs.scanning'' 0" by (simp add: svc_ref_def)
  obtain jobs jobs' where j: "cl_answer ?s 1 = Some jobs" "cl_answer ?t 2 = Some jobs'"
    using one(2) two(2) by blast
  from later_scanner_misses_claimed_jobs [OF up refl j(1) one(3,4) j(2)] show ?thesis
    using one(1) two(1) j unfolding Let_def by (simp only: option.sel)
qed

text \<open>Two requests that both read before one of them marks hand the same job to two scanners.\<close>

lemma two_scanners_get_one_job:
  "(let s = claim_run svc_ref [Reads 1, Reads 2, Marks 1, Marks 2] (claims0 ff_due_world)
    in map_option (map fj_ID) (cl_answer s 1) = Some [6]
       \<and> map_option (map fj_ID) (cl_answer s 2) = Some [6])"
  by (simp add: find_due_ffmpeg_def mark_scanning_def ff_due_world_def ff_due_def scan_due_def
      world0_def FfmpegJob0_def svc_ref_def)

text \<open>A pipeline that was created is a chain: its row names the three new jobs, the transfer job
reads where the YouTube job writes, the ffmpeg job reads where the transfer job writes, all three are
pending, and the URLs are on their way to the YouTube job.\<close>

theorem CreatePipelineJob_chains_jobs:
  assumes "CreatePipelineJob S ids (Some q) w = (w', StatusCreated, b)"
    and "id_Pipeline ids \<notin> pj_ID ` set (w_pipelines w)"
  shows "\<exists>p y t f. b = BPipeline p \<and> w_pipelines w' = w_pipelines w @ [p]
    \<and> w_ytJobs w' = w_ytJobs w @ [y] \<and> w_txJobs w' = w_txJobs w @ [t] \<and> w_ffJobs w' = w_ffJobs w @ [f]
    \<and> pj_YoutubeJobID p = yj_ID y \<and> pj_TransferJobID p = tj_JobID t \<and> pj_FfmpegJobID p = fj_ID f
    \<and> tj_SrcDir t = yj_R2Prefix y \<and> fj_S3Prefix f = tj_DstDir t \<and> tj_SrcDir t \<noteq> tj_DstDir t
    \<and> yj_Status y = StatusPending \<and> tj_Status t = StatusPending \<and> fj_Status f = StatusPending
    \<and> tj_DeleteSource t \<and> yj_TotalCount y = int (length (cp_YoutubeURLs q))
    \<and> w_spawned w' = w_spawned w @ [GoAddYtTasks (yj_ID y) (cp_YoutubeURLs q)]"
proof -
  have old: "update_where (\<lambda>p. pj_ID p = id_Pipeline ids) f (w_pipelines w) = w_pipelines w" for f
  proof -
    have "\<And>x. x \<in> set (w_pipelines w) \<Longrightarrow> pj_ID x \<noteq> id_Pipeline ids" using assms(2) by force
    then show ?thesis by (auto simp: update_where_def intro!: map_idI)
  qed
  show ?thesis
    using assms(1) old
    by (auto simp: CreatePipelineJob_def Let_def spawn_def pipeline_row_def pipeline_yt_def pipeline_tx_def
        pipeline_ff_def raw_path_def process_path_def update_where_def split: if_splits)
qed

definition pipeline_example :: create_pipeline_request where
  "pipeline_example = \<lparr>cp_Name = ''p'', cp_YoutubeURLs = [''u''], cp_MetadataID = 2\<rparr>"

definition example_ids :: pipeline_ids where
  "example_ids = \<lparr>id_Pipeline = 1, id_Youtube = 11, id_Transfer = 12, id_Ffmpeg = 13\<rparr>"

theorem CreatePipelineJob_chains_jobs_witness:
  "\<exists>p t f w'. CreatePipelineJob svc_ref example_ids (Some pipeline_example) world0
        = (w', StatusCreated, BPipeline p) \<and> w_txJobs w' = [t] \<and> w_ffJobs w' = [f]
      \<and> fj_S3Prefix f = tj_DstDir t \<and> pj_TransferJobID p = tj_JobID t"
proof -
  obtain w' b where c: "CreatePipelineJob svc_ref example_ids (Some pipeline_example) world0
      = (w', StatusCreated, b)"
    by (simp add: CreatePipelineJob_def pipeline_example_def Let_def)
  show ?thesis
    using CreatePipelineJob_chains_jobs [OF c] c by (auto simp: world0_def)
qed

text \<open>A statement that fails leaves the jobs created before it, without a pipeline that names them.\<close>

definition svc_no_ffmpeg :: svc where
  "svc_no_ffmpeg = svc_ref\<lparr>dbErr := (\<lambda>l _. l = ''ffmpeg_jobs.create'')\<rparr>"

lemma pipeline_failure_leaves_jobs:
  "(case CreatePipelineJob svc_no_ffmpeg example_ids (Some pipeline_example) world0 of
      (w', st, _) \<Rightarrow> (st, map yj_ID (w_ytJobs w'), map tj_JobID (w_txJobs w'),
        map pj_YoutubeJobID (w_pipelines w'), w_spawned w'))
   = (500, [11], [12], [0], [GoAddYtTasks 11 [''u'']])"
  by code_simp

end
