(* ===== verification/Background.thy ===== *)
theory Background
  imports FfmpegJobs
begin

text \<open>
  What runs beside the requests: the goroutines a handler starts (\<open>run_go\<close> executes one), the
  one-second tick of \<^verbatim>\<open>StartBufferService\<close> with its two flushes, and the periodic scans. The
  facts are the refill protocol as a step relation over the single accesses to \<^verbatim>\<open>fillingMap\<close>: a set
  flag belongs to a refill that is under way or about to start, and a buffer has one refill at most as
  long as no trigger reads the flag while another is between its read and its write; two that do
  start two.
\<close>

section \<open>Goroutines\<close>

definition refill_done :: "fill_key \<Rightarrow> world \<Rightarrow> world" where
  "refill_done k w = w\<lparr>w_fillingMap := w_fillingMap w - {k}\<rparr>"

text \<open>
  \<open>None\<close> is a retry whose scan is not at its end after \<open>fuel\<close> batches.
\<close>

fun run_go :: "nat \<Rightarrow> svc \<Rightarrow> gojob \<Rightarrow> world \<Rightarrow> world option" where
  "run_go fuel S (GoFillYt j) w = Some (refill_done (FillJob j) (fillJobBuffer S j w))"
| "run_go fuel S (GoFillTx j) w = Some (refill_done (tx_fill_key j) (fillTxJobBuffer S j w))"
| "run_go fuel S (GoFillFf j) w = Some (refill_done (ff_fill_key j) (fillFfmpegJobBuffer S j w))"
| "run_go fuel S (GoRetryTx j s) w = RetryTransferTasksLogic fuel S j s w"
| "run_go fuel S (GoRetryYt j s) w = RetryYoutubeTasksLogic fuel S j s w"
| "run_go fuel S (GoRetryNonCompleted j k) w = Some (retryNonCompletedYoutubeTasksBackground S j k w)"
| "run_go fuel S (GoAddYtTasks j urls) w = Some (fst (AddTasksToJob S j urls w))"
| "run_go fuel S (GoAddTxTasks j srcs) w =
     Some (fst (AddTransferTasksToJob S j (map (\<lambda>s. \<lparr>ti_Src = s, ti_Size = 0\<rparr>) srcs) w))"
| "run_go fuel S (GoCleanupTx j) w = Some (cleanupTransferJobRedis S j w)"
| "run_go fuel S (GoCleanupYt j) w = Some (cleanupYoutubeJobRedis S j w)"
| "run_go fuel S (GoCleanupYtAll js) w = Some (fold (cleanupYoutubeJobRedis S) js w)"
| "run_go fuel S (GoCleanupFf j) w = Some (cleanupFfmpegJobRedis S j w)"

section \<open>The tick\<close>

definition flush_yt :: "svc \<Rightarrow> world \<Rightarrow> world" where
  "flush_yt S w =
     (case flushStats (dbErr S ''youtube_jobs.flush'') (w_statsBuffer w, w_ytJobs w) of
        (buf, jobs) \<Rightarrow> w\<lparr>w_statsBuffer := buf, w_ytJobs := jobs\<rparr>)"

definition flush_tx :: "svc \<Rightarrow> world \<Rightarrow> world" where
  "flush_tx S w =
     (case flushTxStats (dbErr S ''transfer_jobs.flush'') (w_txStatsBuffer w, w_txJobs w) of
        (buf, jobs) \<Rightarrow> w\<lparr>w_txStatsBuffer := buf, w_txJobs := jobs\<rparr>)"

definition service_tick :: "svc \<Rightarrow> world \<Rightarrow> world" where
  "service_tick S w =
     flush_tx S (flush_yt S (checkAndRefillFfmpegBuffers S
       (checkAndRefillTxBuffers S (checkAndRefillBuffers S w))))"

section \<open>The refill protocol\<close>

fun fill_flag :: "gojob \<Rightarrow> fill_key option" where
  "fill_flag (GoFillYt j) = Some (FillJob j)"
| "fill_flag (GoFillTx j) = Some (tx_fill_key j)"
| "fill_flag (GoFillFf j) = Some (ff_fill_key j)"
| "fill_flag _ = None"

fun trigger :: "gojob \<Rightarrow> world \<Rightarrow> world" where
  "trigger (GoFillYt j) w = triggerRefill j w"
| "trigger (GoFillTx j) w = triggerTxRefill j w"
| "trigger (GoFillFf j) w = triggerFfmpegRefill j w"
| "trigger _ w = w"

text \<open>
  Triggers interleaved access by access. Beside the world stand the triggers that have found the flag
  of their buffer clear and not yet set it, and those that have set it and not yet started the
  goroutine. A trigger that finds the flag set is over and changes nothing. \<open>Other\<close> is everything else
  that runs: it leaves the flags and the started refills alone. With \<open>alone\<close> a trigger loads the
  flag only when no other one of its buffer is between its load and its store.
\<close>

type_synonym refill_state = "world \<times> gojob list \<times> gojob list"

definition go_view :: "world \<Rightarrow> gojob list \<times> fill_key set" where
  "go_view w = (w_spawned w, w_fillingMap w)"

inductive refill_step :: "bool \<Rightarrow> refill_state \<Rightarrow> refill_state \<Rightarrow> bool" for alone where
  Load: "fill_flag g = Some k \<Longrightarrow> \<not> filling k w \<Longrightarrow> alone \<longrightarrow> g \<notin> set ls
    \<Longrightarrow> refill_step alone (w, ls, ss) (w, g # ls, ss)"
| Store: "fill_flag g = Some k \<Longrightarrow> g \<in> set ls
    \<Longrightarrow> refill_step alone (w, ls, ss) (store_filling k w, remove1 g ls, g # ss)"
| Go: "g \<in> set ss \<Longrightarrow> refill_step alone (w, ls, ss) (spawn g w, ls, remove1 g ss)"
| Done: "fill_flag g = Some k \<Longrightarrow> g \<in> set (w_spawned w)
    \<Longrightarrow> refill_step alone (w, ls, ss)
          (refill_done k (w\<lparr>w_spawned := remove1 g (w_spawned w)\<rparr>), ls, ss)"
| Other: "go_view w' = go_view w \<Longrightarrow> refill_step alone (w, ls, ss) (w', ls, ss)"

abbreviation refill_run :: "bool \<Rightarrow> refill_state \<Rightarrow> refill_state \<Rightarrow> bool" where
  "refill_run alone \<equiv> (refill_step alone)\<^sup>*\<^sup>*"

subsection \<open>What the parts leave alone\<close>

lemma go_view_redis [simp]:
  "go_view (fst (redis_do S c w)) = go_view w" "go_view (redis_set S c w) = go_view w"
  "go_view (fst (redis_pipe S cs w)) = go_view w"
  by (simp_all add: redis_do_def redis_set_def redis_pipe_def go_view_def split: prod.split)

lemma go_view_buffers [simp]:
  "go_view (set_yt_buffer j yts w) = go_view w" "go_view (set_tx_buffer j txs w) = go_view w"
  "go_view (set_ff_buffer j ffs w) = go_view w" "go_view (ensureBuffer j w) = go_view w"
  "go_view (ensureTxBuffer j w) = go_view w" "go_view (ensureFfmpegBuffer j w) = go_view w"
  by (simp_all add: go_view_def set_yt_buffer_def set_tx_buffer_def set_ff_buffer_def ensureBuffer_def
      ensureTxBuffer_def ensureFfmpegBuffer_def)

lemma go_view_fold [simp]:
  "(\<And>x w. go_view (f x w) = go_view w) \<Longrightarrow> go_view (fold f xs w) = go_view w"
  by (induction xs arbitrary: w) simp_all

lemma go_view_offset_fill:
  assumes "\<And>ch w. go_view (setb ch w) = go_view w"
  shows "go_view (offset_fill S lk ok jk p n dec st getb setb w) = go_view w"
  using assms by (simp add: offset_fill_def offset_fill_body_def Let_def split_beta
      split: reply.split option.split)

lemma go_view_sharded [simp]: "go_view (fst (isJobSharded S j w)) = go_view w"
  by (simp add: isJobSharded_def go_view_def redis_do_def Let_def split: option.split prod.split)

lemma go_view_push: "go_view (sharded_push S j n ids w) = go_view w"
  by (simp add: sharded_push_def Let_def split_beta split: reply.split option.split)

lemma go_view_writeback: "go_view (fst (writeback_pending S j n m w)) = go_view w"
  by (simp add: writeback_pending_def Let_def)

lemma go_view_do: "redis_do S c w = (w', r) \<Longrightarrow> go_view w' = go_view w"
  using go_view_redis(1) [of S c w] by simp

lemma go_view_fill_tail:
  "go_view (if ids = [] then
       (case writeback_pending S j l m w of
          (w6, None) \<Rightarrow> w6
        | (w6, Some is) \<Rightarrow> sharded_push S j l is w6)
     else sharded_push S j l ids w) = go_view w"
  using go_view_writeback [of S j l m w]
  by (cases "writeback_pending S j l m w") (simp add: go_view_push split: option.split)

lemma go_view_fill_sharded: "go_view (fillShardedTxBuffer S j w) = go_view w"
proof -
  obtain w1 o1 where a1: "redis_do S (GET (tx_offset_key j)) w = (w1, o1)" by fastforce
  obtain w2 m where a2: "redis_do S (GET (tx_max_id_key j)) w1 = (w2, m)" by fastforce
  let ?cur = "scan_num m"
  define p where "p = (if scan_num o1 > ?cur \<and> ?cur > 0
    then (let newOffset = max 0 (?cur - TxFetchBatchSize)
          in (redis_set S (SET (tx_offset_key j) (Num newOffset)) w2, newOffset))
    else (w2, scan_num o1))"
  obtain w3 l where a3: "p = (w3, l)" by fastforce
  obtain w4 r where a4: "redis_do S (ZRANGEBYSCORE (getTaskBucketKey j (l + 1)) (l + 1)
      (nat TxFetchBatchSize)) w3 = (w4, r)" by fastforce
  have "go_view w3 = go_view w2" using a3 by (auto simp: p_def Let_def split: if_splits)
  then have v: "go_view w4 = go_view w" using go_view_do [OF a1] go_view_do [OF a2] go_view_do [OF a4] by simp
  show ?thesis
  proof (cases "\<exists>ids. r = RArr ids")
    case True
    then obtain ids where RArr: "r = RArr ids" ..
    define q where "q = (if ids = []
      then (let (w5, r') = redis_do S (ZRANGEBYSCORE
                (getTaskBucketKey j ((go_div (l + 1) TaskBucketSize + 1) * TaskBucketSize))
                ((go_div (l + 1) TaskBucketSize + 1) * TaskBucketSize) (nat TxFetchBatchSize)) w4
            in (w5, case r' of RArr is \<Rightarrow> is | _ \<Rightarrow> []))
      else (w4, ids))"
    obtain w5 ids' where a5: "q = (w5, ids')" by fastforce
    have "go_view w5 = go_view w4" using a5 by (auto simp: q_def split: if_splits prod.splits dest: go_view_do)
    then show ?thesis
      using v unfolding fillShardedTxBuffer_def Let_def a1 a2 prod.case p_def [symmetric, unfolded Let_def] a3 a4
        RArr reply.case q_def [symmetric, unfolded Let_def] a5
      by (simp add: go_view_fill_tail)
  next
    case False
    then show ?thesis
      using v unfolding fillShardedTxBuffer_def Let_def a1 a2 prod.case p_def [symmetric, unfolded Let_def] a3 a4
      by (cases r) simp_all
  qed
qed

lemma go_view_fills [simp]:
  "go_view (fillJobBuffer S j w) = go_view w" "go_view (fillTxJobBuffer S j w) = go_view w"
  "go_view (fillFfmpegJobBuffer S j w) = go_view w"
  by (simp_all add: fillJobBuffer_def fillTxJobBuffer_def fillFfmpegJobBuffer_def
      fillLeagcyTxJobBuffer_def go_view_offset_fill go_view_fill_sharded split_beta)

lemma go_view_resets [simp]:
  "go_view (reset_stuck_offset S j w) = go_view w" "go_view (reset_stuck_ff S j w) = go_view w"
  by (simp_all add: reset_stuck_offset_def reset_stuck_ff_def Let_def split_beta)

lemma go_view_flush [simp]: "go_view (flush_yt S w) = go_view w" "go_view (flush_tx S w) = go_view w"
  by (simp_all add: flush_yt_def flush_tx_def go_view_def split: prod.split)

subsection \<open>The functions are runs of the steps\<close>

lemma fill_flag_inj: "fill_flag g = Some k \<Longrightarrow> fill_flag g' = Some k \<Longrightarrow> g' = g"
  by (cases g; cases g') (auto simp: tx_fill_key_def ff_fill_key_def)

text \<open>All three triggers are the same two accesses.\<close>

lemma trigger_eq:
  "fill_flag g = Some k \<Longrightarrow> trigger g w = (if filling k w then w else spawn g (store_filling k w))"
  by (cases g) (simp_all add: triggerRefill_def triggerTxRefill_def triggerFfmpegRefill_def)

lemma trigger_none: "fill_flag g = None \<Longrightarrow> trigger g w = w"
  by (cases g) simp_all

lemma trigger_run: "refill_run True (w, [], []) (trigger g w, [], [])"
proof (cases "\<exists>k. fill_flag g = Some k \<and> \<not> filling k w")
  case True
  then obtain k where k: "fill_flag g = Some k" "\<not> filling k w" by blast
  have "refill_step True (w, [], []) (w, [g], [])"
    using k by (rule refill_step.Load) simp
  moreover have "refill_step True (w, [g], []) (store_filling k w, [], [g])"
    using refill_step.Store [OF k(1), of "[g]" True w "[]"] by simp
  moreover have "refill_step True (store_filling k w, [], [g]) (spawn g (store_filling k w), [], [])"
    using refill_step.Go [of g "[g]" True "store_filling k w" "[]"] by simp
  ultimately have "refill_run True (w, [], []) (spawn g (store_filling k w), [], [])"
    by (meson converse_rtranclp_into_rtranclp rtranclp.rtrancl_refl)
  then show ?thesis using k by (simp add: trigger_eq)
next
  case False
  then have "trigger g w = w"
    by (cases "fill_flag g") (auto simp: trigger_none trigger_eq)
  then show ?thesis by simp
qed

lemma other_run: "go_view w' = go_view w \<Longrightarrow> refill_run True (w, [], []) (w', [], [])"
  by (rule r_into_rtranclp) (rule refill_step.Other)

lemma other_trigger_run:
  "go_view u = go_view w \<Longrightarrow> refill_run True (w, [], []) (trigger g u, [], [])"
  by (rule rtranclp_trans [OF other_run trigger_run])

lemmas trigger_runs =
  other_trigger_run [of _ _ "GoFillYt j" for j, simplified]
  other_trigger_run [of _ _ "GoFillTx j" for j, simplified]
  other_trigger_run [of _ _ "GoFillFf j" for j, simplified]

lemma fold_run:
  "(\<And>x w. refill_run True (w, [], []) (f x w, [], [])) \<Longrightarrow>
     refill_run True (w, [], []) (fold f xs w, [], [])"
  by (induction xs arbitrary: w) (auto intro: rtranclp_trans)

lemma check_runs:
  "refill_run True (w, [], []) (check_refill_yt yj w, [], [])"
  "refill_run True (w, [], []) (check_refill_tx S tj w, [], [])"
  "refill_run True (w, [], []) (check_refill_ff S fj w, [], [])"
  by (auto simp: check_refill_yt_def check_refill_tx_def check_refill_ff_def Let_def
      split: option.split intro: trigger_runs other_run)

lemma refresh_runs:
  "refill_run True (w, [], []) (checkAndRefillBuffers S w, [], [])"
  "refill_run True (w, [], []) (checkAndRefillTxBuffers S w, [], [])"
  "refill_run True (w, [], []) (checkAndRefillFfmpegBuffers S w, [], [])"
  by (simp_all add: checkAndRefillBuffers_def checkAndRefillTxBuffers_def
      checkAndRefillFfmpegBuffers_def fold_run check_runs)

lemma tick_run: "refill_run True (w, [], []) (service_tick S w, [], [])"
proof -
  let ?u = "checkAndRefillFfmpegBuffers S (checkAndRefillTxBuffers S (checkAndRefillBuffers S w))"
  have "refill_run True (w, [], []) (?u, [], [])"
    by (rule rtranclp_trans [OF refresh_runs(1) rtranclp_trans [OF refresh_runs(2,3)]])
  moreover have "refill_run True (?u, [], []) (service_tick S w, [], [])"
    by (rule other_run) (simp add: service_tick_def)
  ultimately show ?thesis by (rule rtranclp_trans)
qed

lemma run_go_run:
  assumes "fill_flag g = Some k" "g \<in> set (w_spawned w)"
    and "run_go fuel S g w = Some w'"
  shows "refill_run alone (w, ls, ss) (w'\<lparr>w_spawned := remove1 g (w_spawned w)\<rparr>, ls, ss)"
proof -
  obtain u where u: "w' = refill_done k u" "go_view u = go_view w"
    using assms(1,3) go_view_fills by (cases g) auto
  have "refill_step alone (w, ls, ss) (u, ls, ss)" using u(2) by (rule refill_step.Other)
  moreover have "refill_step alone (u, ls, ss)
      (refill_done k (u\<lparr>w_spawned := remove1 g (w_spawned u)\<rparr>), ls, ss)"
    using assms(1,2) u(2) by (intro refill_step.Done) (simp_all add: go_view_def)
  moreover have "refill_done k (u\<lparr>w_spawned := remove1 g (w_spawned u)\<rparr>)
      = w'\<lparr>w_spawned := remove1 g (w_spawned w)\<rparr>"
    using u by (simp add: refill_done_def go_view_def)
  ultimately show ?thesis by (metis converse_rtranclp_into_rtranclp r_into_rtranclp)
qed

subsection \<open>The invariants\<close>

text \<open>How many refills of \<open>g\<close> are under way or about to start.\<close>

definition refills_of :: "gojob \<Rightarrow> refill_state \<Rightarrow> nat" where
  "refills_of g s = (case s of (w, ls, ss) \<Rightarrow> count_list (w_spawned w) g + count_list ss g)"

definition flag_owned :: "refill_state \<Rightarrow> bool" where
  "flag_owned s \<longleftrightarrow> (\<forall>g k. fill_flag g = Some k \<longrightarrow> filling k (fst s) \<longrightarrow> 0 < refills_of g s)"

definition one_at_a_time :: "gojob \<Rightarrow> fill_key \<Rightarrow> refill_state \<Rightarrow> bool" where
  "one_at_a_time g k s \<longleftrightarrow> refills_of g s = (if filling k (fst s) then 1 else 0)
     \<and> count_list (fst (snd s)) g + refills_of g s \<le> 1"

lemma count_list_remove1: "count_list (remove1 x xs) y = count_list xs y - (if x = y then 1 else 0)"
  by (induction xs) auto

lemma count_list_pos: "x \<in> set xs \<longleftrightarrow> 0 < count_list xs x"
  by (simp add: count_list_0_iff neq0_conv [symmetric] del: neq0_conv)

lemma filling_simps [simp]:
  "filling k (store_filling k' w) \<longleftrightarrow> k = k' \<or> filling k w"
  "filling k (spawn g w) = filling k w"
  "filling k (refill_done k' w) \<longleftrightarrow> k \<noteq> k' \<and> filling k w"
  "filling k (w\<lparr>w_spawned := gs\<rparr>) = filling k w"
  by (auto simp: filling_def spawn_def refill_done_def)

lemma spawned_simps [simp]:
  "w_spawned (spawn g w) = w_spawned w @ [g]" "w_spawned (refill_done k w) = w_spawned w"
  by (simp_all add: spawn_def refill_done_def)

lemma refills_of_simps:
  "refills_of g (w, x # ls, ss) = refills_of g (w, ls, ss)"
  "refills_of g (store_filling k w, ls, ss) = refills_of g (w, ls, ss)"
  "refills_of g (w, ls, x # ss) = refills_of g (w, ls, ss) + (if x = g then 1 else 0)"
  "x \<in> set ss \<Longrightarrow> refills_of g (spawn x w, ls, remove1 x ss) = refills_of g (w, ls, ss)"
  "refills_of g (w, remove1 x ls, ss) = refills_of g (w, ls, ss)"
  "refills_of g (refill_done k w, ls, ss) = refills_of g (w, ls, ss)"
  "x \<in> set (w_spawned w) \<Longrightarrow> refills_of g (w\<lparr>w_spawned := remove1 x (w_spawned w)\<rparr>, ls, ss)
     = refills_of g (w, ls, ss) - (if x = g then 1 else 0)"
  by (auto simp: refills_of_def count_list_remove1 count_list_pos)

lemma flag_owned_step: "refill_step alone s t \<Longrightarrow> flag_owned s \<Longrightarrow> flag_owned t"
proof (induction rule: refill_step.induct)
  case (Load g k w ls ss)
  then show ?case by (simp add: flag_owned_def refills_of_simps)
next
  case (Store g k ls w ss)
  then show ?case
    by (auto simp: flag_owned_def refills_of_simps dest: fill_flag_inj)
next
  case (Go g ss w ls)
  then show ?case by (simp add: flag_owned_def refills_of_simps)
next
  case (Done g k w ls ss)
  then show ?case
    by (auto simp: flag_owned_def refills_of_simps)
next
  case (Other w' w ls ss)
  then show ?case by (simp add: flag_owned_def refills_of_def go_view_def filling_def)
qed

lemma one_at_a_time_step:
  assumes "fill_flag g = Some k"
  shows "refill_step True s t \<Longrightarrow> one_at_a_time g k s \<Longrightarrow> one_at_a_time g k t"
proof (induction rule: refill_step.induct)
  case (Load g' k' w ls ss)
  show ?case
  proof (cases "g' = g")
    case True
    with Load.hyps assms have "count_list ls g = 0" "\<not> filling k w" by (simp_all add: count_list_0_iff)
    with Load.prems True show ?thesis by (simp add: one_at_a_time_def refills_of_simps)
  next
    case False
    with Load.prems show ?thesis by (simp add: one_at_a_time_def refills_of_simps)
  qed
next
  case (Store g' k' ls w ss)
  show ?case
  proof (cases "g' = g")
    case True
    with Store.hyps(2) have "0 < count_list ls g" by (simp add: count_list_pos)
    moreover have "k' = k" using True Store.hyps(1) assms by simp
    ultimately show ?thesis
      using Store.prems True
      by (simp add: one_at_a_time_def refills_of_simps count_list_remove1 split: if_splits)
  next
    case False
    then have "k \<noteq> k'" using fill_flag_inj [OF Store.hyps(1)] assms by auto
    with Store.prems False show ?thesis
      by (simp add: one_at_a_time_def refills_of_simps count_list_remove1)
  qed
next
  case (Go g' ss w ls)
  then show ?case by (simp add: one_at_a_time_def refills_of_simps)
next
  case (Done g' k' w ls ss)
  show ?case
  proof (cases "g' = g")
    case True
    with Done.hyps(2) have "0 < refills_of g (w, ls, ss)"
      by (simp add: refills_of_def count_list_pos)
    moreover have "k' = k" using True Done.hyps(1) assms by simp
    ultimately show ?thesis
      using Done True by (simp add: one_at_a_time_def refills_of_simps split: if_splits)
  next
    case False
    then have "k \<noteq> k'" using fill_flag_inj [OF Done.hyps(1)] assms by auto
    with Done False show ?thesis by (simp add: one_at_a_time_def refills_of_simps)
  qed
next
  case (Other w' w ls ss)
  then show ?case by (simp add: one_at_a_time_def refills_of_def go_view_def filling_def)
qed

lemma refills0: "flag_owned (world0, [], [])" "one_at_a_time g k (world0, [], [])"
  by (simp_all add: flag_owned_def one_at_a_time_def refills_of_def filling_def world0_def)

text \<open>C25: However the loads, stores and starts of triggers interleave with each other and with the ends
of refills, a set flag belongs to a refill that is under way or about to start, so no flag is left that
nothing will clear. As long as no trigger loads the flag of a buffer while another one is between its
load and its store, a buffer has at most one refill, and its flag is set as long as it has one.\<close>

theorem flags_belong_to_refills:
  assumes "refill_run alone (world0, [], []) (w, ls, ss)" and "fill_flag g = Some k"
  shows "(filling k w \<longrightarrow> g \<in> set (w_spawned w) \<union> set ss)
    \<and> (alone \<longrightarrow> count_list (w_spawned w) g + count_list ss g = (if filling k w then 1 else 0))"
proof -
  have "flag_owned (w, ls, ss)"
    using assms(1) refills0(1) by (induction rule: rtranclp_induct) (auto intro: flag_owned_step)
  moreover have "one_at_a_time g k (w, ls, ss)" if alone
    using assms(1) that refills0(2)
    by (induction rule: rtranclp_induct) (auto intro: one_at_a_time_step [OF assms(2)])
  ultimately show ?thesis
    using assms(2)
    by (auto simp: flag_owned_def one_at_a_time_def refills_of_def count_list_pos)
qed

theorem flags_belong_to_refills_witness:
  "let w = fold trigger [GoFillTx 4, GoFillTx 4, GoFillYt 4] world0
   in filling (tx_fill_key 4) w \<and> GoFillTx 4 \<in> set (w_spawned w)
      \<and> count_list (w_spawned w) (GoFillTx 4) = 1"
proof -
  let ?w = "fold trigger [GoFillTx 4, GoFillTx 4, GoFillYt 4] world0"
  have r: "refill_run True (world0, [], []) (?w, [], [])"
    by (rule fold_run) (rule trigger_run)
  have "filling (tx_fill_key 4) ?w"
    by (simp add: triggerTxRefill_def triggerRefill_def)
  with flags_belong_to_refills [OF r, of "GoFillTx 4" "tx_fill_key 4"] show ?thesis
    by (simp add: Let_def)
qed

text \<open>
  Two requests that both load the flag before one stores it start two refills of the buffer; when the
  first is done, the flag is clear while the other one is under way. Nothing else keeps the refills of
  a sharded transfer job apart: \<^verbatim>\<open>fillShardedTxBuffer\<close> takes no lock in Redis.
\<close>

lemma two_triggers_start_two_refills:
  "\<exists>w. refill_run False (world0, [], []) (w, [], [])
     \<and> w_spawned w = [GoFillTx 4, GoFillTx 4] \<and> filling (tx_fill_key 4) w"
  "\<exists>w. refill_run False (world0, [], []) (w, [], [])
     \<and> w_spawned w = [GoFillTx 4] \<and> \<not> filling (tx_fill_key 4) w"
proof -
  let ?g = "GoFillTx 4" and ?k = "tx_fill_key 4"
  let ?w1 = "store_filling ?k world0"
  let ?w2 = "store_filling ?k ?w1"
  let ?w3 = "spawn ?g ?w2"
  let ?w4 = "spawn ?g ?w3"
  have free: "\<not> filling ?k world0" by (simp add: filling_def world0_def)
  have two: "refill_run False (world0, [], []) (?w4, [], [])"
  proof -
    have "refill_step False (world0, [], []) (world0, [?g], [])"
      "refill_step False (world0, [?g], []) (world0, [?g, ?g], [])"
      using free by (auto intro: refill_step.Load)
    moreover have "refill_step False (world0, [?g, ?g], []) (?w1, [?g], [?g])"
      using refill_step.Store [of ?g ?k "[?g, ?g]" False world0 "[]"] by simp
    moreover have "refill_step False (?w1, [?g], [?g]) (?w2, [], [?g, ?g])"
      using refill_step.Store [of ?g ?k "[?g]" False ?w1 "[?g]"] by simp
    moreover have "refill_step False (?w2, [], [?g, ?g]) (?w3, [], [?g])"
      using refill_step.Go [of ?g "[?g, ?g]" False ?w2 "[]"] by simp
    moreover have "refill_step False (?w3, [], [?g]) (?w4, [], [])"
      using refill_step.Go [of ?g "[?g]" False ?w3 "[]"] by simp
    ultimately show ?thesis by (meson converse_rtranclp_into_rtranclp rtranclp.rtrancl_refl)
  qed
  have "w_spawned ?w4 = [?g, ?g]" "filling ?k ?w4" by (simp_all add: world0_def)
  with two show "\<exists>w. refill_run False (world0, [], []) (w, [], [])
     \<and> w_spawned w = [?g, ?g] \<and> filling ?k w" by blast
  let ?w5 = "refill_done ?k (?w4\<lparr>w_spawned := remove1 ?g (w_spawned ?w4)\<rparr>)"
  have "refill_step False (?w4, [], []) (?w5, [], [])"
    by (rule refill_step.Done) simp_all
  with two have "refill_run False (world0, [], []) (?w5, [], [])" by (rule rtranclp.rtrancl_into_rtrancl)
  moreover have "w_spawned ?w5 = [?g]" "\<not> filling ?k ?w5" by (simp_all add: world0_def)
  ultimately show "\<exists>w. refill_run False (world0, [], []) (w, [], [])
     \<and> w_spawned w = [?g] \<and> \<not> filling ?k w" by blast
qed

end
