(* ===== verification/ProxyPool.thy ===== *)
theory ProxyPool
  imports Prelude
begin

text \<open>
  The proxy pool of \<^verbatim>\<open>backend/pkg/proxypool\<close>: a round-robin choice among the proxies that are
  online, marks from the outcome of each request, and probes. The outcome of a request through a
  transport is an argument; requests and probes that overlap are separate steps (choose, mark, probe)
  of a step relation, so that any interleaving of them is a path. A choice is one step: the index is
  under the lock of the manager; that a mark can fall between two of its reads of a status is left out.
\<close>

section \<open>State\<close>

datatype ProxyStatus = StatusOnline | StatusOffline

record Proxy =
  px_URL :: string
  px_Status :: ProxyStatus
  px_FailCount :: int
  px_LastCheck :: int

record Manager =
  mg_proxies :: "Proxy list"
  mg_currentIndex :: nat
  mg_probeURL :: string
  mg_probeInterval :: int
  mg_timeout :: int

record Config =
  cf_ProxyURLs :: "string list"
  cf_ProbeURL :: string
  cf_ProbeInterval :: int
  cf_Timeout :: int

text \<open>Durations are nanoseconds; \<open>parse\<close> is \<^verbatim>\<open>url.Parse\<close>, the first URL it rejects ends the construction.\<close>

definition new_proxy :: "string \<Rightarrow> Proxy" where
  "new_proxy u = \<lparr>px_URL = u, px_Status = StatusOnline, px_FailCount = 0, px_LastCheck = 0\<rparr>"

fun new_proxies :: "(string \<Rightarrow> string option) \<Rightarrow> string list \<Rightarrow> string + Proxy list" where
  "new_proxies parse [] = Inr []"
| "new_proxies parse (u # us) =
     (case parse u of
        None \<Rightarrow> Inl u
      | Some v \<Rightarrow> (case new_proxies parse us of Inl e \<Rightarrow> Inl e | Inr ps \<Rightarrow> Inr (new_proxy v # ps)))"

definition NewManager :: "(string \<Rightarrow> string option) \<Rightarrow> Config \<Rightarrow> string + Manager" where
  "NewManager parse cfg =
     (case new_proxies parse (cf_ProxyURLs cfg) of
        Inl e \<Rightarrow> Inl e
      | Inr ps \<Rightarrow> Inr
          \<lparr>mg_proxies = ps, mg_currentIndex = 0,
           mg_probeURL = (if cf_ProbeURL cfg = [] then ''https://www.google.com'' else cf_ProbeURL cfg),
           mg_probeInterval = (if cf_ProbeInterval cfg = 0 then 30000000000 else cf_ProbeInterval cfg),
           mg_timeout = (if cf_Timeout cfg = 0 then 10000000000 else cf_Timeout cfg)\<rparr>)"

section \<open>Choosing\<close>

text \<open>The loop over \<open>i\<close>: the remaining iterations count down.\<close>

fun next_from :: "Proxy list \<Rightarrow> nat \<Rightarrow> nat \<Rightarrow> nat \<Rightarrow> nat option" where
  "next_from ps start i 0 = None"
| "next_from ps start i (Suc k) =
     (let idx = (start + i) mod length ps
      in if px_Status (ps ! idx) = StatusOnline then Some idx else next_from ps start (Suc i) k)"

definition nextProxy :: "Manager \<Rightarrow> Manager \<times> nat option" where
  "nextProxy m =
     (if mg_proxies m = [] then (m, None)
      else (case next_from (mg_proxies m) (mg_currentIndex m) 0 (length (mg_proxies m)) of
              Some idx \<Rightarrow> (m\<lparr>mg_currentIndex := (idx + 1) mod length (mg_proxies m)\<rparr>, Some idx)
            | None \<Rightarrow> (m, None)))"

section \<open>Marking and probing\<close>

definition mark_failed :: "Proxy \<Rightarrow> Proxy" where
  "mark_failed p =
     (let p1 = p\<lparr>px_FailCount := px_FailCount p + 1\<rparr>
      in if px_FailCount p1 \<ge> 1 then p1\<lparr>px_Status := StatusOffline\<rparr> else p1)"

definition mark_ok :: "Proxy \<Rightarrow> Proxy" where
  "mark_ok p = p\<lparr>px_FailCount := 0, px_Status := StatusOnline\<rparr>"

definition at_proxy :: "nat \<Rightarrow> (Proxy \<Rightarrow> Proxy) \<Rightarrow> Manager \<Rightarrow> Manager" where
  "at_proxy i f m = m\<lparr>mg_proxies := (mg_proxies m)[i := f (mg_proxies m ! i)]\<rparr>"

definition markFailure :: "nat \<Rightarrow> Manager \<Rightarrow> Manager" where
  "markFailure i = at_proxy i mark_failed"

definition markSuccess :: "nat \<Rightarrow> Manager \<Rightarrow> Manager" where
  "markSuccess i = at_proxy i mark_ok"

text \<open>The outcome of \<^verbatim>\<open>transport.RoundTrip\<close>: an error, or a response with its status.\<close>

datatype outcome = TransportError | Response int | NoResponse

definition good_status :: "int \<Rightarrow> bool" where
  "good_status s = (s \<ge> 200 \<and> s < 400)"

definition mark_outcome :: "outcome \<Rightarrow> nat \<Rightarrow> Manager \<Rightarrow> Manager" where
  "mark_outcome r i m =
     (case r of
        TransportError \<Rightarrow> markFailure i m
      | Response s \<Rightarrow> if s < 200 \<or> s \<ge> 400 then markFailure i m else markSuccess i m
      | NoResponse \<Rightarrow> markSuccess i m)"

text \<open>A request: \<open>tr None\<close> is the direct transport.\<close>

definition RoundTrip :: "(nat option \<Rightarrow> outcome) \<Rightarrow> Manager \<Rightarrow> Manager \<times> outcome" where
  "RoundTrip tr m =
     (case nextProxy m of
        (m1, None) \<Rightarrow> (m1, tr None)
      | (m1, Some i) \<Rightarrow> (mark_outcome (tr (Some i)) i m1, tr (Some i)))"

definition checkProxy :: "outcome \<Rightarrow> bool" where
  "checkProxy r = (case r of Response s \<Rightarrow> good_status s | _ \<Rightarrow> False)"

definition probe_one :: "outcome \<Rightarrow> Proxy \<Rightarrow> Proxy" where
  "probe_one r p = (if checkProxy r then mark_ok p else p\<lparr>px_Status := StatusOffline\<rparr>)"

definition probeAll :: "(nat \<Rightarrow> outcome) \<Rightarrow> Manager \<Rightarrow> Manager" where
  "probeAll tr m = fold (\<lambda>i. at_proxy i (probe_one (tr i))) [0..<length (mg_proxies m)] m"

record ProxySnapshot =
  sn_URL :: string
  sn_Status :: ProxyStatus
  sn_FailCount :: int
  sn_LastCheck :: int

definition Snapshot :: "Manager \<Rightarrow> ProxySnapshot list" where
  "Snapshot m = map (\<lambda>p. \<lparr>sn_URL = px_URL p, sn_Status = px_Status p,
     sn_FailCount = px_FailCount p, sn_LastCheck = px_LastCheck p\<rparr>) (mg_proxies m)"

section \<open>Facts\<close>

text \<open>The specification of the choice: the first proxy that is online in the list rotated to the index.\<close>

definition online_at :: "Manager \<Rightarrow> nat \<Rightarrow> bool" where
  "online_at m i = (px_Status (mg_proxies m ! i) = StatusOnline)"

definition turn :: "Manager \<Rightarrow> nat \<Rightarrow> nat" where
  "turn m i = (mg_currentIndex m + i) mod length (mg_proxies m)"

lemma next_from_find:
  "next_from ps s i k = find (\<lambda>idx. px_Status (ps ! idx) = StatusOnline)
     (map (\<lambda>i. (s + i) mod length ps) [i..<i + k])"
  by (induction ps s i k rule: next_from.induct) (simp_all add: upt_rec Let_def)

lemma nextProxy_find:
  "snd (nextProxy m) = find (online_at m) (map (turn m) [0..<length (mg_proxies m)])"
  by (simp add: nextProxy_def next_from_find online_at_def [abs_def] turn_def [abs_def] split: option.split)

lemma turns_all:
  assumes "mg_proxies m \<noteq> []"
  shows "set (map (turn m) [0..<length (mg_proxies m)]) = {0..<length (mg_proxies m)}"
proof -
  let ?n = "length (mg_proxies m)"
  have "\<exists>i<?n. turn m i = j" if "j < ?n" for j
  proof -
    let ?c = "mg_currentIndex m mod ?n"
    let ?i = "(j + ?n - ?c) mod ?n"
    have c: "?c < ?n" using assms by simp
    have "turn m ?i = (?c + (j + ?n - ?c)) mod ?n"
      unfolding turn_def by (simp add: mod_add_eq mod_add_left_eq mod_add_right_eq)
    also have "?c + (j + ?n - ?c) = j + ?n" using c by linarith
    finally show ?thesis using that assms by (intro exI [of _ ?i]) simp
  qed
  then show ?thesis using assms by (force simp: turn_def image_iff)
qed

lemma nextProxy_none:
  assumes "nextProxy m = (m', None)"
  shows "m' = m" "i < length (mg_proxies m) \<Longrightarrow> \<not> online_at m i"
proof -
  show "m' = m" using assms by (auto simp: nextProxy_def split: option.splits if_splits)
  show "\<not> online_at m i" if "i < length (mg_proxies m)"
  proof -
    have "mg_proxies m \<noteq> []" using that by auto
    from turns_all [OF this] that have "i \<in> set (map (turn m) [0..<length (mg_proxies m)])" by simp
    moreover have "find (online_at m) (map (turn m) [0..<length (mg_proxies m)]) = None"
      using assms by (simp flip: nextProxy_find)
    ultimately show ?thesis unfolding find_None_iff by blast
  qed
qed

lemma nextProxy_some:
  assumes "nextProxy m = (m', Some i)"
  shows "m' = m\<lparr>mg_currentIndex := (i + 1) mod length (mg_proxies m)\<rparr>" "i < length (mg_proxies m)"
    "\<exists>k < length (mg_proxies m). i = turn m k \<and> online_at m i \<and> (\<forall>k' < k. \<not> online_at m (turn m k'))"
proof -
  show "m' = m\<lparr>mg_currentIndex := (i + 1) mod length (mg_proxies m)\<rparr>"
    using assms by (auto simp: nextProxy_def split: option.splits if_splits)
  have "find (online_at m) (map (turn m) [0..<length (mg_proxies m)]) = Some i"
    using assms by (simp flip: nextProxy_find)
  then obtain k where k: "k < length (mg_proxies m)" "online_at m i" "i = turn m k"
    "\<forall>k'<k. \<not> online_at m (turn m k')"
    unfolding find_Some_iff by auto
  then show "\<exists>k < length (mg_proxies m). i = turn m k \<and> online_at m i \<and> (\<forall>k' < k. \<not> online_at m (turn m k'))"
    by blast
  have "mg_proxies m \<noteq> []" using k(1) by auto
  then show "i < length (mg_proxies m)" by (simp add: k(3) turn_def)
qed

text \<open>C26: The pool takes turns: a request gets the first online proxy in the order that starts at the
current index and wraps around - the proxies passed over are all offline - and the next turn starts right
behind it; the direct transport is used exactly when no proxy is online.\<close>

theorem nextProxy_round_robin:
  "case nextProxy m of
     (m', Some i) \<Rightarrow> i < length (mg_proxies m) \<and> online_at m i
       \<and> mg_currentIndex m' = (i + 1) mod length (mg_proxies m) \<and> mg_proxies m' = mg_proxies m
       \<and> (\<exists>k < length (mg_proxies m). i = turn m k \<and> (\<forall>k' < k. \<not> online_at m (turn m k')))
   | (m', None) \<Rightarrow> m' = m \<and> (\<forall>i < length (mg_proxies m). \<not> online_at m i)"
proof (cases "nextProxy m")
  case (Pair m' r)
  show ?thesis
  proof (cases r)
    case None
    then show ?thesis using nextProxy_none [of m m'] Pair by simp
  next
    case (Some i)
    then show ?thesis using nextProxy_some [of m m' i] Pair by auto
  qed
qed

definition three_proxies :: Manager where
  "three_proxies = \<lparr>mg_proxies = [new_proxy ''a'', (new_proxy ''b'')\<lparr>px_Status := StatusOffline\<rparr>, new_proxy ''c''],
     mg_currentIndex = 1, mg_probeURL = [], mg_probeInterval = 0, mg_timeout = 0\<rparr>"

lemma nextProxy_round_robin_witness:
  "nextProxy three_proxies = (three_proxies\<lparr>mg_currentIndex := 0\<rparr>, Some 2)
   \<and> (\<exists>k < 3. 2 = turn three_proxies k \<and> (\<forall>k' < k. \<not> online_at three_proxies (turn three_proxies k')))"
proof -
  have n: "nextProxy three_proxies = (three_proxies\<lparr>mg_currentIndex := 0\<rparr>, Some 2)"
    by code_simp
  have l: "length (mg_proxies three_proxies) = 3" by (simp add: three_proxies_def)
  show ?thesis using nextProxy_round_robin [of three_proxies] unfolding n l prod.case option.case by blast
qed

subsection \<open>Interleavings\<close>

text \<open>The state of the pool together with the proxies of the requests under way.\<close>

inductive pool_step :: "Manager \<times> nat list \<Rightarrow> Manager \<times> nat list \<Rightarrow> bool" where
  Choose: "nextProxy m = (m', Some i) \<Longrightarrow> pool_step (m, fl) (m', i # fl)"
| Direct: "nextProxy m = (m', None) \<Longrightarrow> pool_step (m, fl) (m', fl)"
| Mark: "i \<in> set fl \<Longrightarrow> pool_step (m, fl) (mark_outcome r i m, remove1 i fl)"
| Probe: "i < length (mg_proxies m) \<Longrightarrow> pool_step (m, fl) (at_proxy i (probe_one r) m, fl)"

inductive_cases pool_stepE: "pool_step s t"

definition proxy_ok :: "Proxy \<Rightarrow> bool" where
  "proxy_ok p = (0 \<le> px_FailCount p \<and> (px_Status p = StatusOnline \<longrightarrow> px_FailCount p = 0))"

definition pool_ok :: "string list \<Rightarrow> Manager \<times> nat list \<Rightarrow> bool" where
  "pool_ok urls s =
     (map px_URL (mg_proxies (fst s)) = urls \<and> (\<forall>p\<in>set (mg_proxies (fst s)). proxy_ok p)
      \<and> (urls \<noteq> [] \<longrightarrow> mg_currentIndex (fst s) < length urls)
      \<and> (\<forall>i\<in>set (snd s). i < length urls))"

lemma proxy_ok_marks:
  "proxy_ok p \<Longrightarrow> proxy_ok (mark_failed p)" "proxy_ok (mark_ok p)"
  "proxy_ok p \<Longrightarrow> proxy_ok (probe_one r p)"
  by (auto simp: proxy_ok_def mark_failed_def mark_ok_def probe_one_def Let_def)

lemma marks_url [simp]:
  "px_URL (mark_failed p) = px_URL p" "px_URL (mark_ok p) = px_URL p" "px_URL (probe_one r p) = px_URL p"
  by (simp_all add: mark_failed_def mark_ok_def probe_one_def Let_def)

lemma pool_ok_at:
  assumes "pool_ok urls (m, fl)" "i < length urls" "\<And>p. px_URL (f p) = px_URL p"
    "\<And>p. proxy_ok p \<Longrightarrow> proxy_ok (f p)"
  shows "pool_ok urls (at_proxy i f m, fl)"
proof -
  have n: "length (mg_proxies m) = length urls" using assms(1) by (auto simp: pool_ok_def)
  have "map px_URL ((mg_proxies m)[i := f (mg_proxies m ! i)])
      = (map px_URL (mg_proxies m))[i := map px_URL (mg_proxies m) ! i]"
    using assms(2,3) n by (simp add: map_update)
  then have u: "map px_URL ((mg_proxies m)[i := f (mg_proxies m ! i)]) = urls"
    using assms(1) by (simp add: pool_ok_def)
  have all: "\<forall>p\<in>set (mg_proxies m). proxy_ok p" using assms(1) by (simp add: pool_ok_def)
  have "mg_proxies m ! i \<in> set (mg_proxies m)" using assms(2) n by simp
  with all have "proxy_ok (f (mg_proxies m ! i))" using assms(4) by blast
  with all have "\<forall>p\<in>set ((mg_proxies m)[i := f (mg_proxies m ! i)]). proxy_ok p"
    using set_update_subset_insert by fastforce
  with u assms(1) show ?thesis by (simp add: pool_ok_def at_proxy_def)
qed

lemma pool_ok_mark:
  assumes "pool_ok urls (m, fl)" "i < length urls"
  shows "pool_ok urls (mark_outcome r i m, fl)"
  using assms by (auto simp: mark_outcome_def markFailure_def markSuccess_def proxy_ok_marks
      intro!: pool_ok_at split: outcome.split)

lemma pool_ok_drop: "pool_ok urls (m, fl) \<Longrightarrow> pool_ok urls (m, remove1 i fl)"
  using set_remove1_subset [of i fl] by (auto simp: pool_ok_def)

lemma pool_ok_next:
  assumes ok: "pool_ok urls (m, fl)" and n: "nextProxy m = (m', r)"
  shows "pool_ok urls (m', (case r of Some i \<Rightarrow> i # fl | None \<Rightarrow> fl))"
proof (cases r)
  case None
  then show ?thesis using ok nextProxy_none(1) [of m m'] n by simp
next
  case (Some i)
  note i = nextProxy_some(1,2) [OF n [unfolded Some]]
  have "length (mg_proxies m) = length urls" using ok by (auto simp: pool_ok_def)
  then show ?thesis using Some i ok by (auto simp: pool_ok_def)
qed

lemma pool_ok_step: "pool_step s t \<Longrightarrow> pool_ok urls s \<Longrightarrow> pool_ok urls t"
proof (erule pool_step.cases)
  fix m m' i fl
  assume "s = (m, fl)" "t = (m', i # fl)" "nextProxy m = (m', Some i)" "pool_ok urls s"
  then show ?thesis using pool_ok_next [of urls m fl m' "Some i"] by simp
next
  fix m m' fl
  assume "s = (m, fl)" "t = (m', fl)" "nextProxy m = (m', None)" "pool_ok urls s"
  then show ?thesis using pool_ok_next [of urls m fl m' None] by simp
next
  fix i fl m r
  assume a: "s = (m, fl)" "t = (mark_outcome r i m, remove1 i fl)" "i \<in> set fl" "pool_ok urls s"
  then have "i < length urls" by (auto simp: pool_ok_def)
  then show ?thesis using a pool_ok_mark pool_ok_drop by simp
next
  fix i m fl r
  assume a: "s = (m, fl)" "t = (at_proxy i (probe_one r) m, fl)" "i < length (mg_proxies m)" "pool_ok urls s"
  then have "i < length urls" by (auto simp: pool_ok_def)
  then show ?thesis using a pool_ok_at [of urls m fl i "probe_one r"] by (simp add: proxy_ok_marks)
qed

lemma new_proxies_ok:
  "new_proxies parse us = Inr ps \<Longrightarrow>
     map px_URL ps = map (\<lambda>u. the (parse u)) us \<and> (\<forall>p\<in>set ps. proxy_ok p)"
  by (induction us arbitrary: ps) (auto simp: new_proxy_def proxy_ok_def split: option.splits sum.splits)

text \<open>C27: However requests and probes interleave, the pool keeps its proxies, in order, with the index
inside the list; a proxy that counts a failure is offline, and every request under way holds a proxy of
the pool.\<close>

theorem pool_invariant:
  assumes "NewManager parse cfg = Inr m0" and "pool_step\<^sup>*\<^sup>* (m0, []) (m, fl)"
  shows "map px_URL (mg_proxies m) = map (\<lambda>u. the (parse u)) (cf_ProxyURLs cfg)
    \<and> (\<forall>p\<in>set (mg_proxies m). px_FailCount p \<noteq> 0 \<longrightarrow> px_Status p = StatusOffline)
    \<and> (mg_proxies m \<noteq> [] \<longrightarrow> mg_currentIndex m < length (mg_proxies m))
    \<and> (\<forall>i\<in>set fl. i < length (mg_proxies m))"
proof -
  let ?urls = "map (\<lambda>u. the (parse u)) (cf_ProxyURLs cfg)"
  have "pool_ok ?urls (m0, [])"
    using assms(1) new_proxies_ok [of parse "cf_ProxyURLs cfg"]
    by (auto simp: NewManager_def pool_ok_def split: sum.splits)
  with assms(2) have ok: "pool_ok ?urls (m, fl)"
    by (induction rule: rtranclp_induct) (auto intro: pool_ok_step)
  have "px_Status p = StatusOffline" if "p \<in> set (mg_proxies m)" "px_FailCount p \<noteq> 0" for p
    using ok that by (cases "px_Status p") (auto simp: pool_ok_def proxy_ok_def)
  moreover have "length (mg_proxies m) = length (cf_ProxyURLs cfg)"
    using ok by (auto simp: pool_ok_def dest: map_eq_imp_length_eq)
  ultimately show ?thesis using ok by (auto simp: pool_ok_def)
qed

definition two_proxies :: Config where
  "two_proxies = \<lparr>cf_ProxyURLs = [''a'', ''b''], cf_ProbeURL = [], cf_ProbeInterval = 0, cf_Timeout = 0\<rparr>"

theorem pool_invariant_witness:
  "\<exists>m0 m. NewManager Some two_proxies = Inr m0 \<and> pool_step\<^sup>*\<^sup>* (m0, []) (m, [0])
     \<and> map px_URL (mg_proxies m) = [''a'', ''b'']"
proof -
  obtain m0 where m0: "NewManager Some two_proxies = Inr m0"
    by (simp add: NewManager_def two_proxies_def)
  have "nextProxy m0 = (m0\<lparr>mg_currentIndex := 1\<rparr>, Some 0)"
    using m0 by (auto simp: NewManager_def two_proxies_def nextProxy_def new_proxy_def eval_nat_numeral)
  then have "pool_step\<^sup>*\<^sup>* (m0, []) (m0\<lparr>mg_currentIndex := 1\<rparr>, [0])"
    by (intro r_into_rtranclp pool_step.Choose)
  with pool_invariant [OF m0 this] m0 show ?thesis by (auto simp: two_proxies_def)
qed

text \<open>After a round of probes the proxies that answered well are online and the others are not.\<close>

lemma probeAll_status:
  assumes "i < length (mg_proxies m)"
  shows "online_at (probeAll tr m) i \<longleftrightarrow> checkProxy (tr i)"
proof -
  have "length (mg_proxies (fold (\<lambda>i. at_proxy i (probe_one (tr i))) js m)) = length (mg_proxies m)" for js
    by (induction js arbitrary: m) (simp_all add: at_proxy_def)
  moreover have "online_at (fold (\<lambda>i. at_proxy i (probe_one (tr i))) [0..<n] m) i \<longleftrightarrow>
      (if i < n then checkProxy (tr i) else online_at m i)" if "n \<le> length (mg_proxies m)" for n
    using that assms calculation
    by (induction n) (auto simp: at_proxy_def online_at_def probe_one_def mark_ok_def nth_list_update)
  ultimately show ?thesis using assms by (simp add: probeAll_def)
qed

end
