(* ===== verification/PartPlan.thy ===== *)
theory PartPlan
  imports Prelude
begin

text \<open>
  How an object is cut into the parts of a multipart upload: \<^verbatim>\<open>worker_transfer/transfer.go\<close>
  (\<^verbatim>\<open>calculatePartSize\<close>, the loop of \<^verbatim>\<open>transferFile\<close>), \<^verbatim>\<open>r2-worker/r2s3.go\<close>
  (\<^verbatim>\<open>calculatePartSize\<close>, the loop of \<^verbatim>\<open>processObject\<close>) and
  \<^verbatim>\<open>worker_downloader/downloader.go\<close> (\<^verbatim>\<open>transferFile\<close>). The three cut differently, but each
  is an instance of one interface, a planner. Sizes are \<^verbatim>\<open>int64\<close>; every intermediate value of the
  three is below the sz plus one part, so integers are exact. The quotient of the downloader is taken in
  \<^verbatim>\<open>float64\<close>, which rounds up to the same integer for every sz below \<open>2 ^ 53\<close>.
\<close>

record part =
  pt_num :: int
  pt_start :: int
  pt_len :: int

section \<open>The planners\<close>

subsection \<open>Transfer worker\<close>

text \<open>\<open>mps\<close> is \<^verbatim>\<open>minPartSize\<close>.\<close>

definition tx_calculatePartSize :: "int \<Rightarrow> int \<Rightarrow> int" where
  "tx_calculatePartSize mps sz =
     (let partSize = go_div sz 10000 in if partSize < mps then mps else partSize)"

definition tx_numParts :: "int \<Rightarrow> int \<Rightarrow> int" where
  "tx_numParts mps sz = go_div (sz - 1) (tx_calculatePartSize mps sz) + 1"

text \<open>The range from \<open>start\<close> to \<open>end\<close>, both included, that part \<open>i\<close> (from \<open>0\<close>) asks for.\<close>

definition range_part :: "int \<Rightarrow> int \<Rightarrow> int \<Rightarrow> part" where
  "range_part partSize sz i =
     (let start = i * partSize; end0 = start + partSize - 1;
          end1 = (if end0 \<ge> sz then sz - 1 else end0)
      in \<lparr>pt_num = i + 1, pt_start = start, pt_len = end1 - start + 1\<rparr>)"

definition tx_part :: "int \<Rightarrow> int \<Rightarrow> int \<Rightarrow> part" where
  "tx_part mps sz i = range_part (tx_calculatePartSize mps sz) sz i"

subsection \<open>Copy tool\<close>

definition defaultPartSize :: int where
  "defaultPartSize = 16777216"

definition r2_calculatePartSize :: "int \<Rightarrow> int" where
  "r2_calculatePartSize sz =
     (if sz > defaultPartSize * 10000
      then push_bit 20 (drop_bit 20 (go_div sz 10000 - 1) + 1)
      else defaultPartSize)"

definition r2_numParts :: "int \<Rightarrow> int" where
  "r2_numParts sz = go_div (sz - 1) (r2_calculatePartSize sz) + 1"

definition r2_part :: "int \<Rightarrow> int \<Rightarrow> part" where
  "r2_part sz partNum =
     (let partSize = r2_calculatePartSize sz; off = partNum * partSize
      in \<lparr>pt_num = partNum + 1, pt_start = off,
          pt_len = (if partNum = r2_numParts sz - 1 then sz - off else partSize)\<rparr>)"

subsection \<open>Download worker\<close>

text \<open>\<^verbatim>\<open>int(math.Ceil(float64(sz) / float64(ChunkSize)))\<close>.\<close>

definition dl_numParts :: "int \<Rightarrow> int \<Rightarrow> int" where
  "dl_numParts chunk sz = - ((- sz) div chunk)"

definition dl_part :: "int \<Rightarrow> int \<Rightarrow> int \<Rightarrow> part" where
  "dl_part chunk sz i = range_part chunk sz i"

section \<open>The interface\<close>

text \<open>A list of parts covers the bytes from \<open>a\<close> to \<open>b\<close>: no gap, no overlap, no empty part.\<close>

fun tiles :: "int \<Rightarrow> int \<Rightarrow> part list \<Rightarrow> bool" where
  "tiles a b [] = (a = b)"
| "tiles a b (p # ps) = (pt_start p = a \<and> 0 < pt_len p \<and> tiles (a + pt_len p) b ps)"

definition plan :: "(int \<Rightarrow> int) \<Rightarrow> (int \<Rightarrow> int \<Rightarrow> part) \<Rightarrow> int \<Rightarrow> part list" where
  "plan num part_at sz = map (\<lambda>i. part_at sz (int i)) [0..<nat (num sz)]"

lemma div_less_mult: "0 < (p::int) \<Longrightarrow> a div p < n \<longleftrightarrow> a < n * p"
proof
  assume p: "0 < p" and "a div p < n"
  then have "(a div p + 1) * p \<le> n * p" by (intro mult_right_mono) simp_all
  moreover have "(a div p + 1) * p = a div p * p + p" by (simp add: algebra_simps)
  then have "a < (a div p + 1) * p" using p pos_mod_bound [of p a] div_mult_mod_eq [of a p] by linarith
  ultimately show "a < n * p" by linarith
next
  assume p: "0 < p" and a: "a < n * p"
  show "a div p < n"
  proof (rule ccontr)
    assume "\<not> a div p < n"
    then have "n * p \<le> a div p * p" using p by (intro mult_right_mono) simp_all
    moreover have "a div p * p \<le> a" using p pos_mod_sign [of p a] div_mult_mod_eq [of a p] by linarith
    ultimately show False using a by linarith
  qed
qed

lemma ceil_count:
  assumes "0 < (p::int)"
  shows "- ((- n) div p) = (n - 1) div p + 1"
proof -
  let ?q = "(n - 1) div p" and ?r = "(n - 1) mod p"
  have "- n = p * (- (?q + 1)) + (p - ?r - 1)"
    using div_mult_mod_eq [of "n - 1" p] by (simp add: algebra_simps)
  moreover have "0 \<le> p - ?r - 1" "p - ?r - 1 < p"
    using pos_mod_bound [OF assms] pos_mod_sign [OF assms, of "n - 1"] by (simp_all add: zless_imp_add1_zle)
  ultimately have "(- n) div p = - (?q + 1)" by (rule int_div_pos_eq)
  then show ?thesis by simp
qed

locale part_planner =
  fixes valid :: "int \<Rightarrow> bool"
    and part_size :: "int \<Rightarrow> int"
    and num_parts :: "int \<Rightarrow> int"
    and part_at :: "int \<Rightarrow> int \<Rightarrow> part"
  assumes valid_pos: "valid sz \<Longrightarrow> 0 < sz \<and> 0 < part_size sz"
    and num_parts_eq: "valid sz \<Longrightarrow> num_parts sz = (sz - 1) div part_size sz + 1"
    and part_at_eq: "valid sz \<Longrightarrow> 0 \<le> i \<Longrightarrow> i < num_parts sz \<Longrightarrow>
      part_at sz i = \<lparr>pt_num = i + 1, pt_start = i * part_size sz,
        pt_len = min (part_size sz) (sz - i * part_size sz)\<rparr>"
begin

lemma num_parts_le: "valid sz \<Longrightarrow> num_parts sz \<le> n \<longleftrightarrow> sz \<le> n * part_size sz"
  using valid_pos [of sz] num_parts_eq [of sz] div_less_mult [of "part_size sz" "sz - 1" n] by auto

lemma num_parts_pos: "valid sz \<Longrightarrow> 0 < num_parts sz"
  using valid_pos [of sz] num_parts_eq [of sz] pos_imp_zdiv_nonneg_iff [of "part_size sz" "sz - 1"]
  by simp

lemma length_plan: "length (plan num_parts part_at sz) = nat (num_parts sz)"
  by (simp add: plan_def)

lemma length_plan_le:
  "valid sz \<Longrightarrow> length (plan num_parts part_at sz) \<le> n \<longleftrightarrow> sz \<le> int n * part_size sz"
  using num_parts_le [of sz "int n"] by (auto simp: length_plan)

lemma plan_nums: "valid sz \<Longrightarrow> map pt_num (plan num_parts part_at sz) = map int [1..<nat (num_parts sz) + 1]"
  by (rule nth_equalityI) (simp_all add: plan_def part_at_eq del: upt_Suc)

lemma plan_tiles_from:
  assumes v: "valid sz" and k: "k < nat (num_parts sz)"
  shows "tiles (int k * part_size sz) sz (map (\<lambda>i. part_at sz (int i)) [k..<nat (num_parts sz)])"
  using k
proof (induction "nat (num_parts sz) - k" arbitrary: k)
  case 0
  then show ?case by simp
next
  case (Suc d)
  let ?p = "part_size sz"
  have "int k < num_parts sz" using Suc.prems by linarith
  then have at: "part_at sz (int k) = \<lparr>pt_num = int k + 1, pt_start = int k * ?p,
      pt_len = min ?p (sz - int k * ?p)\<rparr>"
    using part_at_eq [OF v] by simp
  have "\<not> num_parts sz \<le> int k" using \<open>int k < num_parts sz\<close> by simp
  then have pos: "0 < sz - int k * ?p" using num_parts_le [OF v, of "int k"] by simp
  have list: "[k..<nat (num_parts sz)] = k # [Suc k..<nat (num_parts sz)]"
    using Suc.prems by (simp add: upt_rec)
  show ?case
  proof (cases "Suc k < nat (num_parts sz)")
    case True
    have "\<not> num_parts sz \<le> int (Suc k)" using True by linarith
    then have "\<not> sz \<le> int (Suc k) * ?p" using num_parts_le [OF v, of "int (Suc k)"] by simp
    then have m: "min ?p (sz - int k * ?p) = ?p" by (simp add: algebra_simps)
    have "d = nat (num_parts sz) - Suc k" using Suc.hyps(2) by linarith
    then have "tiles (int (Suc k) * ?p) sz (map (\<lambda>i. part_at sz (int i)) [Suc k..<nat (num_parts sz)])"
      using Suc.hyps(1) True by blast
    then show ?thesis unfolding list using at m valid_pos [OF v] by (simp add: algebra_simps)
  next
    case False
    then have "num_parts sz \<le> int (Suc k)" by linarith
    then have "sz \<le> int (Suc k) * ?p" using num_parts_le [OF v, of "int (Suc k)"] by simp
    then have m: "min ?p (sz - int k * ?p) = sz - int k * ?p" by (simp add: algebra_simps)
    from False have nil: "[Suc k..<nat (num_parts sz)] = []" by simp
    show ?thesis unfolding list nil using at m pos by simp
  qed
qed

lemma plan_tiles: "valid sz \<Longrightarrow> tiles 0 sz (plan num_parts part_at sz)"
  using plan_tiles_from [of sz 0] num_parts_pos [of sz] by (simp add: plan_def)

end

section \<open>The three planners are instances\<close>

lemma range_part_eq:
  "range_part p sz i = \<lparr>pt_num = i + 1, pt_start = i * p, pt_len = min p (sz - i * p)\<rparr>"
  by (simp add: range_part_def Let_def min_def)

lemma tx_part_size_pos: "0 < mps \<Longrightarrow> 0 < sz \<Longrightarrow> 0 < tx_calculatePartSize mps sz"
  by (auto simp: tx_calculatePartSize_def Let_def)

lemma r2_part_size:
  assumes "0 < sz"
  shows "r2_calculatePartSize sz =
    (if sz > 167772160000 then ((sz div 10000 - 1) div 1048576 + 1) * 1048576 else 16777216)"
  using assms by (simp add: r2_calculatePartSize_def defaultPartSize_def push_bit_eq_mult drop_bit_eq_div)

lemma r2_part_size_pos:
  assumes "0 < sz" shows "0 < r2_calculatePartSize sz"
proof (cases "sz > 167772160000")
  case True
  then have "0 \<le> sz div 10000 - 1" by linarith
  then have "0 \<le> (sz div 10000 - 1) div 1048576" by simp
  then show ?thesis using assms True by (simp add: r2_part_size)
qed (use assms in \<open>simp add: r2_part_size\<close>)

interpretation tx: part_planner "\<lambda>sz. 0 < mps \<and> 0 < sz" "tx_calculatePartSize mps" "tx_numParts mps" "tx_part mps"
  for mps
  by unfold_locales
    (auto simp: tx_numParts_def tx_part_def range_part_eq tx_part_size_pos)

interpretation dl: part_planner "\<lambda>sz. 0 < chunk \<and> 0 < sz" "\<lambda>_. chunk" "dl_numParts chunk" "dl_part chunk"
  for chunk
  by unfold_locales (auto simp: dl_numParts_def dl_part_def range_part_eq ceil_count)

lemma r2_last_part:
  assumes "0 < sz" "0 \<le> i" "i < r2_numParts sz"
  shows "(if i = r2_numParts sz - 1 then sz - i * r2_calculatePartSize sz else r2_calculatePartSize sz)
    = min (r2_calculatePartSize sz) (sz - i * r2_calculatePartSize sz)"
proof -
  let ?p = "r2_calculatePartSize sz"
  note p = r2_part_size_pos [OF assms(1)]
  have n: "r2_numParts sz = (sz - 1) div ?p + 1" using assms(1) p by (simp add: r2_numParts_def)
  have "i + 1 < r2_numParts sz \<longleftrightarrow> \<not> (sz - 1) div ?p < i + 1" using n by linarith
  also have "\<dots> \<longleftrightarrow> \<not> sz - 1 < (i + 1) * ?p" using div_less_mult [OF p, of "sz - 1" "i + 1"] by simp
  also have "\<dots> \<longleftrightarrow> ?p < sz - i * ?p" by (simp add: distrib_right) linarith
  finally show ?thesis using assms(3) by (auto simp: min_def)
qed

interpretation r2: part_planner "\<lambda>sz. 0 < sz" r2_calculatePartSize r2_numParts r2_part
proof unfold_locales
  show "r2_part sz i = \<lparr>pt_num = i + 1, pt_start = i * r2_calculatePartSize sz,
      pt_len = min (r2_calculatePartSize sz) (sz - i * r2_calculatePartSize sz)\<rparr>"
    if "0 < sz" "0 \<le> i" "i < r2_numParts sz" for sz i
    unfolding r2_part_def Let_def r2_last_part [OF that] by simp
qed (simp_all add: r2_part_size_pos r2_numParts_def)

section \<open>How many parts\<close>

definition tx_plan :: "int \<Rightarrow> int \<Rightarrow> part list" where
  "tx_plan mps = plan (tx_numParts mps) (tx_part mps)"

definition r2_plan :: "int \<Rightarrow> part list" where
  "r2_plan = plan r2_numParts r2_part"

definition dl_plan :: "int \<Rightarrow> int \<Rightarrow> part list" where
  "dl_plan chunk = plan (dl_numParts chunk) (dl_part chunk)"

text \<open>What S3 wants: the parts are numbered from \<open>1\<close> in order and cover the object exactly.\<close>

definition covers :: "int \<Rightarrow> part list \<Rightarrow> bool" where
  "covers sz ps = (map pt_num ps = map int [1..<length ps + 1] \<and> tiles 0 sz ps)"

lemma tx_covers: "0 < mps \<Longrightarrow> 0 < sz \<Longrightarrow> covers sz (tx_plan mps sz)"
  using tx.plan_nums [of mps sz] tx.plan_tiles [of mps sz] by (simp add: covers_def tx_plan_def tx.length_plan)

lemma r2_covers: "0 < sz \<Longrightarrow> covers sz (r2_plan sz)"
  using r2.plan_nums [of sz] r2.plan_tiles [of sz] by (simp add: covers_def r2_plan_def r2.length_plan)

lemma dl_covers: "0 < chunk \<Longrightarrow> 0 < sz \<Longrightarrow> covers sz (dl_plan chunk sz)"
  using dl.plan_nums [of chunk sz] dl.plan_tiles [of chunk sz] by (simp add: covers_def dl_plan_def dl.length_plan)

lemma le_floor_mult: "0 < (d::int) \<Longrightarrow> n \<le> d * (n div d) \<longleftrightarrow> d dvd n"
proof -
  assume "0 < d"
  then have "0 \<le> n mod d" by simp
  moreover have "d * (n div d) + n mod d = n" by simp
  ultimately show "n \<le> d * (n div d) \<longleftrightarrow> d dvd n" unfolding dvd_eq_mod_eq_0 by linarith
qed

lemma up_to_multiple:
  assumes "0 < (d::int)"
  shows "((q - 1) div d + 1) * d = (if d dvd q then q else (q div d + 1) * d)"
proof (cases "d dvd q")
  case True
  then obtain k where "q = d * k" by blast
  moreover have "(d * k - 1) div d = k - 1"
    by (rule int_div_pos_eq [where r = "d - 1"]) (use assms in \<open>simp_all add: algebra_simps\<close>)
  ultimately show ?thesis using True by simp
next
  case False
  then have "0 < q mod d" using pos_mod_sign [OF assms, of q] unfolding dvd_eq_mod_eq_0 by linarith
  moreover have "q - 1 = d * (q div d) + (q mod d - 1)" by simp
  ultimately have "(q - 1) div d = q div d"
    using int_div_pos_eq [of "q - 1" d "q div d" "q mod d - 1"] pos_mod_bound [OF assms, of q] by simp
  then show ?thesis using False by simp
qed

lemma tx_count:
  assumes "0 < mps" "0 < sz"
  shows "length (tx_plan mps sz) \<le> 10000 \<longleftrightarrow> sz \<le> 10000 * mps \<or> 10000 dvd sz"
proof -
  let ?p = "tx_calculatePartSize mps sz"
  have p: "?p = max mps (sz div 10000)" using assms by (simp add: tx_calculatePartSize_def Let_def max_def)
  have "length (tx_plan mps sz) \<le> 10000 \<longleftrightarrow> sz \<le> 10000 * ?p"
    using assms tx.length_plan_le [of mps sz 10000] by (simp add: tx_plan_def)
  moreover have "sz \<le> 10000 * (sz div 10000) \<longleftrightarrow> 10000 dvd sz" by (simp add: le_floor_mult)
  ultimately show ?thesis unfolding p by (auto simp: max_def)
qed

lemma r2_count:
  assumes "0 < sz"
  shows "length (r2_plan sz) \<le> 10000 \<longleftrightarrow>
    \<not> (10000 * 16777216 < sz \<and> 1048576 dvd sz div 10000 \<and> \<not> 10000 dvd sz)"
proof -
  let ?p = "r2_calculatePartSize sz" and ?q = "sz div 10000"
  have "length (r2_plan sz) \<le> 10000 \<longleftrightarrow> sz \<le> 10000 * ?p"
    using assms r2.length_plan_le [of sz 10000] by (simp add: r2_plan_def)
  also have "\<dots> \<longleftrightarrow> \<not> (10000 * 16777216 < sz \<and> 1048576 dvd ?q \<and> \<not> 10000 dvd sz)"
  proof (cases "sz > 167772160000")
    case True
    then have p: "?p = (if 1048576 dvd ?q then ?q else (?q div 1048576 + 1) * 1048576)"
      using assms up_to_multiple [of 1048576 ?q] by (simp only: r2_part_size if_True)
    show ?thesis
    proof (cases "1048576 dvd ?q")
      case True
      then show ?thesis using p \<open>sz > 167772160000\<close> by (simp add: le_floor_mult)
    next
      case False
      then have "?q < ?p" using p by simp
      then have "sz \<le> 10000 * ?p" by simp
      then show ?thesis using False by simp
    qed
  qed (use assms in \<open>simp add: r2_part_size\<close>)
  finally show ?thesis .
qed

lemma dl_count:
  "0 < chunk \<Longrightarrow> 0 < sz \<Longrightarrow> length (dl_plan chunk sz) \<le> n \<longleftrightarrow> sz \<le> int n * chunk"
  using dl.length_plan_le [of chunk sz n] by (simp add: dl_plan_def)

text \<open>C28: Each of the three workers numbers its parts from 1 and cuts the object into non-empty ranges
without gap or overlap. The limit of 10000 parts that the comments name is kept by the transfer worker
only up to 10000 times its minimal part size or when 10000 divides the size, and by the copy tool except
just above a multiple of 10000 times a whole number of MB; the downloader keeps it up to 10000 chunks.\<close>

theorem part_plans_cover_the_object:
  assumes "0 < sz" "0 < mps" "0 < chunk"
  shows "covers sz (tx_plan mps sz) \<and> covers sz (r2_plan sz) \<and> covers sz (dl_plan chunk sz)
    \<and> (length (tx_plan mps sz) \<le> 10000 \<longleftrightarrow> sz \<le> 10000 * mps \<or> 10000 dvd sz)
    \<and> (length (r2_plan sz) \<le> 10000 \<longleftrightarrow>
         \<not> (10000 * 16777216 < sz \<and> 1048576 dvd sz div 10000 \<and> \<not> 10000 dvd sz))
    \<and> (length (dl_plan chunk sz) \<le> 10000 \<longleftrightarrow> sz \<le> 10000 * chunk)"
  using assms tx_covers r2_covers dl_covers tx_count r2_count dl_count [of chunk sz 10000] by simp

theorem part_plans_cover_the_object_witness:
  "covers 83886080001 (tx_plan 8388608 83886080001) \<and> 10000 < length (tx_plan 8388608 83886080001)
     \<and> length (r2_plan 83886080001) \<le> 10000 \<and> 10000 < length (r2_plan 178257920001)
     \<and> 10000 < length (dl_plan 6291456 83886080001)"
  using part_plans_cover_the_object [of 83886080001 8388608 6291456]
    part_plans_cover_the_object [of 178257920001 8388608 6291456] by simp

end
