(* ===== verification/Multipart.thy ===== *)
theory Multipart
  imports PartPlan "HOL-Library.Multiset"
begin

text \<open>
  Multipart uploads, as the three workers run them: \<^verbatim>\<open>transferFile\<close> and
  \<^verbatim>\<open>callTransferService\<close> of \<^verbatim>\<open>worker_transfer/transfer.go\<close>, \<^verbatim>\<open>transferFile\<close> of
  \<^verbatim>\<open>worker_downloader/downloader.go\<close> with its recovery of lost answers, and
  \<^verbatim>\<open>processObject\<close> of \<^verbatim>\<open>r2-worker/r2s3.go\<close>. One goroutine per part is a step relation, so
  that any interleaving is a path. The service and S3 are arguments; each part is sent once, so what comes
  of it is a function of the part.
\<close>

section \<open>Calling the transfer service\<close>

datatype service_reply = NoReply string | Status int string | BadBody string | Etag string

text \<open>\<open>ctx i\<close>: the error of the context before call \<open>i\<close>; \<open>pause i\<close>: its error during the pause after
call \<open>i\<close>. The last argument counts the calls that are left.\<close>

fun call_loop :: "(nat \<Rightarrow> string option) \<Rightarrow> (nat \<Rightarrow> string option) \<Rightarrow> (nat \<Rightarrow> service_reply) \<Rightarrow> nat \<Rightarrow> nat
    \<Rightarrow> string + string" where
  "call_loop ctx pause reply i 0 = Inl ''service call failed: ''"
| "call_loop ctx pause reply i (Suc k) =
     (case ctx i of
        Some e \<Rightarrow> Inl e
      | None \<Rightarrow>
          (case reply i of
             NoReply e \<Rightarrow>
               if k = 0 then Inl (''service call failed: '' @ e)
               else (case pause i of
                       Some e' \<Rightarrow> Inl e'
                     | None \<Rightarrow> call_loop ctx pause reply (Suc i) k)
           | BadBody e \<Rightarrow> Inl (''decode response failed: '' @ e)
           | Etag e \<Rightarrow> if e = [] then Inl ''etag missing in response'' else Inr e
           | Status c b \<Rightarrow> Inl (''status '' @ itoa c @ '' body '' @ b)))"

definition callTransferService :: "(nat \<Rightarrow> string option) \<Rightarrow> (nat \<Rightarrow> string option) \<Rightarrow> (nat \<Rightarrow> service_reply)
    \<Rightarrow> int \<Rightarrow> string + string" where
  "callTransferService ctx pause reply retries =
     call_loop ctx pause reply 0 (nat (if retries < 1 then 1 else retries))"

text \<open>The copy tool repeats a call after any error.\<close>

fun try_calls :: "(nat \<Rightarrow> string + string) \<Rightarrow> nat \<Rightarrow> nat \<Rightarrow> string + string" where
  "try_calls f i 0 = Inl []"
| "try_calls f i (Suc k) =
     (case f i of Inr v \<Rightarrow> Inr v | Inl e \<Rightarrow> if k = 0 then Inl e else try_calls f (Suc i) k)"

lemma call_loop_etag:
  "call_loop ctx pause reply i k = Inr e \<Longrightarrow>
     e \<noteq> [] \<and> (\<exists>j \<ge> i. j < i + k \<and> reply j = Etag e \<and> (\<forall>j'. i \<le> j' \<and> j' < j \<longrightarrow> (\<exists>m. reply j' = NoReply m)))"
proof (induction k arbitrary: i)
  case (Suc k)
  show ?case
  proof (cases "reply i")
    case (NoReply m)
    with Suc.prems have "k \<noteq> 0" "call_loop ctx pause reply (Suc i) k = Inr e"
      by (auto split: option.splits if_splits)
    with Suc.IH obtain j where "e \<noteq> []" "Suc i \<le> j" "j < Suc i + k" "reply j = Etag e"
      "\<forall>j'. Suc i \<le> j' \<and> j' < j \<longrightarrow> (\<exists>m. reply j' = NoReply m)" by blast
    then show ?thesis using NoReply by (intro conjI exI [of _ j]) (auto simp: Suc_le_eq dest: le_neq_implies_less)
  qed (use Suc.prems in \<open>auto split: option.splits if_splits\<close>)
qed simp

text \<open>The transfer worker calls again only while the service cannot be reached.\<close>

lemma callTransferService_etag:
  assumes "callTransferService ctx pause reply n = Inr e"
  shows "e \<noteq> [] \<and> (\<exists>j. j < max 1 (nat n) \<and> reply j = Etag e \<and> (\<forall>j' < j. \<exists>m. reply j' = NoReply m))"
  using assms call_loop_etag [of ctx pause reply 0 "nat (if n < 1 then 1 else n)" e]
  by (auto simp: callTransferService_def split: if_splits)

section \<open>The goroutines of one upload\<close>

record part_upload =
  u_wait :: "part list"
  u_run :: "part list"
  u_done :: "(int \<times> string) list"
  u_err :: "string option"
  u_cancelled :: bool

definition start_upload :: "part list \<Rightarrow> part_upload" where
  "start_upload ps = \<lparr>u_wait = ps, u_run = [], u_done = [], u_err = None, u_cancelled = False\<rparr>"

text \<open>The channel \<^verbatim>\<open>errAbort\<close> has room for one error; a second one is dropped.\<close>

definition offer :: "string \<Rightarrow> string option \<Rightarrow> string option" where
  "offer e c = (case c of None \<Rightarrow> Some e | Some e' \<Rightarrow> Some e')"

definition finished :: "part_upload \<Rightarrow> bool" where
  "finished u = (u_wait u = [] \<and> u_run u = [])"

subsection \<open>Transfer worker\<close>

inductive tx_upload :: "(part \<Rightarrow> string + string) \<Rightarrow> part_upload \<Rightarrow> part_upload \<Rightarrow> bool" for res where
  TxSlot: "p \<in> set (u_wait u) \<Longrightarrow>
     tx_upload res u (u\<lparr>u_wait := remove1 p (u_wait u), u_run := p # u_run u\<rparr>)"
| TxGiveUp: "p \<in> set (u_wait u) \<Longrightarrow> u_cancelled u \<Longrightarrow>
     tx_upload res u (u\<lparr>u_wait := remove1 p (u_wait u), u_err := offer ''context canceled'' (u_err u)\<rparr>)"
| TxDone: "p \<in> set (u_run u) \<Longrightarrow> res p = Inr e \<Longrightarrow>
     tx_upload res u (u\<lparr>u_run := remove1 p (u_run u), u_done := u_done u @ [(pt_num p, e)]\<rparr>)"
| TxFail: "p \<in> set (u_run u) \<Longrightarrow> res p = Inl e \<Longrightarrow>
     tx_upload res u (u\<lparr>u_run := remove1 p (u_run u), u_err := offer e (u_err u),
       u_cancelled := (u_err u = None \<or> u_cancelled u)\<rparr>)"
| TxDeadline: "tx_upload res u (u\<lparr>u_cancelled := True\<rparr>)"

datatype s3_call = CompleteUpload "(int \<times> string) list" | AbortUpload

text \<open>After \<^verbatim>\<open>wg.Wait()\<close>; \<open>complete\<close> is the error of \<^verbatim>\<open>CompleteMultipartUpload\<close>.\<close>

definition tx_finish :: "string option \<Rightarrow> part_upload \<Rightarrow> s3_call list \<times> string option" where
  "tx_finish complete u =
     (case u_err u of
        Some e \<Rightarrow> ([AbortUpload], Some e)
      | None \<Rightarrow> ([CompleteUpload (sort_key fst (u_done u))], complete))"

subsection \<open>Download worker\<close>

text \<open>A part looks into \<^verbatim>\<open>errAbort\<close> with a receive: it takes the error out of the channel.\<close>

definition missing_etag :: string where
  "missing_etag = ''2xx but missing etag''"

inductive dl_upload :: "(string \<Rightarrow> bool) \<Rightarrow> (part \<Rightarrow> string + string) \<Rightarrow> part_upload \<Rightarrow> part_upload \<Rightarrow> bool"
    for recoverable res where
  DlStart: "p \<in> set (u_wait u) \<Longrightarrow> u_err u = None \<Longrightarrow>
     dl_upload recoverable res u (u\<lparr>u_wait := remove1 p (u_wait u), u_run := p # u_run u\<rparr>)"
| DlSkip: "p \<in> set (u_wait u) \<Longrightarrow> u_err u = Some e \<Longrightarrow>
     dl_upload recoverable res u (u\<lparr>u_wait := remove1 p (u_wait u), u_err := None\<rparr>)"
| DlDone: "p \<in> set (u_run u) \<Longrightarrow> res p = Inr e \<Longrightarrow>
     dl_upload recoverable res u (u\<lparr>u_run := remove1 p (u_run u), u_done := u_done u @ [(pt_num p, e)]\<rparr>)"
| DlMissing: "p \<in> set (u_run u) \<Longrightarrow> res p = Inl e \<Longrightarrow> recoverable e \<Longrightarrow>
     dl_upload recoverable res u (u\<lparr>u_run := remove1 p (u_run u)\<rparr>)"
| DlFail: "p \<in> set (u_run u) \<Longrightarrow> res p = Inl e \<Longrightarrow> \<not> recoverable e \<Longrightarrow>
     dl_upload recoverable res u (u\<lparr>u_run := remove1 p (u_run u), u_err := offer e (u_err u)\<rparr>)"

text \<open>The loop of a part over its attempts, \<open>k\<close> of them left.\<close>

fun chunk_attempts :: "(string \<Rightarrow> bool) \<Rightarrow> (nat \<Rightarrow> string + string) \<Rightarrow> nat \<Rightarrow> nat \<Rightarrow> string + string" where
  "chunk_attempts recoverable f i 0 = Inr []"
| "chunk_attempts recoverable f i (Suc k) =
     (case f i of
        Inr e \<Rightarrow> Inr e
      | Inl m \<Rightarrow> if \<not> recoverable m \<or> k = 0 then Inl m else chunk_attempts recoverable f (Suc i) k)"

text \<open>\<^verbatim>\<open>waitAndCollectCompletedParts\<close>: the listings that fall before the deadline, each a map from part
numbers to non-empty etags, or nothing after an error of a page.\<close>

definition collect_parts :: "int \<Rightarrow> (int \<times> string) list \<Rightarrow> (int \<times> string) list option" where
  "collect_parts n m =
     (if int (length m) \<ge> n \<and> (\<forall>i\<in>set [1..n]. map_of m i \<noteq> None)
      then Some (map (\<lambda>i. (i, the (map_of m i))) [1..n]) else None)"

fun waitAndCollectCompletedParts :: "int \<Rightarrow> (int \<times> string) list option list \<Rightarrow> (int \<times> string) list option" where
  "waitAndCollectCompletedParts n [] = None"
| "waitAndCollectCompletedParts n (l # ls) =
     (case l of
        None \<Rightarrow> waitAndCollectCompletedParts n ls
      | Some m \<Rightarrow> (case collect_parts n m of
                     Some r \<Rightarrow> Some r
                   | None \<Rightarrow> waitAndCollectCompletedParts n ls))"

text \<open>The two nested loops that put the parts in order: one pass brings the smallest to the front.\<close>

fun exchange :: "int \<times> string \<Rightarrow> (int \<times> string) list \<Rightarrow> (int \<times> string) \<times> (int \<times> string) list" where
  "exchange x [] = (x, [])"
| "exchange x (y # ys) =
     (if fst x > fst y then (let (m, zs) = exchange y ys in (m, x # zs))
      else (let (m, zs) = exchange x ys in (m, y # zs)))"

lemma exchange_length [termination_simp]: "(m, zs) = exchange x ys \<Longrightarrow> length zs = length ys"
  by (induction x ys arbitrary: m zs rule: exchange.induct) (auto split: if_splits prod.splits)

fun exchange_sort :: "(int \<times> string) list \<Rightarrow> (int \<times> string) list" where
  "exchange_sort [] = []"
| "exchange_sort (x # xs) = (let (m, zs) = exchange x xs in m # exchange_sort zs)"

text \<open>The checks before the upload is completed.\<close>

definition parts_in_order :: "(int \<times> string) list \<Rightarrow> bool" where
  "parts_in_order cs = (map fst cs = map int [1..<length cs + 1])"

definition parts_size :: "int \<Rightarrow> int \<Rightarrow> (int \<times> string) list \<Rightarrow> int" where
  "parts_size chunk sz cs = sum_list (map (\<lambda>c. pt_len (range_part chunk sz (fst c - 1))) cs)"

definition dl_complete :: "int \<Rightarrow> int \<Rightarrow> string option \<Rightarrow> (int \<times> string) list \<Rightarrow> s3_call list \<times> string option" where
  "dl_complete chunk sz complete cs =
     (let cs1 = exchange_sort cs
      in if \<not> parts_in_order cs1 then ([], Some ''part number mismatch'')
         else if parts_size chunk sz cs1 \<noteq> sz then ([], Some ''total parts size mismatch'')
         else (case complete of
                 None \<Rightarrow> ([CompleteUpload cs1], None)
               | Some e \<Rightarrow> ([CompleteUpload cs1, AbortUpload], Some (''failed to complete multipart upload: '' @ e))))"

definition dl_finish :: "int \<Rightarrow> int \<Rightarrow> (int \<times> string) list option list \<Rightarrow> string option \<Rightarrow> part_upload
    \<Rightarrow> s3_call list \<times> string option" where
  "dl_finish chunk sz listings complete u =
     (case u_err u of
        Some e \<Rightarrow> ([AbortUpload], Some e)
      | None \<Rightarrow>
          (let n = dl_numParts chunk sz;
               cs = (if int (length (u_done u)) \<noteq> n
                     then (case waitAndCollectCompletedParts n listings of Some r \<Rightarrow> r | None \<Rightarrow> u_done u)
                     else u_done u)
           in if int (length cs) \<noteq> n then ([AbortUpload], Some ''incomplete upload'')
              else dl_complete chunk sz complete cs))"

subsection \<open>Copy tool\<close>

text \<open>\<open>order\<close>: the parts in the order in which they end; the first error in the channel is returned.\<close>

fun part_errors :: "(part \<Rightarrow> string + string) \<Rightarrow> part list \<Rightarrow> string list" where
  "part_errors res [] = []"
| "part_errors res (p # ps) = (case res p of Inl e \<Rightarrow> e # part_errors res ps | Inr _ \<Rightarrow> part_errors res ps)"

definition r2_multipart :: "(part \<Rightarrow> string + string) \<Rightarrow> part list \<Rightarrow> string option \<Rightarrow> int \<Rightarrow> s3_call list \<times> string option" where
  "r2_multipart res order complete sz =
     (case part_errors res order of
        e # _ \<Rightarrow> ([AbortUpload], Some e)
      | [] \<Rightarrow> ([CompleteUpload (map (\<lambda>p. (pt_num p, case res p of Inr t \<Rightarrow> t | Inl _ \<Rightarrow> [])) (r2_plan sz))], complete))"

section \<open>Facts\<close>

subsection \<open>The exchange sort\<close>

lemma exchange_least:
  "exchange x ys = (m, zs) \<Longrightarrow>
     mset (m # zs) = mset (x # ys) \<and> (\<forall>y\<in>set (x # ys). fst m \<le> fst y)"
  by (induction x ys arbitrary: m zs rule: exchange.induct) (fastforce split: if_splits prod.splits)+

lemma mset_exchange_sort: "mset (exchange_sort xs) = mset xs"
proof (induction xs rule: exchange_sort.induct)
  case (2 x xs)
  obtain m zs where e: "exchange x xs = (m, zs)" by fastforce
  with 2 [OF e [symmetric]] exchange_least [OF e] show ?case by simp
qed simp

lemma sorted_exchange_sort: "sorted (map fst (exchange_sort xs))"
proof (induction xs rule: exchange_sort.induct)
  case (2 x xs)
  obtain m zs where e: "exchange x xs = (m, zs)" by fastforce
  note l = exchange_least [OF e]
  have "fst m \<le> fst y" if "y \<in> set (exchange_sort zs)" for y
  proof -
    have "y \<in> set zs" using that mset_eq_setD [OF mset_exchange_sort [of zs]] by simp
    moreover have "set (m # zs) = set (x # xs)" using l by (metis mset_eq_setD)
    ultimately show ?thesis using l by auto
  qed
  with 2 [OF e [symmetric]] e show ?case by (auto simp: )
qed simp

subsection \<open>Complete lists of parts\<close>

text \<open>What a complete upload must name: the parts in order, each with the answer to its own transfer.\<close>

definition etags :: "(part \<Rightarrow> string + string) \<Rightarrow> part list \<Rightarrow> (int \<times> string) list" where
  "etags res ps = map (\<lambda>p. (pt_num p, case res p of Inr t \<Rightarrow> t | Inl _ \<Rightarrow> [])) ps"

definition all_sent :: "(part \<Rightarrow> string + string) \<Rightarrow> part list \<Rightarrow> bool" where
  "all_sent res ps = (\<forall>p\<in>set ps. \<exists>t. res p = Inr t)"

definition answers :: "(part \<Rightarrow> string + string) \<Rightarrow> part list \<Rightarrow> (int \<times> string) list \<Rightarrow> bool" where
  "answers res ps cs = (\<forall>c\<in>set cs. \<exists>p\<in>set ps. fst c = pt_num p \<and> res p = Inr (snd c))"

lemma covers_distinct: "covers sz ps \<Longrightarrow> distinct (map pt_num ps)"
  by (simp add: covers_def distinct_map inj_on_def del: upt_Suc)

lemma covers_sorted: "covers sz ps \<Longrightarrow> sorted (map pt_num ps)"
  unfolding covers_def by (auto intro!: sorted_map_mono monoI simp: mono_on_def simp del: upt_Suc)

lemma answers_complete:
  assumes cov: "covers sz ps" and ans: "answers res ps cs"
    and ms: "mset (map fst cs) = mset (map pt_num ps)" and srt: "sorted (map fst cs)"
  shows "cs = etags res ps" "all_sent res ps"
proof -
  have f: "map fst cs = map pt_num ps"
    using properties_for_sort [OF ms [symmetric] covers_sorted [OF cov]]
      properties_for_sort [OF refl srt] by (metis ms properties_for_sort srt)
  then have len: "length cs = length ps" by (metis length_map)
  have step: "res (ps ! i) = Inr (snd (cs ! i)) \<and> fst (cs ! i) = pt_num (ps ! i)" if i: "i < length ps" for i
  proof -
    have fi: "fst (cs ! i) = pt_num (ps ! i)" using f i len by (metis nth_map)
    have "cs ! i \<in> set cs" using i len by simp
    then obtain q where q: "q \<in> set ps" "fst (cs ! i) = pt_num q" "res q = Inr (snd (cs ! i))"
      using ans unfolding answers_def by blast
    have "q = ps ! i"
      using q fi i covers_distinct [OF cov] by (metis distinct_map inj_onD nth_mem)
    with q fi show ?thesis by simp
  qed
  show "cs = etags res ps"
    by (rule nth_equalityI) (use len step in \<open>simp_all add: etags_def prod_eq_iff\<close>)
  show "all_sent res ps" unfolding all_sent_def using step by (metis in_set_conv_nth)
qed

subsection \<open>Invariants of the goroutines\<close>

text \<open>The parts a goroutine still holds; the numbers that are accounted for.\<close>

definition open_nums :: "part_upload \<Rightarrow> int multiset" where
  "open_nums u = mset (map pt_num (u_wait u)) + mset (map pt_num (u_run u)) + mset (map fst (u_done u))"

definition upload_ok :: "(part \<Rightarrow> string + string) \<Rightarrow> part list \<Rightarrow> part_upload \<Rightarrow> bool" where
  "upload_ok res ps u =
     (set (u_wait u) \<subseteq> set ps \<and> set (u_run u) \<subseteq> set ps \<and> answers res ps (u_done u)
      \<and> open_nums u \<subseteq># mset (map pt_num ps))"

lemma mset_remove_num:
  "p \<in> set xs \<Longrightarrow> mset (map pt_num xs) = add_mset (pt_num p) (mset (map pt_num (remove1 p xs)))"
  by (metis add_mset_remove_trivial_eq image_mset_add_mset insert_DiffM mset_map mset_remove1 set_mset_mset)

lemma start_ok: "upload_ok res ps (start_upload ps)"
  by (simp add: upload_ok_def start_upload_def answers_def open_nums_def)

lemma ok_slot:
  assumes "upload_ok res ps u" "p \<in> set (u_wait u)"
  shows "upload_ok res ps (u\<lparr>u_wait := remove1 p (u_wait u), u_run := p # u_run u\<rparr>)"
    "open_nums (u\<lparr>u_wait := remove1 p (u_wait u), u_run := p # u_run u\<rparr>) = open_nums u"
proof -
  show o: "open_nums (u\<lparr>u_wait := remove1 p (u_wait u), u_run := p # u_run u\<rparr>) = open_nums u"
    unfolding open_nums_def mset_remove_num [OF assms(2)] by simp
  show "upload_ok res ps (u\<lparr>u_wait := remove1 p (u_wait u), u_run := p # u_run u\<rparr>)"
    using assms set_remove1_subset [of p "u_wait u"] unfolding upload_ok_def o by auto
qed

lemma ok_done:
  assumes "upload_ok res ps u" "p \<in> set (u_run u)" "res p = Inr e"
  shows "upload_ok res ps (u\<lparr>u_run := remove1 p (u_run u), u_done := u_done u @ [(pt_num p, e)]\<rparr>)"
    "open_nums (u\<lparr>u_run := remove1 p (u_run u), u_done := u_done u @ [(pt_num p, e)]\<rparr>) = open_nums u"
proof -
  show o: "open_nums (u\<lparr>u_run := remove1 p (u_run u), u_done := u_done u @ [(pt_num p, e)]\<rparr>) = open_nums u"
    unfolding open_nums_def mset_remove_num [OF assms(2)] by simp
  show "upload_ok res ps (u\<lparr>u_run := remove1 p (u_run u), u_done := u_done u @ [(pt_num p, e)]\<rparr>)"
    using assms set_remove1_subset [of p "u_run u"] unfolding upload_ok_def o by (auto simp: answers_def)
qed

lemma ok_drop:
  assumes "upload_ok res ps u"
  shows "upload_ok res ps (u\<lparr>u_run := remove1 p (u_run u), u_err := e, u_cancelled := c\<rparr>)"
    "upload_ok res ps (u\<lparr>u_wait := remove1 p (u_wait u), u_err := e, u_cancelled := c\<rparr>)"
proof -
  have "mset (map pt_num (remove1 p xs)) \<subseteq># mset (map pt_num xs)" for xs
    by (simp add: image_mset_subseteq_mono)
  then have "open_nums (u\<lparr>u_run := remove1 p (u_run u), u_err := e, u_cancelled := c\<rparr>) \<subseteq># open_nums u"
    "open_nums (u\<lparr>u_wait := remove1 p (u_wait u), u_err := e, u_cancelled := c\<rparr>) \<subseteq># open_nums u"
    by (auto simp: open_nums_def intro!: subset_mset.add_mono)
  then show "upload_ok res ps (u\<lparr>u_run := remove1 p (u_run u), u_err := e, u_cancelled := c\<rparr>)"
    "upload_ok res ps (u\<lparr>u_wait := remove1 p (u_wait u), u_err := e, u_cancelled := c\<rparr>)"
    using assms set_remove1_subset [of p "u_run u"] set_remove1_subset [of p "u_wait u"]
    by (auto simp: upload_ok_def intro: subset_mset.order_trans)
qed

lemma ok_cancel [simp]: "upload_ok res ps (u\<lparr>u_cancelled := c\<rparr>) = upload_ok res ps u"
  by (simp add: upload_ok_def open_nums_def)

lemma ok_cancel_err [simp]:
  "upload_ok res ps (u\<lparr>u_wait := w, u_err := e, u_cancelled := c\<rparr>) = upload_ok res ps (u\<lparr>u_wait := w, u_err := e\<rparr>)"
  by (simp add: upload_ok_def open_nums_def)

lemma dl_step_ok: "dl_upload recoverable res u u' \<Longrightarrow> upload_ok res ps u \<Longrightarrow> upload_ok res ps u'"
proof (induction rule: dl_upload.induct)
  case (DlSkip p u e)
  then show ?case using ok_drop(2) [of res ps u "u_cancelled u" None p] by simp
next
  case (DlMissing p u e)
  then show ?case using ok_drop(1) [of res ps u "u_cancelled u" "u_err u" p] by simp
next
  case (DlFail p u e)
  then show ?case using ok_drop(1) [of res ps u "u_cancelled u" "offer e (u_err u)" p] by simp
qed (simp_all add: ok_slot(1) ok_done(1))

text \<open>The transfer worker never empties the channel, so without an error every part is accounted for.\<close>

definition tx_ok :: "(part \<Rightarrow> string + string) \<Rightarrow> part list \<Rightarrow> part_upload \<Rightarrow> bool" where
  "tx_ok res ps u = (upload_ok res ps u \<and> (u_err u = None \<longrightarrow> open_nums u = mset (map pt_num ps)))"

lemma offer_not_None [simp]: "offer e c \<noteq> None"
  by (simp add: offer_def split: option.split)

lemma tx_step_ok: "tx_upload res u u' \<Longrightarrow> tx_ok res ps u \<Longrightarrow> tx_ok res ps u'"
proof (induction rule: tx_upload.induct)
  case (TxSlot p u)
  then show ?case using ok_slot [of res ps u p] by (simp add: tx_ok_def)
next
  case (TxGiveUp p u)
  then show ?case using ok_drop(2) [of res ps u "u_cancelled u" _ p] by (simp add: tx_ok_def)
next
  case (TxDone p u e)
  then show ?case using ok_done [of res ps u p e] by (simp add: tx_ok_def)
next
  case (TxFail p u e)
  then show ?case using ok_drop(1) [of res ps u _ _ p] by (simp add: tx_ok_def)
next
  case (TxDeadline u)
  then show ?case by (simp add: tx_ok_def upload_ok_def open_nums_def)
qed

lemma start_tx_ok: "tx_ok res ps (start_upload ps)"
  using start_ok by (simp add: tx_ok_def) (simp add: start_upload_def open_nums_def)

lemma tx_reach_ok: "(tx_upload res)\<^sup>*\<^sup>* (start_upload ps) u \<Longrightarrow> tx_ok res ps u"
  by (induction rule: rtranclp_induct) (auto intro: start_tx_ok tx_step_ok)

lemma dl_reach_ok: "(dl_upload recoverable res)\<^sup>*\<^sup>* (start_upload ps) u \<Longrightarrow> upload_ok res ps u"
  by (induction rule: rtranclp_induct) (auto intro: start_ok dl_step_ok)

subsection \<open>What an upload ends with\<close>

lemma tx_finished:
  assumes cov: "covers sz ps" and run: "(tx_upload res)\<^sup>*\<^sup>* (start_upload ps) u" and f: "finished u"
  shows "tx_finish complete u =
      (if u_err u = None then ([CompleteUpload (etags res ps)], complete) else ([AbortUpload], u_err u))
    \<and> (u_err u = None \<longrightarrow> all_sent res ps)"
proof (cases "u_err u")
  case None
  with tx_reach_ok [OF run] f have ans: "answers res ps (u_done u)"
    and ms: "mset (map fst (u_done u)) = mset (map pt_num ps)"
    by (auto simp: tx_ok_def upload_ok_def finished_def open_nums_def)
  have "answers res ps (sort_key fst (u_done u))" using ans by (simp add: answers_def)
  moreover have "mset (map fst (sort_key fst (u_done u))) = mset (map pt_num ps)" using ms by simp
  moreover have "sorted (map fst (sort_key fst (u_done u)))" by simp
  ultimately have "sort_key fst (u_done u) = etags res ps" "all_sent res ps"
    using answers_complete [OF cov] by blast+
  then show ?thesis using None by (simp add: tx_finish_def)
qed (simp add: tx_finish_def)

lemma parts_size_covers:
  assumes "0 < chunk" "0 < sz" "map fst cs = map pt_num (dl_plan chunk sz)"
  shows "parts_size chunk sz cs = sz"
proof -
  have "map (\<lambda>c. pt_len (range_part chunk sz (fst c - 1))) cs
      = map (\<lambda>n. pt_len (range_part chunk sz (n - 1))) (map fst cs)" by simp
  also have "\<dots> = map pt_len (dl_plan chunk sz)"
    unfolding assms(3) by (auto simp: dl_plan_def plan_def dl_part_def range_part_def Let_def)
  finally have "parts_size chunk sz cs = sum_list (map pt_len (dl_plan chunk sz))" by (simp add: parts_size_def)
  moreover have "tiles a b ps \<Longrightarrow> sum_list (map pt_len ps) = b - a" for a b ps
    by (induction a b ps rule: tiles.induct) auto
  moreover have "tiles 0 sz (dl_plan chunk sz)" using dl_covers [OF assms(1,2)] by (simp add: covers_def)
  ultimately show ?thesis by fastforce
qed

lemma dl_nums:
  assumes "0 < chunk" "0 < sz"
  shows "int (length (dl_plan chunk sz)) = dl_numParts chunk sz" "map pt_num (dl_plan chunk sz) = [1..dl_numParts chunk sz]"
proof -
  show l: "int (length (dl_plan chunk sz)) = dl_numParts chunk sz"
    using dl.num_parts_pos [of chunk sz] assms by (simp add: dl_plan_def dl.length_plan)
  have "map int [1..<n + 1] = [1..int n]" for n :: nat
    by (induction n) (simp_all add: upto_rec2)
  then show "map pt_num (dl_plan chunk sz) = [1..dl_numParts chunk sz]"
    using dl_covers [OF assms] l by (simp add: covers_def del: upt_Suc)
qed

lemma dl_complete_ordered:
  assumes "0 < chunk" "0 < sz" "mset (map fst cs) = mset (map pt_num (dl_plan chunk sz))"
  shows "dl_complete chunk sz complete cs =
     (case complete of
        None \<Rightarrow> ([CompleteUpload (exchange_sort cs)], None)
      | Some e \<Rightarrow> ([CompleteUpload (exchange_sort cs), AbortUpload],
                   Some (''failed to complete multipart upload: '' @ e)))"
    "map fst (exchange_sort cs) = map pt_num (dl_plan chunk sz)"
proof -
  note cov = dl_covers [OF assms(1,2)]
  have "mset (map fst (exchange_sort cs)) = mset (map pt_num (dl_plan chunk sz))"
    using assms(3) mset_exchange_sort [of cs] by simp
  then show f: "map fst (exchange_sort cs) = map pt_num (dl_plan chunk sz)"
    using properties_for_sort covers_sorted [OF cov] sorted_exchange_sort by metis
  then have "length (exchange_sort cs) = length (dl_plan chunk sz)" by (metis length_map)
  then have "parts_in_order (exchange_sort cs)" using f cov by (simp add: parts_in_order_def covers_def)
  then show "dl_complete chunk sz complete cs =
     (case complete of
        None \<Rightarrow> ([CompleteUpload (exchange_sort cs)], None)
      | Some e \<Rightarrow> ([CompleteUpload (exchange_sort cs), AbortUpload],
                   Some (''failed to complete multipart upload: '' @ e)))"
    using parts_size_covers [OF assms(1,2) f] by (simp add: dl_complete_def Let_def)
qed

lemma collected:
  "waitAndCollectCompletedParts n ls = Some r \<Longrightarrow>
     \<exists>m. Some m \<in> set ls \<and> map fst r = [1..n] \<and> (\<forall>c\<in>set r. map_of m (fst c) = Some (snd c))"
proof (induction n ls rule: waitAndCollectCompletedParts.induct)
  case (2 n l ls)
  show ?case
  proof (cases "l \<noteq> None \<and> collect_parts n (the l) = Some r")
    case True
    then obtain m where m: "l = Some m" "collect_parts n m = Some r" by auto
    then have "map fst r = [1..n]" "\<forall>c\<in>set r. map_of m (fst c) = Some (snd c)"
      by (auto simp: collect_parts_def o_def split: if_splits)
    with m show ?thesis by auto
  next
    case False
    then have "waitAndCollectCompletedParts n ls = Some r
      \<and> (l = None \<or> (\<exists>m. l = Some m \<and> collect_parts n m = None))"
      using "2.prems" by (auto split: option.splits)
    with "2.IH" show ?thesis by fastforce
  qed
qed simp

text \<open>The parts an upload of the downloader may be completed with: the answers to all its parts, or what
a listing of the upload shows for all of them.\<close>

definition complete_list :: "(part \<Rightarrow> string + string) \<Rightarrow> part list \<Rightarrow> (int \<times> string) list option list
    \<Rightarrow> (int \<times> string) list \<Rightarrow> bool" where
  "complete_list res ps ls cs =
     (map fst cs = map pt_num ps
      \<and> ((cs = etags res ps \<and> all_sent res ps)
         \<or> (\<exists>m. Some m \<in> set ls \<and> (\<forall>c\<in>set cs. map_of m (fst c) = Some (snd c)))))"

definition complete_calls :: "string option \<Rightarrow> (int \<times> string) list \<Rightarrow> s3_call list \<times> string option" where
  "complete_calls complete cs =
     (case complete of
        None \<Rightarrow> ([CompleteUpload cs], None)
      | Some e \<Rightarrow> ([CompleteUpload cs, AbortUpload], Some (''failed to complete multipart upload: '' @ e)))"

lemma dl_own_answers:
  assumes c: "0 < chunk" "0 < sz" and run: "(dl_upload recoverable res)\<^sup>*\<^sup>* (start_upload (dl_plan chunk sz)) u"
    and f: "finished u" and n: "int (length (u_done u)) = dl_numParts chunk sz"
  shows "\<exists>cs. complete_list res (dl_plan chunk sz) ls cs
    \<and> dl_complete chunk sz complete (u_done u) = complete_calls complete cs"
proof -
  let ?ps = "dl_plan chunk sz"
  have ans: "answers res ?ps (u_done u)" and sub: "mset (map fst (u_done u)) \<subseteq># mset (map pt_num ?ps)"
    using dl_reach_ok [OF run] f by (auto simp: upload_ok_def finished_def open_nums_def)
  have "size (mset (map fst (u_done u))) = size (mset (map pt_num ?ps))" using n dl_nums(1) [OF c] by simp
  then have ms: "mset (map fst (u_done u)) = mset (map pt_num ?ps)"
    using sub mset_subset_size by (metis nat_neq_iff subset_mset.le_imp_less_or_eq)
  have "answers res ?ps (exchange_sort (u_done u))"
    using ans mset_eq_setD [OF mset_exchange_sort [of "u_done u"]] by (simp add: answers_def)
  moreover have "mset (map fst (exchange_sort (u_done u))) = mset (map pt_num ?ps)"
    using ms mset_exchange_sort [of "u_done u"] by simp
  ultimately have "exchange_sort (u_done u) = etags res ?ps" "all_sent res ?ps"
    using answers_complete [OF dl_covers [OF c]] sorted_exchange_sort by blast+
  then have "complete_list res ?ps ls (exchange_sort (u_done u))"
    using dl_complete_ordered(2) [OF c ms] by (simp add: complete_list_def)
  then show ?thesis using dl_complete_ordered(1) [OF c ms, of complete] by (auto simp: complete_calls_def)
qed

lemma dl_listed:
  assumes c: "0 < chunk" "0 < sz" and r: "waitAndCollectCompletedParts (dl_numParts chunk sz) ls = Some r"
  shows "\<exists>cs. complete_list res (dl_plan chunk sz) ls cs
    \<and> dl_complete chunk sz complete r = complete_calls complete cs"
proof -
  obtain m where m: "Some m \<in> set ls" "map fst r = [1..dl_numParts chunk sz]"
    "\<forall>c\<in>set r. map_of m (fst c) = Some (snd c)" using collected [OF r] by blast
  then have ms: "mset (map fst r) = mset (map pt_num (dl_plan chunk sz))" using dl_nums(2) [OF c] by simp
  have "\<forall>c\<in>set (exchange_sort r). map_of m (fst c) = Some (snd c)"
    using m(3) mset_eq_setD [OF mset_exchange_sort [of r]] by simp
  then have "complete_list res (dl_plan chunk sz) ls (exchange_sort r)"
    using dl_complete_ordered(2) [OF c ms] m(1) by (auto simp: complete_list_def)
  then show ?thesis using dl_complete_ordered(1) [OF c ms, of complete] by (auto simp: complete_calls_def)
qed

lemma dl_finished:
  assumes c: "0 < chunk" "0 < sz" and run: "(dl_upload recoverable res)\<^sup>*\<^sup>* (start_upload (dl_plan chunk sz)) u"
    and f: "finished u"
  shows "(\<exists>e. dl_finish chunk sz ls complete u = ([AbortUpload], Some e))
    \<or> (\<exists>cs. complete_list res (dl_plan chunk sz) ls cs
        \<and> dl_finish chunk sz ls complete u = complete_calls complete cs)"
proof (cases "u_err u")
  case None
  show ?thesis
  proof (cases "int (length (u_done u)) = dl_numParts chunk sz")
    case True
    then show ?thesis using dl_own_answers [OF c run f True] None by (simp add: dl_finish_def Let_def)
  next
    case False
    show ?thesis
    proof (cases "waitAndCollectCompletedParts (dl_numParts chunk sz) ls")
      case None
      then show ?thesis using False \<open>u_err u = None\<close> by (simp add: dl_finish_def Let_def)
    next
      case (Some r)
      then have "int (length r) = dl_numParts chunk sz"
        using collected [OF Some] dl_nums [OF c] by (metis length_map)
      then have "dl_finish chunk sz ls complete u = dl_complete chunk sz complete r"
        using False Some \<open>u_err u = None\<close> by (simp add: dl_finish_def Let_def)
      then show ?thesis using dl_listed [OF c Some] by simp
    qed
  qed
qed (simp add: dl_finish_def)

lemma r2_finished:
  assumes "mset order = mset (r2_plan sz)"
  shows "r2_multipart res order complete sz =
      (if all_sent res (r2_plan sz) then ([CompleteUpload (etags res (r2_plan sz))], complete)
       else ([AbortUpload], Some (hd (part_errors res order))))"
proof -
  have "set order = set (r2_plan sz)" using assms by (metis mset_eq_setD)
  then have "all_sent res (r2_plan sz) \<longleftrightarrow> (\<forall>p\<in>set order. \<exists>t. res p = Inr t)" by (simp add: all_sent_def)
  also have "\<dots> \<longleftrightarrow> part_errors res order = []"
    by (induction order) (auto split: sum.splits)
  finally show ?thesis by (cases "part_errors res order") (auto simp: r2_multipart_def etags_def)
qed

text \<open>C29: Whatever the interleaving of its parts, an upload is completed only with every part of the
object, in order and each with the answer to its own transfer (the downloader may take them from a listing
of the upload instead), and otherwise it is aborted and reported as an error.\<close>

theorem uploads_complete_with_every_part_or_abort:
  assumes "0 < sz" "0 < mps" "0 < chunk"
  shows "(\<forall>u. (tx_upload res)\<^sup>*\<^sup>* (start_upload (tx_plan mps sz)) u \<and> finished u \<longrightarrow>
        tx_finish complete u =
          (if u_err u = None then ([CompleteUpload (etags res (tx_plan mps sz))], complete)
           else ([AbortUpload], u_err u))
        \<and> (u_err u = None \<longrightarrow> all_sent res (tx_plan mps sz)))
    \<and> (\<forall>u. (dl_upload recoverable res)\<^sup>*\<^sup>* (start_upload (dl_plan chunk sz)) u \<and> finished u \<longrightarrow>
        (\<exists>e. dl_finish chunk sz ls complete u = ([AbortUpload], Some e))
        \<or> (\<exists>cs. complete_list res (dl_plan chunk sz) ls cs
             \<and> dl_finish chunk sz ls complete u = complete_calls complete cs))
    \<and> (\<forall>order. mset order = mset (r2_plan sz) \<longrightarrow>
        r2_multipart res order complete sz =
          (if all_sent res (r2_plan sz) then ([CompleteUpload (etags res (r2_plan sz))], complete)
           else ([AbortUpload], Some (hd (part_errors res order)))))"
  using tx_finished [OF tx_covers [OF assms(2,1)]] dl_finished [OF assms(3,1)] r2_finished by blast

definition two_parts :: "part list" where
  "two_parts = [\<lparr>pt_num = 1, pt_start = 0, pt_len = 5\<rparr>, \<lparr>pt_num = 2, pt_start = 5, pt_len = 4\<rparr>]"

lemma two_parts_plans: "tx_plan 5 9 = two_parts" "dl_plan 5 9 = two_parts"
  by code_simp+

text \<open>The second part finds the error of the first in the channel and takes it out: the upload fails
with the general message that marks it as worth another attempt.\<close>

definition first_fails :: "part \<Rightarrow> string + string" where
  "first_fails p = (if pt_num p = 1 then Inl ''HTTP status 404'' else Inr ''t'')"

lemma dl_run_loses_error:
  "(dl_upload (\<lambda>m. False) first_fails)\<^sup>*\<^sup>* (start_upload two_parts)
     \<lparr>u_wait = [], u_run = [], u_done = [], u_err = None, u_cancelled = False\<rparr>"
proof -
  let ?p = "\<lparr>pt_num = 1, pt_start = 0, pt_len = 5\<rparr>" and ?q = "\<lparr>pt_num = 2, pt_start = 5, pt_len = 4\<rparr>"
  let ?D = "dl_upload (\<lambda>m. False) first_fails"
  have "?D (start_upload two_parts) \<lparr>u_wait = [?q], u_run = [?p], u_done = [], u_err = None, u_cancelled = False\<rparr>"
    using dl_upload.DlStart [of ?p "start_upload two_parts"] by (simp add: start_upload_def two_parts_def)
  moreover have "?D \<lparr>u_wait = [?q], u_run = [?p], u_done = [], u_err = None, u_cancelled = False\<rparr>
      \<lparr>u_wait = [?q], u_run = [], u_done = [], u_err = Some ''HTTP status 404'', u_cancelled = False\<rparr>"
    using dl_upload.DlFail [of ?p "\<lparr>u_wait = [?q], u_run = [?p], u_done = [], u_err = None, u_cancelled = False\<rparr>"
        first_fails "''HTTP status 404''"] by (simp add: first_fails_def offer_def)
  moreover have "?D \<lparr>u_wait = [?q], u_run = [], u_done = [], u_err = Some ''HTTP status 404'', u_cancelled = False\<rparr>
      \<lparr>u_wait = [], u_run = [], u_done = [], u_err = None, u_cancelled = False\<rparr>"
    using dl_upload.DlSkip [of ?q "\<lparr>u_wait = [?q], u_run = [], u_done = [], u_err = Some ''HTTP status 404'',
        u_cancelled = False\<rparr>"] by simp
  ultimately show ?thesis by (meson rtranclp.rtrancl_refl rtranclp.rtrancl_into_rtrancl)
qed

lemma dl_error_lost:
  "\<exists>u. (dl_upload (\<lambda>m. False) first_fails)\<^sup>*\<^sup>* (start_upload (dl_plan 5 9)) u \<and> finished u
     \<and> dl_finish 5 9 [] None u = ([AbortUpload], Some ''incomplete upload'')"
  using dl_run_loses_error unfolding two_parts_plans(2) [symmetric]
  by (intro exI conjI) (assumption, simp_all add: finished_def dl_finish_def dl_numParts_def)

theorem uploads_complete_with_every_part_or_abort_witness:
  "\<exists>u e. (dl_upload (\<lambda>m. False) first_fails)\<^sup>*\<^sup>* (start_upload (dl_plan 5 9)) u \<and> finished u
     \<and> dl_finish 5 9 [] None u = ([AbortUpload], Some e)
     \<and> r2_multipart (\<lambda>p. Inr (itoa (pt_num p))) (r2_plan 40000000) None 40000000
       = ([CompleteUpload [(1, ''1''), (2, ''2''), (3, ''3'')]], None)"
proof -
  let ?u = "\<lparr>u_wait = [], u_run = [], u_done = [], u_err = None, u_cancelled = False\<rparr>"
  have run: "(dl_upload (\<lambda>m. False) first_fails)\<^sup>*\<^sup>* (start_upload (dl_plan 5 9)) ?u"
    using dl_run_loses_error by (simp add: two_parts_plans)
  have none: "\<not> complete_list first_fails (dl_plan 5 9) [] cs" for cs
    by (simp add: complete_list_def all_sent_def two_parts_plans two_parts_def first_fails_def)
  have pos: "0 < (9::int)" "0 < (5::int)" by simp_all
  note main = uploads_complete_with_every_part_or_abort [OF pos(1) pos(2) pos(2)]
  have "\<exists>e. dl_finish 5 9 [] None ?u = ([AbortUpload], Some e)"
    using main [of first_fails None "\<lambda>m. False" "[]"] run none by (auto simp: finished_def)
  moreover have "r2_multipart (\<lambda>p. Inr (itoa (pt_num p))) (r2_plan 40000000) None 40000000
      = ([CompleteUpload (etags (\<lambda>p. Inr (itoa (pt_num p))) (r2_plan 40000000))], None)"
    using uploads_complete_with_every_part_or_abort [of 40000000 1 1 "\<lambda>p. Inr (itoa (pt_num p))"]
    by (simp add: all_sent_def)
  moreover have "etags (\<lambda>p. Inr (itoa (pt_num p))) (r2_plan 40000000) = [(1, ''1''), (2, ''2''), (3, ''3'')]"
    by code_simp
  ultimately show ?thesis using run by (auto simp: finished_def)
qed

end
