(* ===== verification/Endpoints.thy ===== *)
theory Endpoints
  imports GoStrings
begin

text \<open>
  \<^verbatim>\<open>url.Parse\<close> and the functions that turn a storage endpoint into a bucket, a host and an object URL: \<^verbatim>\<open>getBucketFromEndpoint\<close>
  (\<^verbatim>\<open>worker_transfer/common.go\<close> and two copies in \<^verbatim>\<open>worker_ffmpeg\<close>),
  \<^verbatim>\<open>constructVirtualHostURL\<close> and the endpoint part of \<^verbatim>\<open>createS3Client\<close>
  (\<^verbatim>\<open>worker_transfer/transfer.go\<close>, \<^verbatim>\<open>worker_ffmpeg\<close>), and \<^verbatim>\<open>parseLocation\<close> of
  \<^verbatim>\<open>r2-worker/r2s3.go\<close>.
\<close>

section \<open>URLs\<close>

text \<open>
  \<^verbatim>\<open>url.Parse\<close> on strings of ASCII characters without percent signs: fragment and query are cut
  off, a scheme is a letter and further letters, digits, plus, minus or dot before a colon, an
  authority follows two slashes, with the user before its last at sign. A rest that does not begin with a slash
  after a scheme is opaque: host and path stay empty. Characters that the library rejects in a host are
  not looked at.
\<close>

record url =
  ur_Scheme :: string
  ur_User :: "(string \<times> string option) option"
  ur_Host :: string
  ur_Path :: string
  ur_Query :: string

definition is_alpha :: "char \<Rightarrow> bool" where
  "is_alpha c = (let n = (of_char c :: nat) in (65 \<le> n \<and> n \<le> 90) \<or> (97 \<le> n \<and> n \<le> 122))"

definition scheme_char :: "char \<Rightarrow> bool" where
  "scheme_char c = (is_alpha c \<or> is_digit c \<or> c \<in> set ''+-.'')"

definition before :: "char \<Rightarrow> string \<Rightarrow> string" where
  "before c s = takeWhile (\<lambda>d. d \<noteq> c) s"

definition behind :: "char \<Rightarrow> string \<Rightarrow> string" where
  "behind c s = drop 1 (dropWhile (\<lambda>d. d \<noteq> c) s)"

text \<open>\<^verbatim>\<open>None\<close> for an empty scheme before a colon.\<close>

definition parse_scheme :: "string \<Rightarrow> (string \<times> string) option" where
  "parse_scheme s =
     (let a = takeWhile scheme_char s; r = dropWhile scheme_char s
      in if s = [] then Some ([], [])
         else if hd s = CHR '':'' then None
         else if is_alpha (hd s) \<and> r \<noteq> [] \<and> hd r = CHR '':'' then Some (map to_lower a, tl r)
         else Some ([], s))"

definition parse_userinfo :: "string \<Rightarrow> (string \<times> string option) \<times> string" where
  "parse_userinfo a =
     (let u = rev (behind CHR ''@'' (rev a)); h = rev (before CHR ''@'' (rev a))
      in ((before CHR '':'' u, if CHR '':'' \<in> set u then Some (behind CHR '':'' u) else None), h))"

definition parse_url :: "string \<Rightarrow> url option" where
  "parse_url s =
     (let s1 = before CHR ''#'' s in
      case parse_scheme s1 of
        None \<Rightarrow> None
      | Some (sch, r0) \<Rightarrow>
          (let r = before CHR ''?'' r0; q = behind CHR ''?'' r0 in
           if has_prefix ''//'' r then
             (let t = drop 2 r; a = before CHR ''/'' t; p = dropWhile (\<lambda>c. c \<noteq> CHR ''/'') t in
              if CHR ''@'' \<in> set a
              then Some \<lparr>ur_Scheme = sch, ur_User = Some (fst (parse_userinfo a)), ur_Host = snd (parse_userinfo a),
                         ur_Path = p, ur_Query = q\<rparr>
              else Some \<lparr>ur_Scheme = sch, ur_User = None, ur_Host = a, ur_Path = p, ur_Query = q\<rparr>)
           else if sch \<noteq> [] \<and> \<not> has_prefix ''/'' r
           then Some \<lparr>ur_Scheme = sch, ur_User = None, ur_Host = [], ur_Path = [], ur_Query = q\<rparr>
           else if sch = [] \<and> CHR '':'' \<in> set (before CHR ''/'' r) then None
           else Some \<lparr>ur_Scheme = sch, ur_User = None, ur_Host = [], ur_Path = r, ur_Query = q\<rparr>))"

section \<open>Endpoints\<close>

definition s3_scheme :: string where "s3_scheme = ''s3://''"

definition getBucketFromEndpoint :: "string \<Rightarrow> string" where
  "getBucketFromEndpoint endpoint =
     (if has_prefix s3_scheme endpoint then split_head ''.'' (trim_prefix s3_scheme endpoint)
      else (case parse_url endpoint of None \<Rightarrow> [] | Some u \<Rightarrow> trim_slashes (ur_Path u)))"

definition normalize_endpoint :: "string \<Rightarrow> string" where
  "normalize_endpoint endpoint =
     (let n = (if has_prefix s3_scheme endpoint then ''http://'' @ trim_prefix s3_scheme endpoint else endpoint)
      in if has_substring ''://'' n then n else ''http://'' @ n)"

text \<open>The host behind the first dot for the \<^verbatim>\<open>s3\<close> form, whose first label is the bucket.\<close>

definition endpoint_host :: "string \<Rightarrow> url \<Rightarrow> string" where
  "endpoint_host endpoint u =
     (if has_prefix s3_scheme endpoint
      then (case cut ''.'' (ur_Host u) of Some (_, h) \<Rightarrow> h | None \<Rightarrow> ur_Host u) else ur_Host u)"

definition constructVirtualHostURL :: "string \<Rightarrow> string \<Rightarrow> string \<Rightarrow> string option" where
  "constructVirtualHostURL endpoint bucket key =
     map_option (\<lambda>u. ur_Scheme u @ ''://'' @ bucket @ ''.'' @ endpoint_host endpoint u @ ''/'' @ key)
       (parse_url (normalize_endpoint endpoint))"

text \<open>The base endpoint of the client that \<^verbatim>\<open>createS3Client\<close> builds.\<close>

definition base_endpoint :: "string \<Rightarrow> string option" where
  "base_endpoint endpoint =
     map_option (\<lambda>u. ur_Scheme u @ ''://'' @ endpoint_host endpoint u) (parse_url (normalize_endpoint endpoint))"

text \<open>\<^verbatim>\<open>initSourceS3\<close> of the scanner keeps the whole host.\<close>

definition source_endpoint :: "string \<Rightarrow> string option" where
  "source_endpoint endpoint = map_option (\<lambda>u. ur_Scheme u @ ''://'' @ ur_Host u) (parse_url (normalize_endpoint endpoint))"

definition secret_key :: "string \<Rightarrow> string" where
  "secret_key sk = (if has_prefix ''enc_'' sk then trim_prefix ''enc_'' sk else sk)"

subsection \<open>Locations of the copy tool\<close>

record S3Config =
  s3_Endpoint :: string
  s3_Region :: string
  s3_Bucket :: string
  s3_Prefix :: string
  s3_AccessKeyID :: string
  s3_SecretAccessKey :: string

definition location_of :: "url \<Rightarrow> S3Config" where
  "location_of u =
     (let user = (case ur_User u of Some (n, _) \<Rightarrow> n | None \<Rightarrow> []);
          pass = (case ur_User u of Some (_, Some p) \<Rightarrow> p | _ \<Rightarrow> [])
      in if ur_Scheme u = ''s3''
         then (case cut ''.'' (ur_Host u) of
                 Some (b, h) \<Rightarrow> \<lparr>s3_Endpoint = ''https://'' @ h, s3_Region = ''auto'', s3_Bucket = b,
                   s3_Prefix = trim_prefix ''/'' (ur_Path u), s3_AccessKeyID = user, s3_SecretAccessKey = pass\<rparr>
               | None \<Rightarrow> \<lparr>s3_Endpoint = [], s3_Region = ''auto'', s3_Bucket = ur_Host u,
                   s3_Prefix = trim_prefix ''/'' (ur_Path u), s3_AccessKeyID = user, s3_SecretAccessKey = pass\<rparr>)
         else (let path = trim_prefix ''/'' (ur_Path u)
               in \<lparr>s3_Endpoint = ur_Scheme u @ ''://'' @ ur_Host u, s3_Region = ''auto'',
                   s3_Bucket = (case cut ''/'' path of Some (b, _) \<Rightarrow> b | None \<Rightarrow> path),
                   s3_Prefix = (case cut ''/'' path of Some (_, r) \<Rightarrow> r | None \<Rightarrow> []),
                   s3_AccessKeyID = user, s3_SecretAccessKey = pass\<rparr>))"

definition parseLocation :: "string \<Rightarrow> string + S3Config" where
  "parseLocation uri =
     (case parse_url uri of
        None \<Rightarrow> Inl ''parse''
      | Some u \<Rightarrow>
          if ur_Scheme u \<in> {''s3'', ''http'', ''https''} then Inr (location_of u)
          else Inl (''unsupported scheme: '' @ ur_Scheme u))"

section \<open>Facts\<close>

definition host_char :: "char \<Rightarrow> bool" where
  "host_char c = (is_alpha c \<or> is_digit c \<or> c = CHR ''-'' \<or> c = CHR ''.'')"

lemma host_char_plain:
  "list_all host_char a \<Longrightarrow> c \<in> {CHR ''#'', CHR ''?'', CHR ''/'', CHR ''@'', CHR '':''} \<Longrightarrow> c \<notin> set a"
  by (auto simp: list_all_iff host_char_def is_alpha_def is_digit_def Let_def)

lemma host_chars:
  assumes "list_all host_char a"
  shows "CHR ''#'' \<notin> set a" "CHR ''?'' \<notin> set a" "CHR ''/'' \<notin> set a" "CHR ''@'' \<notin> set a"
  by (rule host_char_plain [OF assms], simp)+

lemma before_none:
  assumes "c \<notin> set a"
  shows "before c a = a" "behind c a = []"
proof -
  have n: "dropWhile (\<lambda>d. d \<noteq> c) a = []" using assms by (auto simp: dropWhile_eq_Nil_conv)
  show "before c a = a" using assms by (auto simp: before_def takeWhile_eq_all_conv)
  show "behind c a = []" unfolding behind_def n by simp
qed

lemma before_first: "c \<notin> set a \<Longrightarrow> before c (a @ c # b) = a"
  by (induction a) (auto simp: before_def)

lemma has_substring_append: "has_substring sub (a @ sub @ b)"
  unfolding has_substring_def by (rule bexI [of _ "length a"]) auto

lemma host_path:
  assumes "list_all host_char h"
  shows "before CHR ''/'' (h @ CHR ''/'' # p) = h" "dropWhile (\<lambda>c. c \<noteq> CHR ''/'') (h @ CHR ''/'' # p) = CHR ''/'' # p"
    "before CHR ''/'' h = h" "dropWhile (\<lambda>c. c \<noteq> CHR ''/'') h = []"
proof -
  have "CHR ''/'' \<notin> set h" using host_char_plain [OF assms] by simp
  then show "before CHR ''/'' (h @ CHR ''/'' # p) = h" "before CHR ''/'' h = h"
    "dropWhile (\<lambda>c. c \<noteq> CHR ''/'') h = []"
    by (auto simp: before_first before_none dropWhile_eq_Nil_conv)
  show "dropWhile (\<lambda>c. c \<noteq> CHR ''/'') (h @ CHR ''/'' # p) = CHR ''/'' # p"
    using \<open>CHR ''/'' \<notin> set h\<close> by (induction h) auto
qed

lemma scheme_http: "parse_scheme (''http://'' @ s) = Some (''http'', ''//'' @ s)"
  and scheme_https: "parse_scheme (''https://'' @ s) = Some (''https'', ''//'' @ s)"
  by (simp_all add: parse_scheme_def Let_def scheme_char_def is_alpha_def is_digit_def to_lower_def)

lemma parse_authority:
  assumes "parse_scheme s = Some (sch, ''//'' @ a @ p)" "CHR ''#'' \<notin> set s" "CHR ''?'' \<notin> set (a @ p)"
    and "list_all host_char a" "p = [] \<or> hd p = CHR ''/''"
  shows "parse_url s = Some \<lparr>ur_Scheme = sch, ur_User = None, ur_Host = a, ur_Path = p, ur_Query = []\<rparr>"
proof -
  have q: "before CHR ''?'' (''//'' @ a @ p) = ''//'' @ a @ p" "behind CHR ''?'' (''//'' @ a @ p) = []"
    by (rule before_none, use assms(3) in simp)+
  have h: "before CHR ''/'' (a @ p) = a" "dropWhile (\<lambda>c. c \<noteq> CHR ''/'') (a @ p) = p"
    using assms(5) host_path [OF assms(4)] by (cases p; auto)+
  have "has_prefix ''//'' (''//'' @ a @ p)" "drop 2 (''//'' @ a @ p) = a @ p" by (rule has_prefix_append) simp
  then show ?thesis
    unfolding parse_url_def Let_def before_none(1) [OF assms(2)] assms(1) option.case prod.case q h
    using host_chars(4) [OF assms(4)] h by (simp only: if_True if_False)
qed

lemma parse_http_host:
  assumes "list_all host_char h"
  shows "parse_url (''http://'' @ h) =
    Some \<lparr>ur_Scheme = ''http'', ur_User = None, ur_Host = h, ur_Path = [], ur_Query = []\<rparr>"
  by (rule parse_authority) (use assms host_chars [OF assms] scheme_http [of h] in simp_all)

lemma parse_https_path:
  assumes "list_all host_char h" "list_all host_char b"
  shows "parse_url (''https://'' @ h @ ''/'' @ b) =
    Some \<lparr>ur_Scheme = ''https'', ur_User = None, ur_Host = h, ur_Path = ''/'' @ b, ur_Query = []\<rparr>"
  by (rule parse_authority)
    (use assms host_chars [OF assms(1)] host_chars [OF assms(2)] scheme_https [of "h @ ''/'' @ b"] in simp_all)

lemma trim_slashes_host: "list_all host_char b \<Longrightarrow> trim_slashes (CHR ''/'' # b) = b"
proof -
  assume "list_all host_char b"
  then have n: "CHR ''/'' \<notin> set b" using host_char_plain by simp
  have "dropWhile (\<lambda>c. c = CHR ''/'') t = t" if "CHR ''/'' \<notin> set t" for t using that by (cases t) auto
  from this [OF n] this [of "rev b"] n show ?thesis by (simp add: trim_slashes_def trim_by_def)
qed

text \<open>The two forms of an endpoint, with the bucket in the host and in the path, give the same bucket and
the same object URL, up to the scheme. The bucket has no dot.\<close>

lemma endpoint_forms_agree:
  assumes "list_all host_char b" "list_all host_char h" "CHR ''.'' \<notin> set b"
  shows "getBucketFromEndpoint (''s3://'' @ b @ ''.'' @ h) = b"
    "getBucketFromEndpoint (''https://'' @ h @ ''/'' @ b) = b"
    "constructVirtualHostURL (''s3://'' @ b @ ''.'' @ h) b key = Some (''http://'' @ b @ ''.'' @ h @ ''/'' @ key)"
    "constructVirtualHostURL (''https://'' @ h @ ''/'' @ b) b key = Some (''https://'' @ b @ ''.'' @ h @ ''/'' @ key)"
proof -
  have s3: "has_prefix s3_scheme (''s3://'' @ t)" "trim_prefix s3_scheme (''s3://'' @ t) = t" for t
    unfolding s3_scheme_def by (rule has_prefix_append, rule trim_prefix_append)
  have no: "\<not> has_prefix s3_scheme (''https://'' @ t)" for t by (simp add: has_prefix_def s3_scheme_def)
  have bh: "list_all host_char (b @ ''.'' @ h)" using assms by (simp add: host_char_def)
  note c = cut_append [OF assms(3), of h]
  show "getBucketFromEndpoint (''s3://'' @ b @ ''.'' @ h) = b"
    unfolding getBucketFromEndpoint_def s3 if_True split_head_def using c s3 by simp
  show "getBucketFromEndpoint (''https://'' @ h @ ''/'' @ b) = b"
    unfolding getBucketFromEndpoint_def parse_https_path [OF assms(2,1)] using no trim_slashes_host [OF assms(1)] by simp
  have "has_substring ''://'' (''http://'' @ t)" "has_substring ''://'' (''https://'' @ t)" for t
    using has_substring_append [of "''://''" "''http''" t] has_substring_append [of "''://''" "''https''" t] by simp_all
  then have n: "normalize_endpoint (''s3://'' @ b @ ''.'' @ h) = ''http://'' @ b @ ''.'' @ h"
    "normalize_endpoint (''https://'' @ h @ ''/'' @ b) = ''https://'' @ h @ ''/'' @ b"
    unfolding normalize_endpoint_def using no s3 by (simp_all del: append_Cons)
  show "constructVirtualHostURL (''s3://'' @ b @ ''.'' @ h) b key = Some (''http://'' @ b @ ''.'' @ h @ ''/'' @ key)"
    unfolding constructVirtualHostURL_def n parse_http_host [OF bh] endpoint_host_def using c s3 by simp
  show "constructVirtualHostURL (''https://'' @ h @ ''/'' @ b) b key = Some (''https://'' @ b @ ''.'' @ h @ ''/'' @ key)"
    unfolding constructVirtualHostURL_def n parse_https_path [OF assms(2,1)] endpoint_host_def using no by simp
qed

end
