(* ===== verification/FfmpegWorkers.thy ===== *)
theory FfmpegWorkers
  imports Endpoints "HOL-Library.Multiset"
begin

unbundle bit_operations_syntax

text \<open>
  The ffmpeg worker pair: \<^verbatim>\<open>worker_ffmpeg/cmd/scanner/main.go\<close> lists a bucket, joins video and
  audio files to tasks, pushes them to a Redis list and decides about failed tasks;
  \<^verbatim>\<open>worker_ffmpeg/cmd/worker/main.go\<close> takes tasks from the list, runs them and pushes failures to
  a second list. What S3, \<^verbatim>\<open>ffmpeg\<close> and the backend answer is an argument, Redis commands succeed or
  fail by an argument. The goroutines of both programs are steps of one relation.
\<close>

section \<open>Tasks and identifiers\<close>

record wtask =
  wt_ID :: int
  wt_JobID :: int
  wt_VideoKey :: string
  wt_AudioKey :: string
  wt_VideoSize :: int
  wt_AudioSize :: int
  wt_Status :: string
  wt_ErrorMessage :: string
  wt_RetryCount :: int

definition MaxRetries :: int where "MaxRetries = 3"

text \<open>64-bit FNV-1a, \<^verbatim>\<open>hash/fnv\<close>.\<close>

definition fnv1a :: "string \<Rightarrow> 64 word" where
  "fnv1a s = foldl (\<lambda>h c. (h XOR word_of_nat (of_char c)) * 1099511628211) 14695981039346656037 s"

definition generateTaskID :: "string \<Rightarrow> int" where
  "generateTaskID s = uint (fnv1a s AND 0x7fffffffffffffff)"

section \<open>Configuration\<close>

definition trim_colons :: "string \<Rightarrow> string" where
  "trim_colons = trim_by (\<lambda>c. c = CHR '':'')"

definition queue_prefix :: "string \<Rightarrow> string" where
  "queue_prefix env = (let p = trim_by is_space env in trim_colons (if p = [] then ''ffmpeg'' else p))"

definition task_queue :: "string \<Rightarrow> string" where
  "task_queue env = ''queue:'' @ queue_prefix env @ '':pending''"

definition failed_queue :: "string \<Rightarrow> string" where
  "failed_queue env = ''queue:'' @ queue_prefix env @ '':failed''"

definition dedup_key :: "string \<Rightarrow> int \<Rightarrow> string" where
  "dedup_key env job = ''queue:'' @ queue_prefix env @ '':dedup:'' @ itoa job"

definition perm_failure_key :: "string \<Rightarrow> string" where
  "perm_failure_key env = queue_prefix env @ '':task:perm_failure''"

fun split_commas :: "string \<Rightarrow> string \<Rightarrow> string list" where
  "split_commas acc [] = [rev acc]"
| "split_commas acc (c # s) = (if c = CHR '','' then rev acc # split_commas [] s else split_commas (c # acc) s)"

definition endpoint_keywords :: "string \<Rightarrow> string list" where
  "endpoint_keywords env =
     (let raw = trim_by is_space env;
          ks = split_commas [] (if raw = [] then ''internal,intranet,private,privatelink,vpc,aliyuncs,ivolces,tos-s3'' else raw)
      in filter (\<lambda>k. k \<noteq> []) (map (\<lambda>k. map to_lower (trim_by is_space k)) ks))"

definition require_private :: "string \<Rightarrow> bool" where
  "require_private env = (let f = trim_by is_space env in f = [] \<or> map to_lower f = ''true'')"

text \<open>\<open>private_ip h\<close>: \<open>h\<close> is the text of an IP address that is private or loopback; \<open>host\<close> is the host
name of the parsed endpoint, nothing when it does not parse or has none.\<close>

definition isAllowedEndpoint :: "(string \<Rightarrow> bool) \<Rightarrow> string list \<Rightarrow> bool \<Rightarrow> string \<Rightarrow> string option \<Rightarrow> bool" where
  "isAllowedEndpoint private_ip keywords require guard host =
     (case host of
        None \<Rightarrow> False
      | Some h0 \<Rightarrow>
          (let h = map to_lower h0;
               privateOK = (h = ''localhost'' \<or> private_ip h \<or> list_ex (\<lambda>k. has_substring k h) keywords)
           in if require \<and> \<not> privateOK then False
              else if guard \<in> {''aliyun'', ''aliyuncs'', ''oss''}
              then has_substring ''aliyuncs.com'' h \<and> has_substring ''internal'' h
              else if guard \<in> {''ivolces'', ''volcengine'', ''volc'', ''tos''}
              then has_substring ''ivolces.com'' h \<and> has_substring ''tos-s3-'' h
              else True))"

section \<open>The queues\<close>

record queues =
  q_pending :: "wtask list"
  q_failed :: "wtask list"
  q_dedup :: "(int \<times> int) list"
  q_perm :: "int list"
  q_reports :: "(int \<times> bool \<times> int) list"

text \<open>\<^verbatim>\<open>reportResultPatch\<close> of both programs: the increments that reach the backend.\<close>

definition reportResultPatch :: "int \<Rightarrow> bool \<Rightarrow> int \<Rightarrow> queues \<Rightarrow> queues" where
  "reportResultPatch job success bytes q =
     q\<lparr>q_reports := q_reports q @ [(job, success, if success \<and> bytes > 0 then bytes else 0)]\<rparr>"

subsection \<open>Worker\<close>

definition failed_task :: "string \<Rightarrow> wtask \<Rightarrow> wtask" where
  "failed_task reason t =
     t\<lparr>wt_RetryCount := wt_RetryCount t + 1, wt_Status := ''FAILED'', wt_ErrorMessage := reason\<rparr>"

text \<open>The second component says whether the task has been reported.\<close>

definition handleTaskFailure :: "bool \<Rightarrow> string \<Rightarrow> wtask \<Rightarrow> queues \<Rightarrow> queues \<times> bool" where
  "handleTaskFailure push_ok reason t q =
     (if push_ok then (q\<lparr>q_failed := q_failed q @ [failed_task reason t]\<rparr>, False)
      else (reportResultPatch (wt_JobID t) False 0 q, True))"

datatype work_outcome =
    JobInfoError string | S3InitError string | OutputExists "int option"
  | DownloadVideoError string | DownloadAudioError string | FFmpegError string | OpenError string
  | UploadError string | Uploaded "int option"

definition processTask :: "bool \<Rightarrow> work_outcome \<Rightarrow> wtask \<Rightarrow> queues \<Rightarrow> queues \<times> bool" where
  "processTask push_ok r t q =
     (case r of
        JobInfoError e \<Rightarrow> handleTaskFailure push_ok (''Failed to get job info: '' @ e) t q
      | S3InitError e \<Rightarrow> handleTaskFailure push_ok (''S3 Init Failed: '' @ e) t q
      | OutputExists n \<Rightarrow> (reportResultPatch (wt_JobID t) True (case n of Some k \<Rightarrow> k | None \<Rightarrow> 0) q, True)
      | DownloadVideoError e \<Rightarrow> handleTaskFailure push_ok (''Download Video Failed: '' @ e) t q
      | DownloadAudioError e \<Rightarrow> handleTaskFailure push_ok (''Download Audio Failed: '' @ e) t q
      | FFmpegError e \<Rightarrow> handleTaskFailure push_ok (''FFmpeg failed: '' @ e) t q
      | OpenError e \<Rightarrow> handleTaskFailure push_ok (''Open Output Failed: '' @ e) t q
      | UploadError e \<Rightarrow> handleTaskFailure push_ok (''Upload Failed: '' @ e) t q
      | Uploaded n \<Rightarrow> (reportResultPatch (wt_JobID t) True (case n of Some k \<Rightarrow> k | None \<Rightarrow> 0) q, True))"

definition output_key :: "string \<Rightarrow> string \<Rightarrow> string \<Rightarrow> string" where
  "output_key uploadPrefix s3Prefix videoKey =
     (let up = (if uploadPrefix = [] then s3Prefix else uploadPrefix);
          i = split_head ''_video.'' (base_name videoKey);
          k = rev (dropWhile (\<lambda>c. c = CHR ''/'') (rev up)) @ ''/'' @ i @ ''.mp4''
      in trim_prefix ''/'' k)"

text \<open>The disk space that a task reserves and the test before it does: \<open>0.8\<close> is \<open>4 / 5\<close>.\<close>

definition space_needed :: "wtask \<Rightarrow> int" where
  "space_needed t = (wt_VideoSize t + wt_AudioSize t) * 2"

definition space_admits :: "int \<Rightarrow> int \<Rightarrow> int \<Rightarrow> int \<Rightarrow> bool" where
  "space_admits capacity free reserved needed = (\<not> 5 * (capacity - free + reserved + needed) > 4 * capacity)"

definition release_space :: "int \<Rightarrow> int \<Rightarrow> int" where
  "release_space bytes reserved = (let r = reserved - bytes in if r < 0 then 0 else r)"

subsection \<open>Retry manager\<close>

datatype retry_effect = Reported | Requeued | PushedBack | Dropped

definition retry_failed :: "bool \<Rightarrow> bool \<Rightarrow> wtask \<Rightarrow> queues \<Rightarrow> queues \<times> retry_effect" where
  "retry_failed requeue_ok back_ok t q =
     (if wt_RetryCount t \<ge> MaxRetries
      then ((reportResultPatch (wt_JobID t) False 0 q)\<lparr>q_perm := List.insert (wt_ID t) (q_perm q)\<rparr>, Reported)
      else if requeue_ok
      then (q\<lparr>q_pending := q_pending q @ [t\<lparr>wt_Status := ''PENDING'', wt_ErrorMessage := []\<rparr>]\<rparr>, Requeued)
      else if back_ok then (q\<lparr>q_failed := t # q_failed q\<rparr>, PushedBack)
      else (q, Dropped))"

section \<open>Scanner\<close>

record FilePair =
  fp_Video :: string
  fp_Audio :: string
  fp_VideoSize :: int
  fp_AudioSize :: int

definition no_pair :: FilePair where
  "no_pair = \<lparr>fp_Video = [], fp_Audio = [], fp_VideoSize = 0, fp_AudioSize = 0\<rparr>"

type_synonym pairs = "(string \<times> FilePair) list"

definition get_pair :: "string \<Rightarrow> pairs \<Rightarrow> FilePair" where
  "get_pair i ps = (case map_of ps i of Some p \<Rightarrow> p | None \<Rightarrow> no_pair)"

definition note_object :: "string \<times> int \<Rightarrow> pairs \<Rightarrow> pairs" where
  "note_object obj ps =
     (let key = fst obj; name = base_name key in
      if has_substring ''_video.'' name
      then let i = split_head ''_video.'' name
           in aset i ((get_pair i ps)\<lparr>fp_Video := key, fp_VideoSize := snd obj\<rparr>) ps
      else if has_substring ''_audio.'' name
      then let i = split_head ''_audio.'' name
           in aset i ((get_pair i ps)\<lparr>fp_Audio := key, fp_AudioSize := snd obj\<rparr>) ps
      else ps)"

definition complete_pair :: "FilePair \<Rightarrow> bool" where
  "complete_pair p = (fp_Video p \<noteq> [] \<and> fp_Audio p \<noteq> [])"

definition new_task :: "int \<Rightarrow> FilePair \<Rightarrow> wtask" where
  "new_task job p =
     \<lparr>wt_ID = generateTaskID (base_name (fp_Video p)), wt_JobID = job, wt_VideoKey = fp_Video p,
      wt_AudioKey = fp_Audio p, wt_VideoSize = fp_VideoSize p, wt_AudioSize = fp_AudioSize p,
      wt_Status = ''PENDING'', wt_ErrorMessage = [], wt_RetryCount = 0\<rparr>"

text \<open>
  How the commands of one page go: the order in which Go walks its map, whether \<^verbatim>\<open>SMISMEMBER\<close>
  answers, how many \<^verbatim>\<open>SADD\<close> commands took effect when the pipeline fails, and whether one of the
  three attempts to push succeeds.
\<close>

record page_env =
  pe_order :: "pairs \<Rightarrow> pairs"
  pe_perm_ok :: bool
  pe_exec :: "nat option"
  pe_push_ok :: bool

text \<open>\<^verbatim>\<open>SADD\<close> of each task of a list; the tasks whose identifier was new.\<close>

fun sadd_tasks :: "wtask list \<Rightarrow> (int \<times> int) list \<Rightarrow> (int \<times> int) list \<times> wtask list" where
  "sadd_tasks [] d = (d, [])"
| "sadd_tasks (t # ts) d =
     (if (wt_JobID t, wt_ID t) \<in> set d then sadd_tasks ts d
      else (let (d', new) = sadd_tasks ts (d @ [(wt_JobID t, wt_ID t)]) in (d', t # new)))"

definition page_candidates :: "page_env \<Rightarrow> pairs \<Rightarrow> pairs" where
  "page_candidates E ps = filter (\<lambda>(i, p). complete_pair p) (pe_order E ps)"

definition drop_candidates :: "pairs \<Rightarrow> pairs \<Rightarrow> pairs" where
  "drop_candidates cands ps = filter (\<lambda>(i, p). i \<notin> fst ` set cands) ps"

text \<open>The candidates that are not permanent failures; without an answer every candidate passes.\<close>

definition not_perm_failed :: "page_env \<Rightarrow> queues \<Rightarrow> wtask list \<Rightarrow> wtask list" where
  "not_perm_failed E q ts = (if pe_perm_ok E then filter (\<lambda>t. wt_ID t \<notin> set (q_perm q)) ts else ts)"

text \<open>The \<^verbatim>\<open>SADD\<close> pipeline of a page and the push of the tasks that were new: the queues and the
batch.\<close>

definition queue_batch :: "page_env \<Rightarrow> wtask list \<Rightarrow> queues \<Rightarrow> queues \<times> wtask list" where
  "queue_batch E ts q =
     (if ts = [] then (q, [])
      else (case pe_exec E of
              Some n \<Rightarrow> (q\<lparr>q_dedup := fst (sadd_tasks (take n ts) (q_dedup q))\<rparr>, [])
            | None \<Rightarrow>
                (let (d, batch) = sadd_tasks ts (q_dedup q); q1 = q\<lparr>q_dedup := d\<rparr>
                 in (if batch \<noteq> [] \<and> pe_push_ok E then q1\<lparr>q_pending := q_pending q1 @ batch\<rparr> else q1, batch))))"

text \<open>One page: the pairs that are still open, the queues, and the batch.\<close>

definition scan_page :: "page_env \<Rightarrow> int \<Rightarrow> (string \<times> int) list \<Rightarrow> pairs \<times> queues \<Rightarrow> (pairs \<times> queues) \<times> wtask list" where
  "scan_page E job objs pq =
     (let ps = fold note_object objs (fst pq); q = snd pq; cands = page_candidates E ps
      in if cands = [] then ((ps, q), [])
         else (let ts = not_perm_failed E q (map (\<lambda>(i, p). new_task job p) cands);
                   (q1, batch) = queue_batch E ts q
               in ((drop_candidates cands ps, q1), batch)))"

text \<open>A job: the pages of the listing in order, a page that cannot be listed ends it. The reports to the
backend are the status updates with their counts; \<open>gone\<close>: the backend answers that the job does not exist.\<close>

datatype scan_report = ScanRunning int | ScanFailed | ScanDone nat int

text \<open>The message that \<^verbatim>\<open>updateJobStatus\<close> makes of an answer, and the test that \<^verbatim>\<open>processJob\<close> puts
to it.\<close>

definition update_error :: "int \<Rightarrow> string" where
  "update_error code = ''failed to update status: '' @ itoa code"

definition job_gone :: "string \<Rightarrow> bool" where
  "job_gone msg = has_substring ''status 404'' msg"

definition cleanUpDedup :: "int \<Rightarrow> queues \<Rightarrow> queues" where
  "cleanUpDedup job q = q\<lparr>q_dedup := filter (\<lambda>(j, i). j \<noteq> job) (q_dedup q)\<rparr>"

text \<open>\<open>answer n\<close>: the error message of the \<open>n\<close>-th status update, if it fails.\<close>

fun scan_pages :: "(nat \<Rightarrow> page_env) \<Rightarrow> (nat \<Rightarrow> string option) \<Rightarrow> int \<Rightarrow> nat \<Rightarrow> int \<Rightarrow> pairs \<Rightarrow> queues
    \<Rightarrow> (string \<times> int) list option list \<Rightarrow> queues \<times> scan_report list" where
  "scan_pages E answer job n cnt ps q [] =
     ((case answer n of Some m \<Rightarrow> if job_gone m then cleanUpDedup job q else q | None \<Rightarrow> q), [ScanDone n cnt])"
| "scan_pages E answer job n cnt ps q (None # pages) = (q, [ScanFailed])"
| "scan_pages E answer job n cnt ps q (Some objs # pages) =
     (let r = scan_page (E n) job objs (ps, q); batch = snd r; cnt1 = cnt + int (length batch)
      in if batch = [] then scan_pages E answer job (Suc n) cnt1 (fst (fst r)) (snd (fst r)) pages
         else (case answer n of
                 Some m \<Rightarrow>
                   if job_gone m then (cleanUpDedup job (snd (fst r)), [ScanRunning cnt1])
                   else (let (q', rs) = scan_pages E answer job (Suc n) cnt1 (fst (fst r)) (snd (fst r)) pages
                         in (q', ScanRunning cnt1 # rs))
               | None \<Rightarrow> (let (q', rs) = scan_pages E answer job (Suc n) cnt1 (fst (fst r)) (snd (fst r)) pages
                         in (q', ScanRunning cnt1 # rs))))"

end
