(* ===== verification/FfmpegWorkerFacts.thy ===== *)
theory FfmpegWorkerFacts
  imports FfmpegWorkers
begin

text \<open>
  The two ffmpeg programs together: scanners, workers and retry managers as steps of one relation over
  the Redis lists, with what has been found, run, reported and dropped as history. The facts say that
  no task is lost or counted twice while Redis answers, and that a task is run at most three times.
\<close>

section \<open>Steps\<close>

definition key :: "wtask \<Rightarrow> int \<times> int" where
  "key t = (wt_JobID t, wt_ID t)"

record system =
  fs_q :: queues
  fs_running :: "wtask list"
  fs_held :: "wtask list"
  fs_lost :: "(int \<times> int) list"
  fs_done :: "(int \<times> int) list"
  fs_found :: "(int \<times> int) list"
  fs_runs :: "(int \<times> int) list"

text \<open>\<open>TakeTask\<close> and \<open>PopFailed\<close> are \<^verbatim>\<open>BLPOP\<close>.\<close>

inductive ffmpeg_step :: "system \<Rightarrow> system \<Rightarrow> bool" where
  ScanPage: "scan_page E job objs (ps, fs_q s) = ((ps', q'), batch) \<Longrightarrow>
     ffmpeg_step s (s\<lparr>fs_q := q', fs_found := fs_found s @ map key batch,
       fs_lost := fs_lost s @ (if pe_push_ok E then [] else map key batch)\<rparr>)"
| TakeTask: "q_pending (fs_q s) = t # rest \<Longrightarrow>
     ffmpeg_step s (s\<lparr>fs_q := (fs_q s)\<lparr>q_pending := rest\<rparr>, fs_running := t # fs_running s,
       fs_runs := fs_runs s @ [key t]\<rparr>)"
| WorkTask: "t \<in> set (fs_running s) \<Longrightarrow> processTask ok r t (fs_q s) = (q', rep) \<Longrightarrow>
     ffmpeg_step s (s\<lparr>fs_q := q', fs_running := remove1 t (fs_running s),
       fs_done := fs_done s @ (if rep then [key t] else [])\<rparr>)"
| PopFailed: "q_failed (fs_q s) = t # rest \<Longrightarrow>
     ffmpeg_step s (s\<lparr>fs_q := (fs_q s)\<lparr>q_failed := rest\<rparr>, fs_held := t # fs_held s\<rparr>)"
| RetryTask: "t \<in> set (fs_held s) \<Longrightarrow> retry_failed ok back t (fs_q s) = (q', eff) \<Longrightarrow>
     ffmpeg_step s (s\<lparr>fs_q := q', fs_held := remove1 t (fs_held s),
       fs_done := fs_done s @ (if eff = Reported then [key t] else []),
       fs_lost := fs_lost s @ (if eff = Dropped then [key t] else [])\<rparr>)"

definition empty_system :: system where
  "empty_system = \<lparr>fs_q = \<lparr>q_pending = [], q_failed = [], q_dedup = [], q_perm = [], q_reports = []\<rparr>,
     fs_running = [], fs_held = [], fs_lost = [], fs_done = [], fs_found = [], fs_runs = []\<rparr>"

section \<open>Where a task is\<close>

definition waiting :: "system \<Rightarrow> wtask list" where
  "waiting s = q_pending (fs_q s) @ q_failed (fs_q s) @ fs_held s"

definition located :: "system \<Rightarrow> (int \<times> int) multiset" where
  "located s = mset (map key (waiting s)) + mset (map key (fs_running s)) + mset (fs_lost s) + mset (fs_done s)"

definition conserved :: "system \<Rightarrow> bool" where
  "conserved s =
     (located s = mset (fs_found s) \<and> distinct (fs_found s) \<and> set (fs_found s) \<subseteq> set (q_dedup (fs_q s))
      \<and> map fst (q_reports (fs_q s)) = map fst (fs_done s))"

lemma sadd_tasks_new:
  "sadd_tasks ts d = (d', new) \<Longrightarrow>
     set d' = set d \<union> key ` set ts \<and> distinct (map key new) \<and> key ` set new \<inter> set d = {} \<and> set new \<subseteq> set ts"
proof (induction ts arbitrary: d d' new)
  case (Cons t ts)
  show ?case
  proof (cases "key t \<in> set d")
    case True
    then have "sadd_tasks ts d = (d', new)" using Cons.prems by (simp add: key_def)
    from Cons.IH [OF this] True show ?thesis by auto
  next
    case False
    then obtain n1 where n1: "sadd_tasks ts (d @ [key t]) = (d', n1)" "new = t # n1"
      using Cons.prems by (auto simp: key_def split: prod.splits)
    from Cons.IH [OF n1(1)] n1(2) False show ?thesis by auto
  qed
qed simp

text \<open>What a page does to the queues.\<close>

lemma queue_batch_effect:
  assumes "queue_batch E ts q = (q', batch)"
  shows "q_pending q' = q_pending q @ (if pe_push_ok E then batch else []) \<and> q_failed q' = q_failed q
    \<and> q_reports q' = q_reports q \<and> set (q_dedup q) \<union> key ` set batch \<subseteq> set (q_dedup q')
    \<and> distinct (map key batch) \<and> key ` set batch \<inter> set (q_dedup q) = {} \<and> set batch \<subseteq> set ts"
proof (cases "ts = []")
  case False
  show ?thesis
  proof (cases "pe_exec E")
    case None
    obtain d where d: "sadd_tasks ts (q_dedup q) = (d, batch)"
      using assms False None by (auto simp: queue_batch_def Let_def split: prod.splits)
    from sadd_tasks_new [OF d] assms False None d show ?thesis
      by (auto simp: queue_batch_def Let_def split: if_splits)
  next
    case (Some n)
    obtain d b where d: "sadd_tasks (take n ts) (q_dedup q) = (d, b)" by fastforce
    from sadd_tasks_new [OF d] assms False Some d show ?thesis by (auto simp: queue_batch_def)
  qed
qed (use assms in \<open>auto simp: queue_batch_def\<close>)

lemma scan_page_effect:
  assumes "scan_page E job objs (ps, q) = ((ps', q'), batch)"
  shows "q_pending q' = q_pending q @ (if pe_push_ok E then batch else [])" "q_failed q' = q_failed q"
    "q_reports q' = q_reports q" "set (q_dedup q') \<supseteq> set (q_dedup q) \<union> key ` set batch"
    "distinct (map key batch)" "key ` set batch \<inter> set (q_dedup q) = {}"
    "\<forall>t\<in>set batch. wt_RetryCount t = 0"
proof -
  define ts where "ts = not_perm_failed E q (map (\<lambda>(i, p). new_task job p) (page_candidates E (fold note_object objs ps)))"
  have z: "\<forall>t\<in>set ts. wt_RetryCount t = 0"
    by (auto simp: ts_def not_perm_failed_def new_task_def split: prod.splits)
  have "q' = q \<and> batch = [] \<or> queue_batch E ts q = (q', batch)"
    using assms by (auto simp: scan_page_def Let_def simp flip: ts_def split: if_splits prod.splits)
  moreover have "\<forall>t\<in>set b. wt_RetryCount t = 0" if "set b \<subseteq> set ts" for b using z that by blast
  ultimately show "q_pending q' = q_pending q @ (if pe_push_ok E then batch else [])" "q_failed q' = q_failed q"
    "q_reports q' = q_reports q" "set (q_dedup q') \<supseteq> set (q_dedup q) \<union> key ` set batch"
    "distinct (map key batch)" "key ` set batch \<inter> set (q_dedup q) = {}"
    "\<forall>t\<in>set batch. wt_RetryCount t = 0"
    using queue_batch_effect [of E ts q q' batch] by auto
qed

text \<open>What a worker and a retry manager do with the task in their hands.\<close>

lemma processTask_effect:
  "processTask ok r t q = (q', rep) \<Longrightarrow>
     (if rep then q_failed q' = q_failed q \<and> (\<exists>x. q_reports q' = q_reports q @ [(wt_JobID t, x)])
      else (\<exists>m. q_failed q' = q_failed q @ [failed_task m t]) \<and> q_reports q' = q_reports q)
     \<and> q_pending q' = q_pending q \<and> q_dedup q' = q_dedup q \<and> q_perm q' = q_perm q"
  by (auto simp: processTask_def handleTaskFailure_def reportResultPatch_def
      split: work_outcome.splits if_splits)

lemma retry_failed_effect:
  "retry_failed ok back t q = (q', eff) \<Longrightarrow> q_dedup q' = q_dedup q \<and>
     (case eff of
        Reported \<Rightarrow> wt_RetryCount t \<ge> 3 \<and> (\<exists>x. q_reports q' = q_reports q @ [(wt_JobID t, x)])
          \<and> q_pending q' = q_pending q \<and> q_failed q' = q_failed q
      | Requeued \<Rightarrow> wt_RetryCount t < 3 \<and> q_pending q' = q_pending q @ [t\<lparr>wt_Status := ''PENDING'', wt_ErrorMessage := []\<rparr>]
          \<and> q_reports q' = q_reports q \<and> q_failed q' = q_failed q
      | PushedBack \<Rightarrow> q_failed q' = t # q_failed q \<and> q_reports q' = q_reports q \<and> q_pending q' = q_pending q
      | Dropped \<Rightarrow> q' = q \<and> \<not> ok \<and> \<not> back)"
  by (auto simp: retry_failed_def reportResultPatch_def MaxRetries_def split: if_splits)

lemma key_unchanged [simp]:
  "key (failed_task m t) = key t" "key (t\<lparr>wt_Status := a, wt_ErrorMessage := b\<rparr>) = key t"
  by (simp_all add: key_def failed_task_def)

lemma failed_task_retry [simp]: "wt_RetryCount (failed_task m t) = wt_RetryCount t + 1"
  by (simp add: failed_task_def)

lemma mset_remove_key:
  assumes "t \<in> set xs"
  obtains R where "image_mset f (mset xs) = add_mset (f t) R" "image_mset f (mset xs - {#t#}) = R"
  using assms by (metis image_mset_add_mset insert_DiffM set_mset_mset)

lemma fst_key [simp]: "fst (key t) = wt_JobID t"
  by (simp add: key_def)

lemma conserved_step: "ffmpeg_step s s' \<Longrightarrow> conserved s \<Longrightarrow> conserved s'"
proof (induction rule: ffmpeg_step.induct)
  case (ScanPage E job objs ps s ps' q' batch)
  note e = scan_page_effect [OF ScanPage.hyps]
  have "distinct (fs_found s @ map key batch)"
    using ScanPage.prems e(5,6) by (auto simp: conserved_def)
  then show ?case using ScanPage.prems e(1-4)
    by (auto simp: conserved_def located_def waiting_def ac_simps)
next
  case (TakeTask s t rest)
  then show ?case by (simp add: conserved_def located_def waiting_def)
next
  case (WorkTask t s ok r q' rep)
  obtain R where "image_mset key (mset (fs_running s)) = add_mset (key t) R"
    "image_mset key (mset (fs_running s) - {#t#}) = R"
    by (rule mset_remove_key [OF WorkTask.hyps(1)])
  then show ?case using processTask_effect [OF WorkTask.hyps(2)] WorkTask.prems
    by (auto simp: conserved_def located_def waiting_def split: if_splits)
next
  case (PopFailed s t rest)
  then show ?case by (simp add: conserved_def located_def waiting_def)
next
  case (RetryTask t s ok ok2 q' eff)
  obtain R where "image_mset key (mset (fs_held s)) = add_mset (key t) R"
    "image_mset key (mset (fs_held s) - {#t#}) = R"
    by (rule mset_remove_key [OF RetryTask.hyps(1)])
  then show ?case using retry_failed_effect [OF RetryTask.hyps(2)] RetryTask.prems
    by (cases eff) (auto simp: conserved_def located_def waiting_def)
qed

section \<open>How often a task is run\<close>

text \<open>The retry counter of a task is the number of its runs that are over.\<close>

definition tries_ok :: "system \<Rightarrow> bool" where
  "tries_ok s =
     ((\<forall>t\<in>set (waiting s). int (count_list (fs_runs s) (key t)) = wt_RetryCount t)
      \<and> (\<forall>t\<in>set (q_pending (fs_q s)). wt_RetryCount t \<le> 2)
      \<and> (\<forall>t\<in>set (fs_running s). int (count_list (fs_runs s) (key t)) = wt_RetryCount t + 1)
      \<and> (\<forall>k. count_list (fs_runs s) k \<le> 3)
      \<and> (\<forall>k. k \<notin> set (fs_found s) \<longrightarrow> count_list (fs_runs s) k = 0))"

lemma distinct_add_mset:
  assumes "distinct xs" "mset xs = add_mset a M"
  shows "a \<notin># M"
proof -
  have "a \<in># mset xs" unfolding assms(2) by simp
  then have "count (mset xs) a = 1" using assms(1) by (simp add: distinct_count_atmost_1)
  then show ?thesis by (simp add: assms(2) not_in_iff)
qed

lemma distinct_sub_mset:
  assumes "distinct xs" "mset ys \<subseteq># mset xs"
  shows "distinct ys"
proof -
  have "count (mset xs) a \<le> 1" for a using assms(1) by (simp add: distinct_count_atmost_1)
  then have "count (mset ys) a \<le> 1" for a using mset_subset_eq_count [OF assms(2), of a] le_trans by blast
  then have "count (mset ys) a = (if a \<in> set ys then 1 else 0)" for a
    by (metis One_nat_def count_greater_zero_iff count_inI le_antisym less_eq_Suc_le set_mset_mset)
  then show ?thesis by (simp add: distinct_count_atmost_1)
qed

lemma tries_step:
  assumes "ffmpeg_step s s'" "conserved s" "tries_ok s"
  shows "tries_ok s'"
  using assms
proof (induction rule: ffmpeg_step.induct)
  case (ScanPage E job objs ps s ps' q' batch)
  note e = scan_page_effect [OF ScanPage.hyps]
  have "count_list (fs_runs s) (key t) = 0" if "t \<in> set batch" for t
  proof -
    have "key t \<notin> set (q_dedup (fs_q s))" using that e(6) by blast
    then have "key t \<notin> set (fs_found s)" using ScanPage.prems(1) by (auto simp: conserved_def)
    then show ?thesis using ScanPage.prems(2) unfolding tries_ok_def by blast
  qed
  then show ?case using ScanPage.prems(2) e(1,2,7)
    by (auto simp: tries_ok_def waiting_def)
next
  case (TakeTask s t rest)
  have l: "mset (fs_found s) = located s" using TakeTask.prems by (simp add: conserved_def)
  have f: "mset (fs_found s) = add_mset (key t) (mset (map key (rest @ q_failed (fs_q s) @ fs_held s @ fs_running s))
      + mset (fs_lost s) + mset (fs_done s))"
    unfolding l located_def waiting_def TakeTask.hyps by (simp add: ac_simps)
  have "distinct (fs_found s)" using TakeTask.prems by (simp add: conserved_def)
  from distinct_add_mset [OF this f]
  have "key t \<notin># mset (map key (rest @ q_failed (fs_q s) @ fs_held s @ fs_running s)) + mset (fs_lost s) + mset (fs_done s)" .
  then have other: "\<forall>t'\<in>set (rest @ q_failed (fs_q s) @ fs_held s @ fs_running s). key t' \<noteq> key t"
    by (auto simp: image_iff)
  have "key t \<in># mset (fs_found s)" unfolding f by simp
  then have "key t \<in> set (fs_found s)" by simp
  moreover have "int (count_list (fs_runs s) (key t)) = wt_RetryCount t" "wt_RetryCount t \<le> 2"
    using TakeTask by (auto simp: tries_ok_def waiting_def)
  ultimately show ?case using TakeTask other unfolding tries_ok_def waiting_def
    by (auto simp: count_list_append)
next
  case (WorkTask t s ok r q' rep)
  have "set (remove1 t (fs_running s)) \<subseteq> set (fs_running s)" by (rule set_remove1_subset)
  then show ?case
    using processTask_effect [OF WorkTask.hyps(2)] WorkTask
    by (auto simp: tries_ok_def waiting_def split: if_splits)
next
  case (PopFailed s t rest)
  then show ?case by (auto simp: tries_ok_def waiting_def)
next
  case (RetryTask t s ok ok2 q' eff)
  have "set (remove1 t (fs_held s)) \<subseteq> set (fs_held s)" by (rule set_remove1_subset)
  then show ?case
    using retry_failed_effect [OF RetryTask.hyps(2)] RetryTask
    by (cases eff) (auto simp: tries_ok_def waiting_def)
qed

lemma ffmpeg_reach:
  "ffmpeg_step\<^sup>*\<^sup>* empty_system s \<Longrightarrow> conserved s \<and> tries_ok s"
proof (induction rule: rtranclp_induct)
  case base
  show ?case by (simp add: conserved_def tries_ok_def empty_system_def located_def waiting_def)
next
  case (step s s')
  then show ?case using conserved_step tries_step by blast
qed

text \<open>C30: However scanners, workers and retry managers interleave, every task that was found is in exactly
one place: waiting, running, in the hands of a retry manager, dropped by a Redis error, or reported; a task
is found once and reported at most once, with its own job, and it is run at most three times.\<close>

theorem ffmpeg_tasks_accounted_once:
  assumes "ffmpeg_step\<^sup>*\<^sup>* empty_system s"
  shows "mset (fs_found s) = mset (map key (waiting s)) + mset (map key (fs_running s)) + mset (fs_lost s)
        + mset (fs_done s)
    \<and> distinct (fs_found s) \<and> distinct (fs_done s) \<and> map fst (q_reports (fs_q s)) = map fst (fs_done s)
    \<and> (\<forall>k. count_list (fs_runs s) k \<le> 3)"
proof -
  have inv: "conserved s" "tries_ok s" using ffmpeg_reach [OF assms] by simp_all
  then have "mset (fs_found s) = located s" by (simp add: conserved_def)
  then have "mset (fs_done s) \<subseteq># mset (fs_found s)" by (simp add: located_def)
  then have "distinct (fs_done s)" using inv(1) distinct_sub_mset by (auto simp: conserved_def)
  then show ?thesis using inv by (simp add: conserved_def located_def tries_ok_def)
qed

text \<open>A run of the pair: one page with both files of a video, a failed run, and the retry.\<close>

definition plain_env :: page_env where
  "plain_env = \<lparr>pe_order = (\<lambda>ps. ps), pe_perm_ok = True, pe_exec = None, pe_push_ok = True\<rparr>"

definition one_video :: "(string \<times> int) list" where
  "one_video = [(''d/v_audio.m4a'', 5), (''d/v_video.mp4'', 9)]"

definition video_task :: wtask where
  "video_task = new_task 7 \<lparr>fp_Video = ''d/v_video.mp4'', fp_Audio = ''d/v_audio.m4a'', fp_VideoSize = 9, fp_AudioSize = 5\<rparr>"

definition found_system :: system where
  "found_system = \<lparr>fs_q = \<lparr>q_pending = [video_task], q_failed = [], q_dedup = [key video_task], q_perm = [], q_reports = []\<rparr>,
     fs_running = [], fs_held = [], fs_lost = [], fs_done = [], fs_found = [key video_task], fs_runs = []\<rparr>"

lemma scan_one_video:
  "scan_page plain_env 7 one_video ([], fs_q empty_system) = (([], fs_q found_system), [video_task])"
  by code_simp

lemma found_reached: "ffmpeg_step empty_system found_system"
  using ScanPage [where s = empty_system, OF scan_one_video]
  by (simp add: plain_env_def found_system_def empty_system_def)

theorem ffmpeg_tasks_accounted_once_witness:
  "\<exists>s. ffmpeg_step\<^sup>*\<^sup>* empty_system s \<and> fs_running s = [video_task] \<and> distinct (fs_found s)
     \<and> mset (fs_found s) = {#key video_task#} \<and> count_list (fs_runs s) (key video_task) = 1"
proof -
  let ?s = "found_system\<lparr>fs_q := (fs_q found_system)\<lparr>q_pending := []\<rparr>, fs_running := [video_task],
    fs_runs := [key video_task]\<rparr>"
  have "ffmpeg_step found_system ?s"
    using TakeTask [of found_system video_task "[]"] by (simp add: found_system_def)
  with found_reached have run: "ffmpeg_step\<^sup>*\<^sup>* empty_system ?s" by (meson r_into_rtranclp rtranclp_trans)
  from ffmpeg_tasks_accounted_once [OF run] show ?thesis
    by (intro exI [of _ ?s] conjI run) (simp_all add: found_system_def waiting_def)
qed

section \<open>Further facts\<close>

text \<open>Identifiers are positive 63-bit numbers, and depend on the name of the video file alone: two videos of
the same name in different directories are one task.\<close>

lemma generateTaskID_bounds: "0 \<le> generateTaskID s \<and> generateTaskID s < 2 ^ 63"
proof -
  have "fnv1a s AND 0x7fffffffffffffff \<le> (0x7fffffffffffffff :: 64 word)" by (rule word_and_le1)
  then have "uint (fnv1a s AND 0x7fffffffffffffff) \<le> uint (0x7fffffffffffffff :: 64 word)"
    unfolding word_le_def .
  moreover have "uint (0x7fffffffffffffff :: 64 word) = 0x7fffffffffffffff" by (subst uint_numeral) simp
  ultimately show ?thesis unfolding generateTaskID_def by simp
qed

lemma same_name_one_task:
  "snd (scan_page plain_env 7 [(''a/v_audio.m4a'', 1), (''a/v_video.mp4'', 2)] ([], fs_q empty_system)) \<noteq> []
   \<and> snd (scan_page plain_env 7 [(''b/v_audio.m4a'', 1), (''b/v_video.mp4'', 2)]
       ([], snd (fst (scan_page plain_env 7 [(''a/v_audio.m4a'', 1), (''a/v_video.mp4'', 2)] ([], fs_q empty_system))))) = []"
  by code_simp

text \<open>The test for a deleted job looks for a text that the error message never contains.\<close>

lemma job_gone_never: "\<not> job_gone (update_error 404)"
  by code_simp

text \<open>A batch that cannot be pushed is remembered as seen: no later page finds its tasks again.\<close>

lemma unpushed_batch_lost:
  assumes "scan_page E job objs (ps, q) = ((ps', q'), batch)" "\<not> pe_push_ok E" "t \<in> set batch"
  shows "q_pending q' = q_pending q \<and> key t \<in> set (q_dedup q')"
  using scan_page_effect [OF assms(1)] assms(2,3) by auto

text \<open>The reserved disk space is what the running tasks need: the clamp at zero is never used.\<close>

lemma reserved_is_running:
  assumes "reserved = sum_list (map space_needed ts)" "t \<in> set ts" "\<forall>t\<in>set ts. 0 \<le> space_needed t"
  shows "release_space (space_needed t) reserved = sum_list (map space_needed (remove1 t ts))"
proof -
  have "reserved = space_needed t + sum_list (map space_needed (remove1 t ts))"
    using assms(1) sum_list_map_remove1 [OF assms(2), of space_needed] by simp
  moreover have "0 \<le> sum_list (map space_needed (remove1 t ts))"
    using assms(3) set_remove1_subset [of t ts] by (intro sum_list_nonneg) auto
  ultimately show ?thesis by (simp add: release_space_def Let_def)
qed

text \<open>A task that needs more than four fifths of the disk is never admitted, with the disk empty.\<close>

lemma too_big_never_admitted:
  "5 * space_needed t > 4 * capacity \<Longrightarrow> free \<le> capacity \<Longrightarrow> 0 \<le> reserved \<Longrightarrow>
     \<not> space_admits capacity free reserved (space_needed t)"
  by (simp add: space_admits_def)

end
