(* ===== verification/TransferWorker.thy ===== *)
theory TransferWorker
  imports Complex_Main Multipart Endpoints
begin

text \<open>
  The transfer worker, \<^verbatim>\<open>worker_transfer/transfer.go\<close>: its settings from the environment, the time
  limits, the slots for workers and parts, the adaptive control of their number, the admission of large
  files, the destination key, and the processing of one task up to the reports it posts. S3, the transfer
  service and the clock are arguments. \<^verbatim>\<open>float64\<close> results go through a rounding function \<open>fl\<close>, the
  parameter of the definitions that use it.
\<close>

section \<open>Settings\<close>

text \<open>\<^verbatim>\<open>strconv.Atoi\<close>.\<close>

definition atoi :: "string \<Rightarrow> int option" where
  "atoi s =
     (let neg = (s \<noteq> [] \<and> hd s = CHR ''-'');
          ds = (if s \<noteq> [] \<and> (hd s = CHR ''-'' \<or> hd s = CHR ''+'') then tl s else s);
          n = (if neg then - int (aton ds) else int (aton ds))
      in if ds = [] \<or> \<not> list_all is_digit ds \<or> n < - (2 ^ 63) \<or> n \<ge> 2 ^ 63 then None else Some n)"

definition getEnvInt :: "string \<Rightarrow> int \<Rightarrow> int" where
  "getEnvInt v defaultValue =
     (if v = [] then defaultValue
      else (case atoi v of None \<Rightarrow> defaultValue | Some n \<Rightarrow> if n \<le> 0 then defaultValue else n))"

definition getEnvBool :: "string \<Rightarrow> bool \<Rightarrow> bool" where
  "getEnvBool v defaultValue =
     (if v = [] then defaultValue
      else if map to_lower v \<in> {''true'', ''1'', ''yes'', ''on''} then True
      else if map to_lower v \<in> {''false'', ''0'', ''no'', ''off''} then False
      else defaultValue)"

text \<open>\<open>parse\<close> is \<^verbatim>\<open>strconv.ParseFloat\<close>.\<close>

definition getEnvFloat :: "(string \<Rightarrow> rat option) \<Rightarrow> string \<Rightarrow> rat \<Rightarrow> rat" where
  "getEnvFloat parse v defaultValue =
     (if v = [] then defaultValue
      else (case parse v of None \<Rightarrow> defaultValue | Some f \<Rightarrow> if f \<le> 0 then defaultValue else f))"

definition validateTimeoutConfig :: "int \<Rightarrow> int \<Rightarrow> int \<Rightarrow> bool" where
  "validateTimeoutConfig mn mx throughput =
     (if mn \<le> 0 \<or> mx \<le> 0 \<or> throughput \<le> 0 then False else if mn > mx then False else True)"

text \<open>The settings that the functions below read; times in seconds, throughput in MB per second.\<close>

record settings =
  st_maxRetryCount :: int
  st_retryBaseDelay :: int
  st_minTimeout :: int
  st_maxTimeout :: int
  st_minThroughput :: int
  st_serviceRetries :: int
  st_serviceTimeout :: int
  st_headerTimeout :: int
  st_largeThreshold :: int
  st_maxLarge :: int
  st_maxRetryLarge :: int
  st_partConcurrency :: int
  st_minWorkers :: int
  st_maxWorkers :: int

text \<open>What \<^verbatim>\<open>runTransfer\<close> makes of the variables of the environment.\<close>

definition load_settings :: "(string \<Rightarrow> string) \<Rightarrow> settings" where
  "load_settings env =
     (let workers = getEnvInt (env ''TRANSFER_MAX_WORKERS'') 128;
          minw = getEnvInt (env ''TRANSFER_MIN_WORKERS'') 8;
          large = getEnvInt (env ''TRANSFER_LARGE_FILE_THRESHOLD_MB'') 1000 * 1024 * 1024;
          maxl = getEnvInt (env ''TRANSFER_MAX_LARGE_FILES'') 36;
          maxr = getEnvInt (env ''TRANSFER_MAX_RETRY_LARGE_FILES'') 36
      in \<lparr>st_maxRetryCount = getEnvInt (env ''TRANSFER_MAX_RETRY_COUNT'') 3,
          st_retryBaseDelay = getEnvInt (env ''TRANSFER_RETRY_BASE_DELAY_SECS'') 60,
          st_minTimeout = getEnvInt (env ''TRANSFER_MIN_TIMEOUT_SECS'') 30,
          st_maxTimeout = getEnvInt (env ''TRANSFER_MAX_TIMEOUT_SECS'') 10800,
          st_minThroughput = getEnvInt (env ''TRANSFER_MIN_THROUGHPUT_MBPS'') 2,
          st_serviceRetries = getEnvInt (env ''TRANSFER_SERVICE_RETRY_ATTEMPTS'') 3,
          st_serviceTimeout = getEnvInt (env ''TRANSFER_SERVICE_WORKER_TIMEOUT_SECS'') 60,
          st_headerTimeout = getEnvInt (env ''TRANSFER_SERVICE_RESPONSE_HEADER_TIMEOUT_SECS'') 0,
          st_largeThreshold = (if large < 1 then 1000 * 1024 * 1024 else large),
          st_maxLarge = (if maxl < 1 then 1 else maxl),
          st_maxRetryLarge = (if maxr < 1 then 1 else maxr),
          st_partConcurrency = getEnvInt (env ''TRANSFER_PART_CONCURRENCY'') 16,
          st_minWorkers = (if minw > workers then workers else minw),
          st_maxWorkers = workers\<rparr>)"

section \<open>Time limits\<close>

text \<open>Durations are nanoseconds.\<close>

definition second :: int where "second = 1000000000"

definition calculateTransferServiceExecutionBudget :: "settings \<Rightarrow> int" where
  "calculateTransferServiceExecutionBudget c =
     (let attempts = (if st_serviceRetries c < 1 then 1 else st_serviceRetries c);
          per = (if st_serviceTimeout c < 1 then 60 else st_serviceTimeout c);
          backoff = sum_list (map (\<lambda>a. a * second) [1..attempts - 1])
      in attempts * (per * 2 * second) + backoff + 15 * second)"

definition calculateTransferServiceResponseHeaderTimeout :: "settings \<Rightarrow> int" where
  "calculateTransferServiceResponseHeaderTimeout c =
     (if st_headerTimeout c > 0 then st_headerTimeout c * second
      else (let h = calculateTransferServiceExecutionBudget c; m = st_maxTimeout c * second
            in if m > 0 \<and> h \<ge> m then 0 else h))"

text \<open>\<^verbatim>\<open>time.Duration(f)\<close> of a \<^verbatim>\<open>float64\<close>: outside the range of \<^verbatim>\<open>int64\<close> the language leaves the
result open, the processors the worker is built for give the smallest integer. The product with a power of
two is exact below \<open>2 ^ 53\<close> nanoseconds.\<close>

definition to_duration :: "int \<Rightarrow> int" where
  "to_duration x = (if - (2 ^ 63) \<le> x \<and> x < 2 ^ 63 then x else - (2 ^ 63))"

definition calculateDynamicTimeout :: "settings \<Rightarrow> int \<Rightarrow> int \<Rightarrow> int" where
  "calculateDynamicTimeout c sz retryCount =
     (let minT = st_minTimeout c * second; maxT = st_maxTimeout c * second;
          budget = calculateTransferServiceExecutionBudget c
      in if sz \<le> 0 then (if budget > minT then budget else minT)
         else if st_minThroughput c \<le> 0 then maxT
         else
           (let base = go_div sz (st_minThroughput c * 1024 * 1024) * second;
                scaled = (if retryCount > 0
                          then to_duration (base * 2 ^ nat (if retryCount > 30 then 30 else retryCount)) else base);
                t = scaled + budget
            in if t < minT then minT else if t > maxT then maxT else t))"

definition calculatePartTimeout :: "settings \<Rightarrow> int \<Rightarrow> int" where
  "calculatePartTimeout c partSize = calculateDynamicTimeout c partSize 0"

section \<open>Worker slots\<close>

text \<open>
  A worker goes through \<^verbatim>\<open>acquireWorkerSlot\<close> in the steps of its atomic operations: it has counted
  itself and knows the count, has compared it with the effective number, holds a slot or waits. The
  deferred function compares once more with the number of that moment.
\<close>

datatype slot_state = Idle | Counted int | Compared bool int | Holding

record slots =
  sl_active :: int
  sl_effective :: int
  sl_workers :: "slot_state list"

inductive slot_step :: "slots \<Rightarrow> slots \<Rightarrow> bool" where
  SlotAdd: "i < length (sl_workers s) \<Longrightarrow> sl_workers s ! i = Idle \<Longrightarrow>
     slot_step s (s\<lparr>sl_active := sl_active s + 1, sl_workers := (sl_workers s)[i := Counted (sl_active s + 1)]\<rparr>)"
| SlotCompare: "i < length (sl_workers s) \<Longrightarrow> sl_workers s ! i = Counted a \<Longrightarrow>
     slot_step s (s\<lparr>sl_workers := (sl_workers s)[i := Compared (a \<le> sl_effective s) a]\<rparr>)"
| SlotDeferred: "i < length (sl_workers s) \<Longrightarrow> sl_workers s ! i = Compared r a \<Longrightarrow>
     slot_step s (s\<lparr>sl_active := (if \<not> a \<le> sl_effective s then sl_active s - 1 else sl_active s),
       sl_workers := (sl_workers s)[i := (if r then Holding else Idle)]\<rparr>)"
| SlotRelease: "i < length (sl_workers s) \<Longrightarrow> sl_workers s ! i = Holding \<Longrightarrow>
     slot_step s (s\<lparr>sl_active := sl_active s - 1, sl_workers := (sl_workers s)[i := Idle]\<rparr>)"

text \<open>The controller stores a new effective number between any two of them.\<close>

inductive slot_or_adjust :: "slots \<Rightarrow> slots \<Rightarrow> bool" where
  SlotStep: "slot_step s s' \<Longrightarrow> slot_or_adjust s s'"
| SlotAdjust: "slot_or_adjust s (s\<lparr>sl_effective := e\<rparr>)"

definition start_slots :: "nat \<Rightarrow> int \<Rightarrow> slots" where
  "start_slots n e = \<lparr>sl_active = 0, sl_effective = e, sl_workers = replicate n Idle\<rparr>"

subsection \<open>Part slots\<close>

text \<open>One call at a time: the shared count, the semaphore of the upload and its capacity. The last component
of the result is what the function returns.\<close>

definition acquirePartSlot :: "bool \<Rightarrow> int \<Rightarrow> int \<Rightarrow> int \<times> int \<Rightarrow> (int \<times> int) \<times> bool" where
  "acquirePartSlot adaptive effective cap s =
     (if \<not> adaptive then ((fst s, snd s + 1), True)
      else if effective \<le> 0 then (s, False)
      else (let active = fst s + 1
            in if active > effective then ((active - 1, snd s), False)
               else if snd s < cap then ((active, snd s + 1), True)
               else ((active - 1, snd s), False)))"

definition releasePartSlot :: "bool \<Rightarrow> int \<times> int \<Rightarrow> int \<times> int" where
  "releasePartSlot adaptive s = (if adaptive then fst s - 1 else fst s, snd s - 1)"

section \<open>Adaptive concurrency\<close>

record adaptive =
  ad_effective :: int
  ad_parts :: int
  ad_lastDecrease :: rat
  ad_total :: int
  ad_errors :: int
  ad_recentTotal :: int
  ad_recentErrors :: int
  ad_latencies :: "int list"
  ad_poolUsage :: rat

record limits =
  lm_enabled :: bool
  lm_min :: int
  lm_max :: int
  lm_parts :: int
  lm_step :: int
  lm_factor :: rat
  lm_errorRate :: rat
  lm_latency :: int
  lm_pool :: rat
  lm_cooldown :: int
  lm_samples :: int

definition recordTransferLatency :: "limits \<Rightarrow> int \<Rightarrow> adaptive \<Rightarrow> adaptive" where
  "recordTransferLatency l ms a =
     (if \<not> lm_enabled l then a
      else (let xs = ad_latencies a @ [ms]
            in a\<lparr>ad_latencies := drop (length xs - nat (lm_samples l)) xs\<rparr>))"

definition recordTransferResult :: "limits \<Rightarrow> bool \<Rightarrow> adaptive \<Rightarrow> adaptive" where
  "recordTransferResult l success a =
     (if \<not> lm_enabled l then a
      else a\<lparr>ad_recentTotal := ad_recentTotal a + 1,
             ad_recentErrors := ad_recentErrors a + (if success then 0 else 1),
             ad_total := ad_total a + 1,
             ad_errors := ad_errors a + (if success then 0 else 1)\<rparr>)"

definition getErrorRate :: "(rat \<Rightarrow> rat) \<Rightarrow> adaptive \<Rightarrow> rat" where
  "getErrorRate fl a = (if ad_total a = 0 then 0 else fl (of_int (ad_errors a) / of_int (ad_total a)))"

definition getAvgLatencyMs :: "(rat \<Rightarrow> rat) \<Rightarrow> adaptive \<Rightarrow> rat" where
  "getAvgLatencyMs fl a =
     (if ad_latencies a = [] then 0
      else fl (of_int (sum_list (ad_latencies a)) / of_nat (length (ad_latencies a))))"

text \<open>The reasons to decrease.\<close>

definition triggers :: "(rat \<Rightarrow> rat) \<Rightarrow> limits \<Rightarrow> adaptive \<Rightarrow> nat" where
  "triggers fl l a =
     (if getErrorRate fl a > lm_errorRate l then 1 else 0)
      + (if getAvgLatencyMs fl a > of_int (lm_latency l) then 1 else 0)
      + (if ad_poolUsage a > lm_pool l then 1 else 0)"

definition reset_window :: "adaptive \<Rightarrow> adaptive" where
  "reset_window a = a\<lparr>ad_total := 0, ad_errors := 0, ad_recentTotal := 0, ad_recentErrors := 0, ad_latencies := []\<rparr>"

definition decrease :: "(rat \<Rightarrow> rat) \<Rightarrow> limits \<Rightarrow> rat \<Rightarrow> nat \<Rightarrow> adaptive \<Rightarrow> adaptive" where
  "decrease fl l now reasons a =
     (let f = (if reasons \<ge> 2 then 2 / 5 else lm_factor l);
          n0 = \<lfloor>fl (of_int (ad_effective a) * f)\<rfloor>;
          n = (if n0 < lm_min l then lm_min l else n0);
          p0 = \<lfloor>fl (of_int (lm_parts l) * f)\<rfloor>;
          p = (if p0 < 1 then 1 else p0)
      in if n \<noteq> ad_effective a then a\<lparr>ad_lastDecrease := now, ad_effective := n, ad_parts := p\<rparr> else a)"

definition increase :: "(rat \<Rightarrow> rat) \<Rightarrow> limits \<Rightarrow> rat \<Rightarrow> adaptive \<Rightarrow> adaptive" where
  "increase fl l since a =
     (if ad_effective a < lm_max l
      then (let step = (if since < of_int (lm_cooldown l) then 1
                        else if ad_effective a < go_div (lm_max l * 2) 3 then lm_step l * 2 else lm_step l);
                n0 = ad_effective a + step;
                n = (if n0 > lm_max l then lm_max l else n0);
                p0 = \<lfloor>fl (fl (of_int (lm_parts l) * fl (of_int n / of_int (lm_max l))) + 1 / 2)\<rfloor>;
                p = (if p0 < 1 then 1 else p0)
            in if n \<noteq> ad_effective a then a\<lparr>ad_effective := n, ad_parts := p\<rparr> else a)
      else a)"

text \<open>A decrease within the cooldown returns at once: the window keeps its numbers.\<close>

definition adjustConcurrency :: "(rat \<Rightarrow> rat) \<Rightarrow> limits \<Rightarrow> rat \<Rightarrow> adaptive \<Rightarrow> adaptive" where
  "adjustConcurrency fl l now a =
     (let reasons = triggers fl l a; since = now - ad_lastDecrease a
      in if reasons > 0
         then (if since < of_int (lm_cooldown l) then a else reset_window (decrease fl l now reasons a))
         else reset_window (increase fl l since a))"

section \<open>Large files\<close>

text \<open>
  The counters of the files under way, per job for the large ones (a \<^verbatim>\<open>sync.Map\<close> from jobs to
  counts). One round of the loop that admits a large file looks at the counters and either counts the file in
  or waits for the next round; it is one step here.
\<close>

record large_files =
  lf_large :: int
  lf_small :: int
  lf_retry :: int
  lf_jobs :: "(int \<times> int) list"

definition job_large :: "int \<Rightarrow> large_files \<Rightarrow> int" where
  "job_large job f = (case map_of (lf_jobs f) job of Some n \<Rightarrow> n | None \<Rightarrow> 0)"

definition max_per_job :: "settings \<Rightarrow> large_files \<Rightarrow> int" where
  "max_per_job c f =
     (let jobCount = (if lf_jobs f = [] then 1 else int (length (lf_jobs f)));
          m = go_div (st_maxLarge c) jobCount
      in if m < 1 then 1 else m)"

definition count_large :: "bool \<Rightarrow> int \<Rightarrow> large_files \<Rightarrow> large_files" where
  "count_large retry job f =
     f\<lparr>lf_large := lf_large f + 1, lf_retry := lf_retry f + (if retry then 1 else 0),
       lf_jobs := aset job (job_large job f + 1) (lf_jobs f)\<rparr>"

definition admit_large :: "settings \<Rightarrow> bool \<Rightarrow> int \<Rightarrow> large_files \<Rightarrow> large_files option" where
  "admit_large c retry job f =
     (if \<not> (job_large job f < max_per_job c f \<or> lf_large f < st_maxLarge c) then None
      else if lf_small f = 0
      then (if retry
            then (if lf_retry f < st_maxRetryLarge c then Some (count_large True job f) else None)
            else Some (count_large False job f))
      else if lf_large f < st_maxLarge c then Some (count_large retry job f) else None)"

definition release_large :: "bool \<Rightarrow> int \<Rightarrow> large_files \<Rightarrow> large_files" where
  "release_large retry job f =
     (let f1 = f\<lparr>lf_large := lf_large f - 1, lf_retry := lf_retry f - (if retry then 1 else 0)\<rparr>
      in case map_of (lf_jobs f) job of
           None \<Rightarrow> f1
         | Some n \<Rightarrow> f1\<lparr>lf_jobs := (if n - 1 \<le> 0 then adel job (lf_jobs f) else aset job (n - 1) (lf_jobs f))\<rparr>)"

section \<open>Processing a task\<close>

record work_task =
  wk_ID :: int
  wk_JobID :: int
  wk_Src :: string
  wk_Size :: int
  wk_Status :: string
  wk_RetryCount :: int
  wk_LastRetryTime :: string

record job_info =
  ji_Endpoint :: string
  ji_DstDir :: string
  ji_SrcDir :: string
  ji_DeleteSource :: bool

definition relative_key :: "string \<Rightarrow> string \<Rightarrow> string" where
  "relative_key srcDir srcKey =
     (if srcDir \<noteq> []
      then (if srcKey = srcDir then []
            else if has_prefix srcDir srcKey then trim_prefix ''/'' (trim_prefix srcDir srcKey)
            else srcKey)
      else srcKey)"

definition dst_key :: "string \<Rightarrow> string \<Rightarrow> string \<Rightarrow> string" where
  "dst_key srcDir dstDir srcKey =
     (let rel = relative_key srcDir srcKey
      in if dstDir \<noteq> [] then (if rel = [] then dstDir else trim_suffix ''/'' dstDir @ ''/'' @ rel) else rel)"

text \<open>What the worker posts about a task: the fields it changes. \<open>now\<close> is the formatted time.\<close>

definition updateTaskStatusWithRetry :: "string \<Rightarrow> work_task \<Rightarrow> string \<Rightarrow> work_task" where
  "updateTaskStatusWithRetry now t status =
     (let rc = (if status = ''FAILED'' then wk_RetryCount t + 1
                else if status = ''COMPLETED'' then 0 else wk_RetryCount t);
          lr = (if status = ''FAILED'' then now
                else if status = ''COMPLETED'' then [] else wk_LastRetryTime t)
      in t\<lparr>wk_Status := status, wk_RetryCount := rc, wk_LastRetryTime := lr\<rparr>)"

text \<open>
  What the calls of one run answer: the job, whether the source client is there, the \<^verbatim>\<open>HeadObject\<close> of a
  retry, the destination client, the size of the object if it has to be asked for, the source URL, and the transfer.
\<close>

record run_answers =
  ra_job :: "job_info option"
  ra_client :: bool
  ra_exists :: bool
  ra_dstClient :: bool
  ra_headSize :: "int option"
  ra_srcUrl :: bool
  ra_transfer :: "int \<Rightarrow> string \<Rightarrow> bool"

datatype work_effect = PostUpdate work_task | DeleteObject string | RecordResult bool

definition fail_task :: "string \<Rightarrow> work_task \<Rightarrow> work_effect list" where
  "fail_task now t = [PostUpdate (updateTaskStatusWithRetry now t ''FAILED''), RecordResult False]"

definition tx_transfer :: "string \<Rightarrow> work_task \<Rightarrow> run_answers \<Rightarrow> job_info \<Rightarrow> int \<Rightarrow> work_effect list" where
  "tx_transfer now t A job sz =
     (if \<not> ra_srcUrl A then fail_task now t
      else if \<not> ra_transfer A sz (dst_key (trim_by is_space (ji_SrcDir job)) (trim_by is_space (ji_DstDir job)) (wk_Src t))
      then fail_task now t
      else (if ji_DeleteSource job then [DeleteObject (wk_Src t)] else [])
        @ [PostUpdate (updateTaskStatusWithRetry now t ''COMPLETED''), RecordResult True])"

definition tx_processTask :: "settings \<Rightarrow> string \<Rightarrow> run_answers \<Rightarrow> work_task \<Rightarrow> work_effect list" where
  "tx_processTask c now A t =
     (if wk_RetryCount t \<ge> st_maxRetryCount c
      then [PostUpdate (t\<lparr>wk_Status := ''FAILED'', wk_Src := [], wk_Size := 0\<rparr>), RecordResult False]
      else (case ra_job A of
              None \<Rightarrow> fail_task now t
            | Some job \<Rightarrow>
                if wk_RetryCount t > 0 \<and> ra_client A \<and> \<not> ra_exists A
                then [PostUpdate (updateTaskStatusWithRetry now t ''COMPLETED''), RecordResult True]
                else if \<not> ra_dstClient A then fail_task now t
                else if wk_Size t = 0
                then (case ra_headSize A of
                        None \<Rightarrow> fail_task now t
                      | Some sz \<Rightarrow> tx_transfer now t A job sz)
                else tx_transfer now t A job (wk_Size t)))"

text \<open>The transfer itself: below the threshold one call of the service, otherwise a multipart upload that ends in
the state \<open>u\<close>. The result is the error.\<close>

definition tx_transferFile :: "int \<Rightarrow> string + string \<Rightarrow> string option \<Rightarrow> string option \<Rightarrow> part_upload \<Rightarrow> int
    \<Rightarrow> s3_call list \<times> string option" where
  "tx_transferFile threshold single create finish_err u sz =
     (if sz < threshold then ([], case single of Inl e \<Rightarrow> Some e | Inr _ \<Rightarrow> None)
      else (case create of Some e \<Rightarrow> ([], Some e) | None \<Rightarrow> tx_finish finish_err u))"

section \<open>Retry scanner\<close>

text \<open>\<open>parse\<close> is \<^verbatim>\<open>time.Parse\<close> of RFC 3339, in nanoseconds.\<close>

definition retry_delay :: "settings \<Rightarrow> int \<Rightarrow> int" where
  "retry_delay c n =
     (if n < 30 then st_retryBaseDelay c * 2 ^ nat n * second else st_retryBaseDelay c * 1073741824 * second)"

definition shouldRetryTask :: "settings \<Rightarrow> (string \<Rightarrow> int option) \<Rightarrow> int \<Rightarrow> work_task \<Rightarrow> bool" where
  "shouldRetryTask c parse now t =
     (if wk_RetryCount t \<ge> st_maxRetryCount c then False
      else if wk_LastRetryTime t = [] then True
      else (case parse (wk_LastRetryTime t) of
              None \<Rightarrow> True
            | Some l \<Rightarrow> now > l + retry_delay c (wk_RetryCount t)))"

text \<open>One tick: the tasks to reset, in order.\<close>

definition retry_tick :: "settings \<Rightarrow> (string \<Rightarrow> int option) \<Rightarrow> int \<Rightarrow> work_task list option \<Rightarrow> int list" where
  "retry_tick c parse now tasks =
     (case tasks of None \<Rightarrow> [] | Some ts \<Rightarrow> map wk_ID (filter (shouldRetryTask c parse now) ts))"

end
