(* ===== verification/TransferWorkerFacts.thy ===== *)
theory TransferWorkerFacts
  imports TransferWorker
begin

text \<open>
  Facts of the transfer worker: time limits, the exactness of the slot counter and how it drifts when
  the number of slots changes in between, the bounds of the adaptive control, destination keys, and what
  a run reports.
\<close>

section \<open>Time limits\<close>

lemma dynamic_timeout_bounds:
  assumes "0 < sz" "st_minTimeout c \<le> st_maxTimeout c"
  shows "st_minTimeout c * second \<le> calculateDynamicTimeout c sz n
    \<and> calculateDynamicTimeout c sz n \<le> st_maxTimeout c * second"
  using assms by (auto simp: calculateDynamicTimeout_def Let_def second_def)

text \<open>With the default settings an object of 100 GB gets its whole time at the first retry and the minimal
time at the thirtieth: the doubled time no longer fits the type.\<close>

lemma late_retry_timeout_collapses:
  "calculateDynamicTimeout (load_settings (\<lambda>v. [])) 100000000000 1 = 10800 * second
   \<and> calculateDynamicTimeout (load_settings (\<lambda>v. [])) 100000000000 30 = 30 * second"
  by code_simp

section \<open>Slots\<close>

text \<open>As long as the effective number stays, the counter is the number of workers that hold a slot or are
asking for one.\<close>

definition busy :: "slots \<Rightarrow> nat" where
  "busy s = length (filter (\<lambda>w. w \<noteq> Idle) (sl_workers s))"

definition compared_ok :: "slots \<Rightarrow> bool" where
  "compared_ok s = (\<forall>r a. Compared r a \<in> set (sl_workers s) \<longrightarrow> r = (a \<le> sl_effective s))"

lemma filter_update:
  assumes "i < length xs" "P x" "\<not> P (xs ! i)"
  shows "length (filter P (xs[i := x])) = length (filter P xs) + 1"
proof -
  have "xs = take i xs @ xs ! i # drop (Suc i) xs" using assms(1) by (rule id_take_nth_drop)
  then have "length (filter P xs) = length (filter P (take i xs @ xs ! i # drop (Suc i) xs))" by simp
  then show ?thesis using assms by (simp add: upd_conv_take_nth_drop)
qed

lemma filter_update_off:
  assumes "i < length xs" "\<not> P x" "P (xs ! i)"
  shows "length (filter P xs) = length (filter P (xs[i := x])) + 1"
  using filter_update [of i "xs[i := x]" P "xs ! i"] assms by simp

lemma filter_update_same:
  assumes "i < length xs" "P x = P (xs ! i)"
  shows "length (filter P (xs[i := x])) = length (filter P xs)"
proof -
  have "xs = take i xs @ xs ! i # drop (Suc i) xs" using assms(1) by (rule id_take_nth_drop)
  then have "length (filter P xs) = length (filter P (take i xs @ xs ! i # drop (Suc i) xs))" by simp
  then show ?thesis using assms by (simp add: upd_conv_take_nth_drop)
qed

lemma slot_step_exact:
  "slot_step s s' \<Longrightarrow> sl_active s = int (busy s) \<and> compared_ok s \<Longrightarrow>
     sl_active s' = int (busy s') \<and> compared_ok s'"
proof (induction rule: slot_step.induct)
  case (SlotAdd i s)
  then show ?case
    using filter_update [of i "sl_workers s" "\<lambda>w. w \<noteq> Idle" "Counted (sl_active s + 1)"]
    by (auto simp: busy_def compared_ok_def dest: set_update_subset_insert [THEN subsetD])
next
  case (SlotCompare i s a)
  then show ?case
    using filter_update_same [of i "sl_workers s" "\<lambda>w. w \<noteq> Idle" "Compared (a \<le> sl_effective s) a"]
    by (auto simp: busy_def compared_ok_def dest!: set_update_subset_insert [THEN subsetD])
next
  case (SlotDeferred i s r a)
  have "r = (a \<le> sl_effective s)"
    using SlotDeferred unfolding compared_ok_def by (metis nth_mem)
  moreover have "compared_ok (s\<lparr>sl_active := x, sl_workers := (sl_workers s)[i := (if r then Holding else Idle)]\<rparr>)" for x
    using SlotDeferred by (auto simp: compared_ok_def dest!: set_update_subset_insert [THEN subsetD])
  ultimately show ?case
    using SlotDeferred filter_update_same [of i "sl_workers s" "\<lambda>w. w \<noteq> Idle" Holding]
      filter_update_off [of i "sl_workers s" "\<lambda>w. w \<noteq> Idle" Idle]
    by (cases r) (auto simp: busy_def)
next
  case (SlotRelease i s)
  then show ?case
    using filter_update_off [of i "sl_workers s" "\<lambda>w. w \<noteq> Idle" Idle]
    by (auto simp: busy_def compared_ok_def dest!: set_update_subset_insert [THEN subsetD])
qed

lemma slots_exact:
  "slot_step\<^sup>*\<^sup>* (start_slots n e) s \<Longrightarrow> sl_active s = int (busy s) \<and> compared_ok s"
  by (induction rule: rtranclp_induct)
    (auto simp: start_slots_def busy_def compared_ok_def dest: slot_step_exact [unfolded busy_def compared_ok_def])

lemma slots_exact_idle:
  "slot_step\<^sup>*\<^sup>* (start_slots n e) s \<Longrightarrow> set (sl_workers s) \<subseteq> {Idle} \<Longrightarrow> sl_active s = 0"
  using slots_exact [of n e s] by (auto simp: busy_def filter_empty_conv subset_iff)

text \<open>When the controller changes the number between the two comparisons of one worker, a refused worker
stays counted for ever, and a worker that got a slot is not counted.\<close>

lemma slots_leak:
  "slot_or_adjust\<^sup>*\<^sup>* (start_slots 1 0) \<lparr>sl_active = 1, sl_effective = 1, sl_workers = [Idle]\<rparr>"
proof -
  have "slot_or_adjust (start_slots 1 0) \<lparr>sl_active = 1, sl_effective = 0, sl_workers = [Counted 1]\<rparr>"
    using SlotStep [OF SlotAdd [of 0 "start_slots 1 0"]] by (simp add: start_slots_def)
  moreover have "slot_or_adjust \<lparr>sl_active = 1, sl_effective = 0, sl_workers = [Counted 1]\<rparr>
      \<lparr>sl_active = 1, sl_effective = 0, sl_workers = [Compared False 1]\<rparr>"
    using SlotStep [OF SlotCompare [of 0 "\<lparr>sl_active = 1, sl_effective = 0, sl_workers = [Counted 1]\<rparr>" 1]] by simp
  moreover have "slot_or_adjust \<lparr>sl_active = 1, sl_effective = 0, sl_workers = [Compared False 1]\<rparr>
      \<lparr>sl_active = 1, sl_effective = 1, sl_workers = [Compared False 1]\<rparr>"
    using SlotAdjust [of "\<lparr>sl_active = 1, sl_effective = 0, sl_workers = [Compared False 1]\<rparr>" 1] by simp
  moreover have "slot_or_adjust \<lparr>sl_active = 1, sl_effective = 1, sl_workers = [Compared False 1]\<rparr>
      \<lparr>sl_active = 1, sl_effective = 1, sl_workers = [Idle]\<rparr>"
    using SlotStep [OF SlotDeferred [of 0 "\<lparr>sl_active = 1, sl_effective = 1, sl_workers = [Compared False 1]\<rparr>" False 1]] by simp
  ultimately show ?thesis by (meson rtranclp.rtrancl_refl rtranclp.rtrancl_into_rtrancl)
qed

lemma slots_uncounted:
  "slot_or_adjust\<^sup>*\<^sup>* (start_slots 1 1) \<lparr>sl_active = 0, sl_effective = 0, sl_workers = [Holding]\<rparr>"
proof -
  have "slot_or_adjust (start_slots 1 1) \<lparr>sl_active = 1, sl_effective = 1, sl_workers = [Counted 1]\<rparr>"
    using SlotStep [OF SlotAdd [of 0 "start_slots 1 1"]] by (simp add: start_slots_def)
  moreover have "slot_or_adjust \<lparr>sl_active = 1, sl_effective = 1, sl_workers = [Counted 1]\<rparr>
      \<lparr>sl_active = 1, sl_effective = 1, sl_workers = [Compared True 1]\<rparr>"
    using SlotStep [OF SlotCompare [of 0 "\<lparr>sl_active = 1, sl_effective = 1, sl_workers = [Counted 1]\<rparr>" 1]] by simp
  moreover have "slot_or_adjust \<lparr>sl_active = 1, sl_effective = 1, sl_workers = [Compared True 1]\<rparr>
      \<lparr>sl_active = 1, sl_effective = 0, sl_workers = [Compared True 1]\<rparr>"
    using SlotAdjust [of "\<lparr>sl_active = 1, sl_effective = 1, sl_workers = [Compared True 1]\<rparr>" 0] by simp
  moreover have "slot_or_adjust \<lparr>sl_active = 1, sl_effective = 0, sl_workers = [Compared True 1]\<rparr>
      \<lparr>sl_active = 0, sl_effective = 0, sl_workers = [Holding]\<rparr>"
    using SlotStep [OF SlotDeferred [of 0 "\<lparr>sl_active = 1, sl_effective = 0, sl_workers = [Compared True 1]\<rparr>" True 1]] by simp
  ultimately show ?thesis by (meson rtranclp.rtrancl_refl rtranclp.rtrancl_into_rtrancl)
qed

text \<open>Of the part slots, the count is the number of tokens in the semaphores, whatever the answer.\<close>

lemma part_slot_exact:
  assumes "acquirePartSlot True effective cap (a, n) = ((a', n'), r)"
  shows "a' - n' = a - n" "r \<Longrightarrow> a' \<le> effective \<and> n' \<le> cap" "r \<longleftrightarrow> n' = n + 1"
  using assms by (auto simp: acquirePartSlot_def Let_def split: if_splits)

lemma part_slot_release: "releasePartSlot True (a, n) = (a', n') \<Longrightarrow> a' - n' = a - n"
  by (auto simp: releasePartSlot_def)

section \<open>Adaptive concurrency\<close>

text \<open>What is used of \<^verbatim>\<open>float64\<close>: rounding is monotone and keeps the halves of integers below
\<open>2 ^ 53\<close>.\<close>

definition sound_rounding :: "(rat \<Rightarrow> rat) \<Rightarrow> bool" where
  "sound_rounding fl = (mono fl \<and> (\<forall>n. \<bar>n\<bar> \<le> 2 ^ 53 \<longrightarrow> fl (of_int n / 2) = of_int n / 2))"

definition limits_ok :: "limits \<Rightarrow> bool" where
  "limits_ok l = (1 \<le> lm_min l \<and> lm_min l \<le> lm_max l \<and> lm_max l < 2 ^ 31 \<and> 1 \<le> lm_parts l \<and> lm_parts l < 2 ^ 31
     \<and> 0 \<le> lm_factor l \<and> lm_factor l \<le> 1 \<and> 1 \<le> lm_step l)"

definition adaptive_ok :: "limits \<Rightarrow> adaptive \<Rightarrow> bool" where
  "adaptive_ok l a = (lm_min l \<le> ad_effective a \<and> ad_effective a \<le> lm_max l \<and> 1 \<le> ad_parts a \<and> ad_parts a \<le> lm_parts l)"

lemma rounding_half: "sound_rounding fl \<Longrightarrow> \<bar>n\<bar> \<le> 2 ^ 53 \<Longrightarrow> fl (of_int n / 2) = of_int n / 2"
  by (simp add: sound_rounding_def)

lemma rounding_mono: "sound_rounding fl \<Longrightarrow> x \<le> y \<Longrightarrow> fl x \<le> fl y"
  by (simp add: sound_rounding_def mono_def)

lemma rounding_le_int:
  assumes "sound_rounding fl" "x \<le> of_int n" "\<bar>n\<bar> \<le> 2 ^ 52"
  shows "fl x \<le> of_int n"
proof -
  have "(of_int (2 * n) / 2 :: rat) = of_int n" by simp
  moreover have "\<bar>2 * n\<bar> \<le> 2 ^ 53" using assms(3) by simp
  ultimately have "fl (of_int n) = of_int n" using rounding_half [OF assms(1), of "2 * n"] by simp
  then show ?thesis using rounding_mono [OF assms(1,2)] by simp
qed

lemma rounding_le_half:
  assumes "sound_rounding fl" "x \<le> of_int n + 1 / 2" "\<bar>n\<bar> \<le> 2 ^ 51"
  shows "fl x \<le> of_int n + 1 / 2"
proof -
  have h: "(of_int (2 * n + 1) / 2 :: rat) = of_int n + 1 / 2" by simp
  moreover have "\<bar>2 * n + 1\<bar> \<le> 2 ^ 53" using assms(3) by simp
  ultimately have "fl (of_int n + 1 / 2) = of_int n + 1 / 2" using rounding_half [OF assms(1), of "2 * n + 1"] by (simp only: h)
  then show ?thesis using rounding_mono [OF assms(1,2)] by simp
qed

lemma scaled_down:
  assumes "sound_rounding fl" "0 \<le> f" "f \<le> 1" "0 \<le> n" "n < 2 ^ 31"
  shows "\<lfloor>fl (of_int n * f)\<rfloor> \<le> n"
proof -
  have "of_int n * f \<le> of_int n" using assms(3,4) by (simp add: mult_left_le)
  then have "fl (of_int n * f) \<le> of_int n" using rounding_le_int [OF assms(1)] assms(4,5) by simp
  then show ?thesis by (simp add: floor_le_iff)
qed

lemma adaptive_ok_set:
  assumes "adaptive_ok l a" "lm_min l \<le> n" "n \<le> lm_max l" "1 \<le> p" "p \<le> lm_parts l"
  shows "adaptive_ok l (a\<lparr>ad_effective := n, ad_parts := p\<rparr>)"
    "adaptive_ok l (a\<lparr>ad_lastDecrease := t, ad_effective := n, ad_parts := p\<rparr>)"
  using assms by (simp_all add: adaptive_ok_def)

lemma at_least: "(x::int) \<le> y \<Longrightarrow> m \<le> y \<Longrightarrow> m \<le> (if x < m then m else x) \<and> (if x < m then m else x) \<le> y"
  by simp

lemma if_pred: "Q x \<Longrightarrow> Q y \<Longrightarrow> Q (if c then x else y)"
  by simp

lemma decrease_ok:
  assumes fl: "sound_rounding fl" and l: "limits_ok l" and a: "adaptive_ok l a"
  shows "adaptive_ok l (decrease fl l now k a)"
proof -
  define f where "f = (if k \<ge> 2 then 2 / 5 else lm_factor l)"
  have f: "0 \<le> f" "f \<le> 1" using l by (auto simp: limits_ok_def f_def)
  have r: "0 \<le> ad_effective a" "ad_effective a < 2 ^ 31" "0 \<le> lm_parts l" "lm_parts l < 2 ^ 31"
    "ad_effective a \<le> lm_max l" "lm_min l \<le> lm_max l" "1 \<le> lm_parts l"
    using l a by (auto simp: limits_ok_def adaptive_ok_def)
  have e: "\<lfloor>fl (of_int (ad_effective a) * f)\<rfloor> \<le> lm_max l" using scaled_down [OF fl f r(1,2)] r(5) by simp
  note n = at_least [OF e r(6)] and p = at_least [OF scaled_down [OF fl f r(3,4)] r(7)]
  note ok = adaptive_ok_set(2) [OF a conjunct1 [OF n] conjunct2 [OF n] conjunct1 [OF p] conjunct2 [OF p], of now]
  show ?thesis unfolding decrease_def Let_def f_def [symmetric]
    by (rule if_pred [where Q = "adaptive_ok l"]) (rule ok, rule a)
qed

lemma increase_ok:
  assumes fl: "sound_rounding fl" and l: "limits_ok l" and a: "adaptive_ok l a"
  shows "adaptive_ok l (increase fl l since a)"
proof -
  define P where "P n = \<lfloor>fl (fl (of_int (lm_parts l) * fl (of_int n / of_int (lm_max l))) + 1 / 2)\<rfloor>" for n
  have m: "0 < lm_max l" "1 \<le> lm_parts l" "lm_parts l < 2 ^ 31" "1 \<le> lm_step l" using l by (auto simp: limits_ok_def)
  have parts: "P n \<le> lm_parts l" if "n \<le> lm_max l" for n
  proof -
    have "(of_int n / of_int (lm_max l) :: rat) \<le> of_int 1" using that m by (simp add: divide_le_eq)
    then have q: "fl (of_int n / of_int (lm_max l)) \<le> 1" using rounding_le_int [OF fl, of _ 1] by simp
    have "of_int (lm_parts l) * fl (of_int n / of_int (lm_max l)) \<le> of_int (lm_parts l)"
      using mult_left_mono [OF q, of "of_int (lm_parts l)"] m by simp
    then have "fl (of_int (lm_parts l) * fl (of_int n / of_int (lm_max l))) \<le> of_int (lm_parts l)"
      using rounding_le_int [OF fl] m by simp
    then have "fl (fl (of_int (lm_parts l) * fl (of_int n / of_int (lm_max l))) + 1 / 2) \<le> of_int (lm_parts l) + 1 / 2"
      using rounding_le_half [OF fl] m by simp
    then show ?thesis unfolding P_def by linarith
  qed
  define step where "step = (if since < of_int (lm_cooldown l) then 1
      else if ad_effective a < go_div (lm_max l * 2) 3 then lm_step l * 2 else lm_step l)"
  define n where "n = (if ad_effective a + step > lm_max l then lm_max l else ad_effective a + step)"
  have "0 < step" using m by (simp add: step_def)
  then have n: "lm_min l \<le> n" "n \<le> lm_max l" using a l by (auto simp: n_def adaptive_ok_def limits_ok_def)
  have p: "1 \<le> (if P n < 1 then 1 else P n)" "(if P n < 1 then 1 else P n) \<le> lm_parts l"
    using parts [OF n(2)] m by simp_all
  have "increase fl l since a = (if ad_effective a < lm_max l \<and> n \<noteq> ad_effective a
      then a\<lparr>ad_effective := n, ad_parts := (if P n < 1 then 1 else P n)\<rparr> else a)"
    unfolding increase_def Let_def step_def [symmetric] n_def [symmetric] P_def [symmetric] by simp
  then show ?thesis using adaptive_ok_set(1) [OF a n p] a by simp
qed

text \<open>Every adjustment keeps the number of workers between its bounds and at least one part slot.\<close>

lemma adjustConcurrency_ok:
  assumes "sound_rounding fl" "limits_ok l" "adaptive_ok l a"
  shows "adaptive_ok l (adjustConcurrency fl l now a)"
proof -
  have r: "adaptive_ok l (reset_window b) = adaptive_ok l b" for b
    by (simp add: adaptive_ok_def reset_window_def)
  show ?thesis
    using decrease_ok [OF assms] increase_ok [OF assms] assms(3) by (simp add: adjustConcurrency_def Let_def r)
qed

lemma latencies_bounded:
  "length (ad_latencies a) \<le> nat (lm_samples l) \<Longrightarrow> length (ad_latencies (recordTransferLatency l ms a)) \<le> nat (lm_samples l)"
  by (auto simp: recordTransferLatency_def Let_def)

section \<open>Large files\<close>

text \<open>With no small file under way, the first attempt of a job without large files is always admitted: the
limit of the whole worker does not hold.\<close>

lemma unlimited_mode:
  assumes "lf_small f = 0" "job_large job f = 0"
  shows "admit_large c False job f = Some (count_large False job f)"
proof -
  have "0 < max_per_job c f" by (simp add: max_per_job_def Let_def)
  then show ?thesis using assms by (simp add: admit_large_def)
qed

text \<open>While small files are under way the worker keeps to its limit; below it the share of a job plays no part.\<close>

lemma limited_mode:
  assumes "lf_small f \<noteq> 0"
  shows "admit_large c retry job f =
    (if lf_large f < st_maxLarge c then Some (count_large retry job f) else None)"
  using assms by (auto simp: admit_large_def)

lemma aset_same: "map_of xs k = Some v \<Longrightarrow> aset k v (aset k w xs) = xs"
  by (induction k w xs rule: aset.induct) auto

lemma adel_aset_new: "map_of xs k = None \<Longrightarrow> adel k (aset k v xs) = xs"
  by (induction k v xs rule: aset.induct) (auto split: if_splits)

text \<open>Counting a file in and out again leaves the counters as they were; a job with no file has no entry.\<close>

lemma release_count:
  assumes "\<forall>n. map_of (lf_jobs f) job = Some n \<longrightarrow> 0 < n"
  shows "release_large retry job (count_large retry job f) = f"
proof (cases "map_of (lf_jobs f) job")
  case None
  then show ?thesis by (simp add: release_large_def count_large_def job_large_def adel_aset_new)
next
  case (Some n)
  then show ?thesis using assms by (simp add: release_large_def count_large_def job_large_def aset_same)
qed

section \<open>Keys and reports\<close>

lemma dst_key_below:
  assumes "srcDir \<noteq> []" "dstDir \<noteq> []" "r \<noteq> []"
  shows "dst_key srcDir dstDir (srcDir @ ''/'' @ r) = trim_suffix ''/'' dstDir @ ''/'' @ r"
proof -
  have "trim_prefix ''/'' (''/'' @ r) = r" by (rule trim_prefix_append)
  then show ?thesis using assms by (simp add: dst_key_def relative_key_def Let_def)
qed

text \<open>Below the source directory different objects get different keys; an object whose key only begins with
the letters of the directory can get the key of another one.\<close>

lemma dst_key_injective:
  assumes "srcDir \<noteq> []" "dstDir \<noteq> []" "r1 \<noteq> []" "r2 \<noteq> []"
    "dst_key srcDir dstDir (srcDir @ ''/'' @ r1) = dst_key srcDir dstDir (srcDir @ ''/'' @ r2)"
  shows "r1 = r2"
  using assms(5) unfolding dst_key_below [OF assms(1,2,3)] dst_key_below [OF assms(1,2,4)] by simp

lemma dst_key_collision: "dst_key ''raw'' ''out'' ''raw/x'' = dst_key ''raw'' ''out'' ''rawx''"
  by code_simp

lemma run_posts_once:
  "\<exists>u. [e \<leftarrow> tx_processTask c now A t. \<exists>u. e = PostUpdate u] = [PostUpdate u]
     \<and> wk_ID u = wk_ID t \<and> wk_JobID u = wk_JobID t \<and> wk_Status u \<in> {''FAILED'', ''COMPLETED''}"
  by (auto simp: tx_processTask_def tx_transfer_def fail_task_def updateTaskStatusWithRetry_def Let_def
      split: option.split)

lemma source_deleted_after_transfer:
  assumes "DeleteObject k \<in> set (tx_processTask c now A t)"
  shows "k = wk_Src t \<and> (\<exists>sz dst. ra_transfer A sz dst)"
  using assms
  by (auto simp: tx_processTask_def tx_transfer_def fail_task_def Let_def split: option.splits if_splits)

text \<open>Any error of the check of a retry, not only a missing object, is taken as success.\<close>

lemma retry_head_error_completes:
  assumes "0 < wk_RetryCount t" "wk_RetryCount t < st_maxRetryCount c" "ra_job A = Some job" "ra_client A" "\<not> ra_exists A"
  shows "tx_processTask c now A t =
    [PostUpdate (t\<lparr>wk_Status := ''COMPLETED'', wk_RetryCount := 0, wk_LastRetryTime := []\<rparr>), RecordResult True]"
  using assms by (simp add: tx_processTask_def updateTaskStatusWithRetry_def)

end
