(* ===== verification/RetryLife.thy ===== *)
theory RetryLife
  imports TransferWorkFacts TransferWorkerFacts
begin

text \<open>
  A transfer task between the backend and the worker: what a run of the worker posts, what the merge of the
  backend makes of it, and what the retry scanner then decides. The functions are those of the two programs; the
  messages between them are their common fields. A document may change between the hand-out of a copy and the
  merge of its report, so the facts speak of the copy and of the document as it is then.
\<close>

section \<open>Messages\<close>

definition to_work :: "transfer_task \<Rightarrow> work_task" where
  "to_work t = \<lparr>wk_ID = tt_ID t, wk_JobID = tt_JobID t, wk_Src = tt_Src t, wk_Size = tt_Size t,
     wk_Status = tt_Status t, wk_RetryCount = tt_RetryCount t, wk_LastRetryTime = tt_LastRetryTime t\<rparr>"

definition of_work :: "work_task \<Rightarrow> transfer_task" where
  "of_work u = TransferTask0
     \<lparr>tt_ID := wk_ID u, tt_JobID := wk_JobID u, tt_Src := wk_Src u, tt_Size := wk_Size u, tt_Status := wk_Status u,
      tt_RetryCount := wk_RetryCount u, tt_LastRetryTime := wk_LastRetryTime u\<rparr>"

section \<open>What a run posts\<close>

lemma post_cases:
  assumes "PostUpdate u \<in> set (tx_processTask c stamp A t)" "wk_RetryCount t < st_maxRetryCount c"
  shows "u = updateTaskStatusWithRetry stamp t ''FAILED'' \<or> u = updateTaskStatusWithRetry stamp t ''COMPLETED''"
  using assms
  by (auto simp: tx_processTask_def tx_transfer_def fail_task_def Let_def split: option.splits if_splits)

lemma merged_post:
  assumes "u = updateTaskStatusWithRetry stamp (to_work d) s" "0 \<le> tt_RetryCount d"
  shows "s = ''FAILED'' \<Longrightarrow> tt_Status (merge_tx (of_work u) d) = ''FAILED''
      \<and> tt_RetryCount (merge_tx (of_work u) d) = tt_RetryCount d + 1 \<and> tt_ID (merge_tx (of_work u) d) = tt_ID d"
    "s = ''COMPLETED'' \<Longrightarrow> tt_Status (merge_tx (of_work u) d) = ''COMPLETED''
      \<and> tt_RetryCount (merge_tx (of_work u) d) = 0 \<and> tt_ID (merge_tx (of_work u) d) = tt_ID d"
  using assms by (auto simp: updateTaskStatusWithRetry_def of_work_def to_work_def merge_tx_def TransferTask0_def Let_def)

section \<open>Attempts and retries\<close>

text \<open>
  The counter of the document is the counter of the copy that was run, plus one for a failure, whatever the
  document held when the report arrived.
\<close>

lemma run_counts_the_copy:
  assumes "PostUpdate u \<in> set (tx_processTask c stamp A t)" "wk_RetryCount t < st_maxRetryCount c"
    and "0 \<le> wk_RetryCount t"
  shows "(tt_Status (merge_tx (of_work u) d) = ''FAILED''
        \<and> tt_RetryCount (merge_tx (of_work u) d) = wk_RetryCount t + 1)
    \<or> (tt_Status (merge_tx (of_work u) d) = ''COMPLETED'' \<and> tt_RetryCount (merge_tx (of_work u) d) = 0)"
  using post_cases [OF assms(1,2)] assms(3)
  by (auto simp: updateTaskStatusWithRetry_def of_work_def merge_tx_def TransferTask0_def Let_def)

text \<open>
  The channel holds copies, and a hand-out does not look at the document: whatever is stored, also a completed
  task, becomes the copy, RUNNING and with the counter that the copy had. A task that was queued twice runs again
  after it has completed.
\<close>

lemma handed_copy_overwrites_document:
  assumes "svc_up S" "tt_Status t = ''PENDING''"
  shows "w_redis (fst (markTransferTasksRunning S [t] wk w)) (tx_key_of S w t)
      = Some (RS (TxDoc (running_task (w_now w) wk t)))"
    and "tt_Status (running_task (w_now w) wk t) = ''RUNNING''"
    and "tt_RetryCount (running_task (w_now w) wk t) = tt_RetryCount t"
  using mark_running_spec [of S "[t]" wk w] assms by (auto simp: running_task_def rrun_Cons)

text \<open>The backoff between attempts never applies: the rows the scanner asks for never carry the time of the
last attempt, which no upsert writes.\<close>

lemma backoff_never_applies:
  assumes "tt_LastRetryTime r = []"
  shows "shouldRetryTask c parse now (to_work r) \<longleftrightarrow> tt_RetryCount r < st_maxRetryCount c"
  using assms by (auto simp: shouldRetryTask_def to_work_def)

lemma rows_without_retry_time:
  assumes "\<forall>r\<in>set rows. tt_LastRetryTime r = []"
  shows "\<forall>r\<in>set (upsert_reported now (tx_row now d) rows). tt_LastRetryTime r = []"
    "\<forall>r\<in>set (upsert_reset now d rows). tt_LastRetryTime r = []"
    "\<forall>r\<in>set (upsert_running now d rows). tt_LastRetryTime r = []"
  using assms
  by (auto simp: upsert_reported_def upsert_reset_def upsert_running_def upsert_def set_update_where
      tx_created_def tx_row_def reset_row_def running_row_def TransferTask0_def)

text \<open>A second report of a failure with the counter at zero - from a caller that does not count - sets the
counter of a failed document back.\<close>

lemma repeated_report_resets_count:
  assumes "tt_Status d = ''FAILED''" "tt_RetryCount u = 0" "tt_Status u = ''FAILED''"
  shows "tt_RetryCount (merge_tx u d) = 0"
  using assms by (simp add: merge_tx_def)

end
