(* ===== verification/CopyTool.thy ===== *)
theory CopyTool
  imports Multipart Endpoints "HOL-Library.Char_ord" "HOL-Library.List_Lexorder"
begin

text \<open>
  The copy tool \<^verbatim>\<open>r2-worker/r2s3.go\<close>: listing a location, comparing the two listings in one pass, and
  copying an object. Keys are ordered byte by byte (the order of strings that the library theories give). S3
  and the copy service are arguments.
\<close>

section \<open>Listing\<close>

record object =
  ob_Key :: string
  ob_RelKey :: string
  ob_Size :: int
  ob_ETag :: string

text \<open>The name of an object below the prefix of its location.\<close>

definition rel_key :: "string \<Rightarrow> string \<Rightarrow> string" where
  "rel_key prefix k =
     (if prefix \<noteq> []
      then (if k = prefix then rev (takeWhile (\<lambda>c. c \<noteq> CHR ''/'') (rev k))
            else if has_prefix prefix k then trim_prefix ''/'' (trim_prefix prefix k) else k)
      else k)"

definition clean_etag :: "string option \<Rightarrow> string" where
  "clean_etag e = (case e of None \<Rightarrow> [] | Some t \<Rightarrow> map to_lower (trim_by (\<lambda>c. c = CHR 0x22) t))"

text \<open>Items are key, size and etag; a page that fails ends the listing.\<close>

fun listObjects :: "string \<Rightarrow> (string \<times> int \<times> string option) list option list \<Rightarrow> object list" where
  "listObjects prefix [] = []"
| "listObjects prefix (None # pages) = []"
| "listObjects prefix (Some items # pages) =
     map (\<lambda>(k, n, e). \<lparr>ob_Key = k, ob_RelKey = rel_key prefix k, ob_Size = n, ob_ETag = clean_etag e\<rparr>)
       (filter (\<lambda>(k, _). \<not> has_suffix ''/'' k) items) @ listObjects prefix pages"

section \<open>Comparing\<close>

text \<open>The objects to copy, and the keys to delete at the source. The head of the second list is the object
\<^verbatim>\<open>dstObj\<close> of the loop.\<close>

fun sync_loop :: "bool \<Rightarrow> object list \<Rightarrow> object list \<Rightarrow> object list \<times> string list" where
  "sync_loop del [] ds = ([], [])"
| "sync_loop del (s # ss) ds =
     (let ds1 = dropWhile (\<lambda>d. ob_RelKey d < ob_RelKey s) ds
      in if ds1 \<noteq> [] \<and> ob_RelKey (hd ds1) = ob_RelKey s
         then (let (jobs, gone) = sync_loop del ss (tl ds1)
               in if ob_Size (hd ds1) = ob_Size s
                  then (jobs, if del then ob_Key s # gone else gone)
                  else (s # jobs, gone))
         else (let (jobs, gone) = sync_loop del ss ds1 in (s # jobs, gone)))"

section \<open>Copying\<close>

definition dst_object_key :: "string \<Rightarrow> object \<Rightarrow> string" where
  "dst_object_key prefix ob = (if prefix \<noteq> [] then trim_prefix ''/'' (prefix @ ob_RelKey ob) else ob_RelKey ob)"

text \<open>The URL of an object; a location without endpoint makes the tool panic.\<close>

definition object_url :: "S3Config \<Rightarrow> string \<Rightarrow> string option" where
  "object_url cfg k =
     (if s3_Endpoint cfg = [] then None
      else map_option (\<lambda>u. ur_Scheme u @ ''://'' @ s3_Bucket cfg @ ''.'' @ ur_Host u @ ''/'' @ k)
             (parse_url (s3_Endpoint cfg)))"

datatype copy_action = CopyDirect string string | Multipart string "s3_call list" | DeleteSrc string | CopyFailed

text \<open>\<open>single\<close>: the outcomes of the calls for a small object; \<open>part_calls\<close>: those of a part; \<open>create\<close> and
\<open>finish_err\<close>: the errors of the first and last call of the upload.\<close>

definition process_object :: "S3Config \<Rightarrow> S3Config \<Rightarrow> bool \<Rightarrow> (nat \<Rightarrow> string + string) \<Rightarrow> (part \<Rightarrow> nat \<Rightarrow> string + string)
    \<Rightarrow> part list \<Rightarrow> string option \<Rightarrow> string option \<Rightarrow> object \<Rightarrow> copy_action list option" where
  "process_object src dst del single part_calls order create finish_err ob =
     (case (object_url src (ob_Key ob), object_url dst (dst_object_key (s3_Prefix dst) ob)) of
        (Some r2Key, Some s3Url) \<Rightarrow>
          Some (let gone = (if del then [DeleteSrc (ob_Key ob)] else [])
                in if ob_Size ob < defaultPartSize
                   then (case try_calls single 0 3 of
                           Inl _ \<Rightarrow> [CopyFailed]
                         | Inr _ \<Rightarrow> CopyDirect r2Key s3Url # gone)
                   else (case create of
                           Some _ \<Rightarrow> [CopyFailed]
                         | None \<Rightarrow>
                             (case r2_multipart (\<lambda>p. try_calls (part_calls p) 0 3) order finish_err (ob_Size ob) of
                                (calls, None) \<Rightarrow> Multipart s3Url calls # gone
                              | (calls, Some _) \<Rightarrow> [Multipart s3Url calls, CopyFailed])))
      | _ \<Rightarrow> None)"

section \<open>Facts\<close>

text \<open>An object as it is listed below a prefix.\<close>

definition obj :: "string \<Rightarrow> string \<Rightarrow> int \<Rightarrow> object" where
  "obj prefix k n = \<lparr>ob_Key = k, ob_RelKey = rel_key prefix k, ob_Size = n, ob_ETag = []\<rparr>"

text \<open>What the comparison is for: an object is there when the destination has one of the same name and size.\<close>

definition present :: "object list \<Rightarrow> object \<Rightarrow> bool" where
  "present ds s = (\<exists>d\<in>set ds. ob_RelKey d = ob_RelKey s \<and> ob_Size d = ob_Size s)"

definition by_name :: "object list \<Rightarrow> bool" where
  "by_name obs = sorted_wrt (<) (map ob_RelKey obs)"

lemma dropWhile_names:
  assumes "by_name ds"
  shows "by_name (dropWhile (\<lambda>d. ob_RelKey d < k) ds)"
    "set (dropWhile (\<lambda>d. ob_RelKey d < k) ds) = {d \<in> set ds. \<not> ob_RelKey d < k}"
proof -
  show "by_name (dropWhile (\<lambda>d. ob_RelKey d < k) ds)"
    using assms by (induction ds) (auto simp: by_name_def)
  show "set (dropWhile (\<lambda>d. ob_RelKey d < k) ds) = {d \<in> set ds. \<not> ob_RelKey d < k}"
    using assms
  proof (induction ds)
    case (Cons d ds)
    then show ?case by (auto simp: by_name_def)
  qed simp
qed

lemma present_dropWhile:
  assumes "by_name ds" "\<not> ob_RelKey s' < k"
  shows "present (dropWhile (\<lambda>d. ob_RelKey d < k) ds) s' = present ds s'"
  using assms by (auto simp: present_def dropWhile_names(2))

lemma present_Cons: "ob_RelKey d \<noteq> ob_RelKey s \<Longrightarrow> present (d # ds) s = present ds s"
  by (auto simp: present_def)

lemma sync_step:
  assumes "by_name ds" "by_name (s # ss)"
  shows "\<forall>s'\<in>set ss. present (dropWhile (\<lambda>d. ob_RelKey d < ob_RelKey s) ds) s' = present ds s'"
    "present (dropWhile (\<lambda>d. ob_RelKey d < ob_RelKey s) ds) s = present ds s"
proof -
  have "\<forall>s'\<in>set ss. ob_RelKey s < ob_RelKey s'" using assms(2) by (simp add: by_name_def)
  then have "\<forall>s'\<in>set ss. \<not> ob_RelKey s' < ob_RelKey s" by (meson less_asym)
  then show "\<forall>s'\<in>set ss. present (dropWhile (\<lambda>d. ob_RelKey d < ob_RelKey s) ds) s' = present ds s'"
    using present_dropWhile [OF assms(1)] by blast
  show "present (dropWhile (\<lambda>d. ob_RelKey d < ob_RelKey s) ds) s = present ds s"
    by (rule present_dropWhile [OF assms(1)]) simp
qed

lemma absent:
  assumes "by_name ds"
    and "\<not> (dropWhile (\<lambda>d. ob_RelKey d < ob_RelKey s) ds \<noteq> [] \<and>
            ob_RelKey (hd (dropWhile (\<lambda>d. ob_RelKey d < ob_RelKey s) ds)) = ob_RelKey s)"
  shows "\<not> present ds s"
  using assms by (induction ds) (auto simp: by_name_def present_def split: if_splits)

text \<open>
  C40: The one pass comparison of two listings in the order of their names decides like the comparison with the
  whole destination: an object is copied exactly when the destination has none of its name and size, and (with
  the deletion option) its source is deleted exactly when the destination has one. Copies and deletions keep
  the order of the listing.
\<close>
theorem sync_loop_compares_with_the_whole_destination:
  assumes "by_name ss" "by_name ds"
  shows "sync_loop del ss ds =
    (filter (\<lambda>s. \<not> present ds s) ss, if del then map ob_Key (filter (present ds) ss) else [])"
  using assms
proof (induction ss arbitrary: ds)
  case (Cons s ss)
  define ds1 where "ds1 = dropWhile (\<lambda>d. ob_RelKey d < ob_RelKey s) ds"
  have b: "by_name ds1" "by_name ss" using dropWhile_names(1) Cons.prems by (auto simp: ds1_def by_name_def)
  note st = sync_step [OF Cons.prems(2,1), folded ds1_def]
  show ?case
  proof (cases "ds1 \<noteq> [] \<and> ob_RelKey (hd ds1) = ob_RelKey s")
    case True
    then obtain d ds2 where d: "ds1 = d # ds2" "ob_RelKey d = ob_RelKey s" by (cases ds1) auto
    have b2: "by_name ds2" "\<forall>x\<in>set ds2. ob_RelKey s < ob_RelKey x" using b(1) d by (auto simp: by_name_def)
    have "\<forall>s'\<in>set ss. present ds2 s' = present ds s'"
    proof
      fix s' assume s': "s' \<in> set ss"
      then have "ob_RelKey d \<noteq> ob_RelKey s'" using Cons.prems(1) d(2) by (auto simp: by_name_def)
      then show "present ds2 s' = present ds s'" using bspec [OF st(1) s'] d(1) by (simp add: present_Cons)
    qed
    then have f: "filter (\<lambda>s. \<not> present ds2 s) ss = filter (\<lambda>s. \<not> present ds s) ss"
      "filter (present ds2) ss = filter (present ds) ss"
      by (auto cong: filter_cong)
    have "present ds s \<longleftrightarrow> ob_Size d = ob_Size s"
      using st(2) d b2 by (auto simp: present_def)
    then show ?thesis using True d Cons.IH [OF b(2) b2(1)] f by (simp add: Let_def flip: ds1_def)
  next
    case False
    have f: "filter (\<lambda>s. \<not> present ds1 s) ss = filter (\<lambda>s. \<not> present ds s) ss"
      "filter (present ds1) ss = filter (present ds) ss"
      using st(1) by (auto cong: filter_cong)
    have "\<not> present ds s" using absent [OF Cons.prems(2)] False st(2) unfolding ds1_def by blast
    then show ?thesis using False Cons.IH [OF b(2,1)] f by (auto simp: Let_def simp flip: ds1_def)
  qed
qed simp

lemma sync_loop_compares_with_the_whole_destination_witness:
  "sync_loop True [obj ''p/'' ''p/a'' 1, obj ''p/'' ''p/b'' 2, obj ''p/'' ''p/d'' 4]
      [obj ''q/'' ''q/a'' 1, obj ''q/'' ''q/b'' 5, obj ''q/'' ''q/c'' 1]
    = ([obj ''p/'' ''p/b'' 2, obj ''p/'' ''p/d'' 4], [''p/a''])"
proof (subst sync_loop_compares_with_the_whole_destination)
  show "by_name [obj ''p/'' ''p/a'' 1, obj ''p/'' ''p/b'' 2, obj ''p/'' ''p/d'' 4]" by code_simp
  show "by_name [obj ''q/'' ''q/a'' 1, obj ''q/'' ''q/b'' 5, obj ''q/'' ''q/c'' 1]" by code_simp
qed code_simp

text \<open>Whatever the order of the listings, a source is only deleted when the destination has its object.\<close>

lemma sync_deletes_only_present:
  "k \<in> set (snd (sync_loop del ss ds)) \<Longrightarrow> del \<and> (\<exists>s\<in>set ss. ob_Key s = k \<and> present ds s)"
proof (induction ss arbitrary: ds)
  case (Cons s ss)
  define ds1 where "ds1 = dropWhile (\<lambda>d. ob_RelKey d < ob_RelKey s) ds"
  have sub: "set ds1 \<subseteq> set ds" by (auto simp: ds1_def dest: set_dropWhileD)
  have mono: "present xs x \<Longrightarrow> set xs \<subseteq> set ys \<Longrightarrow> present ys x" for xs ys x by (auto simp: present_def)
  show ?case
  proof (cases "ds1 \<noteq> [] \<and> ob_RelKey (hd ds1) = ob_RelKey s")
    case True
    then obtain d ds2 where d: "ds1 = d # ds2" "ob_RelKey d = ob_RelKey s" by (cases ds1) auto
    have sub2: "set ds2 \<subseteq> set ds" using sub d by auto
    have "d \<in> set ds" using sub d by auto
    have step: "snd (sync_loop del (s # ss) ds)
        = (if ob_Size d = ob_Size s \<and> del then [ob_Key s] else []) @ snd (sync_loop del ss ds2)"
      using d by (simp add: Let_def split_beta flip: ds1_def)
    then have "(ob_Size d = ob_Size s \<and> del \<and> k = ob_Key s) \<or> k \<in> set (snd (sync_loop del ss ds2))"
      using Cons.prems by (auto split: if_splits)
    moreover have "present ds s" if "ob_Size d = ob_Size s"
      using that d(2) \<open>d \<in> set ds\<close> by (auto simp: present_def)
    ultimately show ?thesis using Cons.IH [of ds2] mono [OF _ sub2] by auto
  next
    case False
    then have "k \<in> set (snd (sync_loop del ss ds1))"
      using Cons.prems by (auto simp: Let_def split_beta simp flip: ds1_def)
    then show ?thesis using Cons.IH [of ds1] mono [OF _ sub] by auto
  qed
qed simp

text \<open>
  S3 lists by key, the comparison walks by the name below the prefix. With a prefix that does not end in a
  slash the two orders differ, and objects that are at the destination are copied again; two source keys can
  also have one name.
\<close>

lemma name_order_differs:
  "let ss = [obj ''p'' ''p/a'' 1, obj ''p'' ''p0'' 2]; ds = [obj ''q/'' ''q/0'' 2, obj ''q/'' ''q/a'' 1]
   in sorted_wrt (<) (map ob_Key ss) \<and> sync_loop False ss ds = ([obj ''p'' ''p0'' 2], []) \<and>
      present ds (obj ''p'' ''p0'' 2)"
  by code_simp

lemma name_collision: "rel_key ''p'' ''p/a'' = rel_key ''p'' ''pa''"
  by code_simp

text \<open>A copied source is deleted only with the option, and never when a call of its copy failed.\<close>

lemma copied_then_deleted:
  assumes "process_object src dst del single part_calls order create finish_err ob = Some acts"
    and "DeleteSrc k \<in> set acts"
  shows "del \<and> k = ob_Key ob \<and> CopyFailed \<notin> set acts"
  using assms
  by (auto simp: process_object_def Let_def split: option.splits if_splits sum.splits prod.splits)

end
