(* ===== verification/ObjectScan.thy ===== *)
theory ObjectScan
  imports TransferJobFacts Endpoints "HOL-Library.Char_ord" "HOL-Library.List_Lexorder"
begin

text \<open>
  The scanner of the transfer worker, \<^verbatim>\<open>worker_transfer/scanner.go\<close>: the objects below the source
  directory of a job that pass its patterns become tasks, sent to the backend in batches, and the job row gets
  the reports of the scan. S3, the clock and the answers of the backend are arguments. The patterns are those of
  \<^verbatim>\<open>path.Match\<close>, over bytes.
\<close>

section \<open>Patterns\<close>

datatype glob = GStar | GAny | GChar char | GClass bool "(char \<times> char) list"

text \<open>One character of a class and the rest of the pattern, which must not be empty.\<close>

fun get_esc :: "string \<Rightarrow> (char \<times> string) option" where
  "get_esc [] = None"
| "get_esc (c # s) =
     (if c = CHR ''-'' \<or> c = CHR '']'' then None
      else if c = CHR 0x5C then (case s of [] \<Rightarrow> None | d # t \<Rightarrow> if t = [] then None else Some (d, t))
      else if s = [] then None else Some (c, s))"

lemma get_esc_length: "get_esc s = Some (c, t) \<Longrightarrow> length t < length s"
  by (cases s) (auto split: if_splits list.splits)

function class_ranges :: "bool \<Rightarrow> string \<Rightarrow> ((char \<times> char) list \<times> string) option" where
  "class_ranges some s =
     (if some \<and> s \<noteq> [] \<and> hd s = CHR '']'' then Some ([], tl s)
      else (case get_esc s of
              None \<Rightarrow> None
            | Some (lo, s1) \<Rightarrow>
                if hd s1 = CHR ''-''
                then (case get_esc (tl s1) of
                        None \<Rightarrow> None
                      | Some (hi, s2) \<Rightarrow> map_option (\<lambda>(rs, r). ((lo, hi) # rs, r)) (class_ranges True s2))
                else map_option (\<lambda>(rs, r). ((lo, lo) # rs, r)) (class_ranges True s1)))"
  by pat_completeness auto
termination
proof (relation "measure (\<lambda>(b, s). length s)", goal_cases)
  case (2 some s lo_s1 lo s1 hi_s2 hi s2)
  then show ?case using get_esc_length [of s lo s1] get_esc_length [of "tl s1" hi s2] by simp
next
  case (3 some s lo_s1 lo s1)
  then show ?case using get_esc_length [of s lo s1] by simp
qed simp

declare class_ranges.simps [simp del]

lemma class_ranges_length: "class_ranges b s = Some (rs, t) \<Longrightarrow> length t < length s"
proof (induction b s arbitrary: rs t rule: class_ranges.induct)
  case (1 b s)
  show ?case
  proof (cases "b \<and> s \<noteq> [] \<and> hd s = CHR '']''")
    case True
    then show ?thesis using "1.prems" unfolding class_ranges.simps [of b s] by (cases s) auto
  next
    case False
    then obtain lo s1 where e: "get_esc s = Some (lo, s1)"
      using "1.prems" by (auto simp: class_ranges.simps [of b s] split: option.splits)
    show ?thesis
    proof (cases "hd s1 = CHR ''-''")
      case True
      then obtain hi s2 rs' where e2: "get_esc (tl s1) = Some (hi, s2)" "class_ranges True s2 = Some (rs', t)"
        using "1.prems" False e by (auto simp: class_ranges.simps [of b s] split: option.splits)
      then have "length t < length s2" using "1.IH"(1) [OF False e _ True e2(1)] by simp
      then show ?thesis using get_esc_length [OF e] get_esc_length [OF e2(1)] by simp
    next
      case hd: False
      then obtain rs' where e2: "class_ranges True s1 = Some (rs', t)"
        using "1.prems" False e by (auto simp: class_ranges.simps [of b s] split: option.splits)
      then have "length t < length s1" using "1.IH"(2) [OF False e _ hd] by simp
      then show ?thesis using get_esc_length [OF e] by simp
    qed
  qed
qed

function glob_tokens :: "string \<Rightarrow> glob list option" where
  "glob_tokens [] = Some []"
| "glob_tokens (c # s) =
     (if c = CHR ''*'' then map_option (Cons GStar) (glob_tokens s)
      else if c = CHR ''?'' then map_option (Cons GAny) (glob_tokens s)
      else if c = CHR 0x5C
      then (if s = [] then None else map_option (Cons (GChar (hd s))) (glob_tokens (tl s)))
      else if c = CHR ''[''
      then (let neg = (s \<noteq> [] \<and> hd s = CHR ''^'')
            in case class_ranges False (if neg then tl s else s) of
                 None \<Rightarrow> None
               | Some (rs, t) \<Rightarrow> map_option (Cons (GClass neg rs)) (glob_tokens t))
      else map_option (Cons (GChar c)) (glob_tokens s))"
  by pat_completeness auto
termination
proof (relation "measure length", goal_cases)
  case (5 c s neg p rs t)
  then have "length t < length (if neg then tl s else s)" using class_ranges_length by metis
  then show ?case by (auto split: if_splits)
qed auto

fun glob_match :: "glob list \<Rightarrow> string \<Rightarrow> bool" where
  "glob_match [] s = (s = [])"
| "glob_match (GStar # p) s =
     (glob_match p s \<or> (case s of [] \<Rightarrow> False | c # t \<Rightarrow> c \<noteq> CHR ''/'' \<and> glob_match (GStar # p) t))"
| "glob_match (GAny # p) s = (case s of [] \<Rightarrow> False | c # t \<Rightarrow> c \<noteq> CHR ''/'' \<and> glob_match p t)"
| "glob_match (GChar d # p) s = (case s of [] \<Rightarrow> False | c # t \<Rightarrow> c = d \<and> glob_match p t)"
| "glob_match (GClass neg rs # p) s =
     (case s of [] \<Rightarrow> False
      | c # t \<Rightarrow> list_ex (\<lambda>(lo, hi). lo \<le> c \<and> c \<le> hi) rs \<noteq> neg \<and> glob_match p t)"

text \<open>\<open>None\<close> is \<^verbatim>\<open>ErrBadPattern\<close>.\<close>

definition path_match :: "string \<Rightarrow> string \<Rightarrow> bool option" where
  "path_match pattern name = map_option (\<lambda>p. glob_match p name) (glob_tokens pattern)"

definition match_key :: "string \<Rightarrow> string \<Rightarrow> bool option" where
  "match_key pattern name =
     (if has_substring ''/'' pattern then path_match pattern name else path_match pattern (base_name name))"

definition admitted :: "string \<Rightarrow> string \<Rightarrow> string \<Rightarrow> bool" where
  "admitted incl excl key =
     (if incl \<noteq> [] \<and> match_key incl key = Some False then False
      else if excl \<noteq> [] \<and> match_key excl key = Some True then False else True)"

section \<open>Scanning\<close>

record s3_object =
  so_Key :: string
  so_Modified :: time
  so_Size :: "int option"

record tx_scan =
  sc_Include :: string
  sc_Exclude :: string
  sc_found :: "tx_input list"
  sc_skipped :: int
  sc_pages :: int
  sc_lastKey :: "string option"
  sc_reports :: "update_job_request list"

definition scan_update :: "status \<Rightarrow> time option \<Rightarrow> string option \<Rightarrow> string \<Rightarrow> bool \<Rightarrow> int option \<Rightarrow> update_job_request" where
  "scan_update status lastScan lastKey msg inc found =
     report0\<lparr>uj_Status := status, uj_LastScanTime := lastScan, uj_LastScannedKey := lastKey,
       uj_ResultMessage := msg, uj_IncExecution := inc, uj_ScanDiscoveredCount := found\<rparr>"

text \<open>The time an incremental scan filters by, and the key it starts behind.\<close>

definition scan_since :: "transfer_job \<Rightarrow> time option" where
  "scan_since j = (if tj_IsIncremental j \<and> tj_PeriodicInterval j > 0 then tj_LastScanTime j else None)"

definition start_after :: "transfer_job \<Rightarrow> string option" where
  "start_after j =
     (if scan_since j \<noteq> None
      then (case tj_LastScannedKey j of Some k \<Rightarrow> if k \<noteq> [] then Some k else None | None \<Rightarrow> None)
      else None)"

definition scan_object :: "time option \<Rightarrow> s3_object \<Rightarrow> tx_scan \<Rightarrow> tx_scan" where
  "scan_object since ob s =
     (if has_suffix ''/'' (so_Key ob) then s
      else (let s1 = s\<lparr>sc_lastKey := Some (so_Key ob)\<rparr>
            in if (case since of Some t \<Rightarrow> so_Modified ob < t | None \<Rightarrow> False)
               then s1\<lparr>sc_skipped := sc_skipped s1 + 1\<rparr>
               else if \<not> admitted (sc_Include s1) (sc_Exclude s1) (so_Key ob) then s1
               else s1\<lparr>sc_found := sc_found s1 @
                 [\<lparr>ti_Src = so_Key ob, ti_Size = (case so_Size ob of Some n \<Rightarrow> n | None \<Rightarrow> 0)\<rparr>]\<rparr>))"

text \<open>A page: what the attempts to get it answer, and the job that is read again after it - when more than ten
seconds have passed - or the failure to read it.\<close>

type_synonym listed_page = "(nat \<Rightarrow> s3_object list option) \<times> transfer_job option option"

definition try_page :: "(nat \<Rightarrow> s3_object list option) \<Rightarrow> s3_object list option" where
  "try_page answers = (case filter (\<lambda>r. r \<noteq> None) (map answers [0..<5]) of [] \<Rightarrow> None | r # _ \<Rightarrow> r)"

datatype scan_end = ScanDone | ScanListFailed | ScanAborted

definition progress :: "tx_scan \<Rightarrow> update_job_request" where
  "progress s = scan_update StatusRunning None None
     (''Scanning... Pages: '' @ itoa (sc_pages s) @ '', Tasks: '' @ itoa (int (length (sc_found s)))
      @ '', Skipped: '' @ itoa (sc_skipped s)) False None"

fun scan_job_pages :: "time option \<Rightarrow> listed_page list \<Rightarrow> tx_scan \<Rightarrow> tx_scan \<times> scan_end" where
  "scan_job_pages since [] s = (s, ScanDone)"
| "scan_job_pages since ((answers, refresh) # pages) s =
     (let s1 = s\<lparr>sc_pages := sc_pages s + 1\<rparr>
      in case try_page answers of
           None \<Rightarrow> (s1, ScanListFailed)
         | Some obs \<Rightarrow>
             (let s2 = fold (scan_object since) obs s1
              in case refresh of
                   None \<Rightarrow> scan_job_pages since pages s2
                 | Some None \<Rightarrow> scan_job_pages since pages (s2\<lparr>sc_reports := sc_reports s2 @ [progress s2]\<rparr>)
                 | Some (Some latest) \<Rightarrow>
                     (let s3 = s2\<lparr>sc_Include := tj_Include latest, sc_Exclude := tj_Exclude latest\<rparr>
                      in if tj_Status latest \<noteq> StatusRunning \<and> tj_Status latest \<noteq> StatusPending
                         then (s3, ScanAborted)
                         else scan_job_pages since pages (s3\<lparr>sc_reports := sc_reports s3 @ [progress s3]\<rparr>))))"

text \<open>The goroutine that sends the tasks.\<close>

fun batch_loop :: "'a list \<Rightarrow> 'a list \<Rightarrow> 'a list list" where
  "batch_loop batch [] = (if length batch > 0 then [batch] else [])"
| "batch_loop batch (t # ts) =
     (let b = batch @ [t] in if length b \<ge> 100 then b # batch_loop [] ts else batch_loop b ts)"

definition final_report :: "time \<Rightarrow> tx_scan \<Rightarrow> update_job_request" where
  "final_report endTime s =
     scan_update StatusRunning (Some endTime) (sc_lastKey s)
       (''Scanned '' @ itoa (sc_pages s) @ '' pages. Tasks: '' @ itoa (int (length (sc_found s)))
        @ '', Skipped: '' @ itoa (sc_skipped s)) True (Some (int (length (sc_found s))))"

definition start_scan :: "transfer_job \<Rightarrow> tx_scan" where
  "start_scan j = \<lparr>sc_Include = tj_Include j, sc_Exclude = tj_Exclude j, sc_found = [], sc_skipped = 0,
     sc_pages = 0, sc_lastKey = None, sc_reports = []\<rparr>"

text \<open>The reports of one run in order, and the batches it posts. \<open>started\<close>: the first report was taken;
\<open>clientErr\<close>: the error of the source client. The message of a failed listing leaves out the error of S3.\<close>

definition scan_job :: "time \<Rightarrow> bool \<Rightarrow> string option \<Rightarrow> listed_page list \<Rightarrow> transfer_job
    \<Rightarrow> update_job_request list \<times> tx_input list list" where
  "scan_job endTime started clientErr pages job =
     (let running = scan_update StatusRunning None None [] False None
      in if \<not> started then ([running], [])
         else if \<not> tj_IsIncremental job \<and> tj_LastScanTime job \<noteq> None then ([running], [])
         else (case clientErr of
                 Some e \<Rightarrow> ([running, scan_update StatusFailed None None (''Init S3 failed: '' @ e) False None], [])
               | None \<Rightarrow>
                   (case scan_job_pages (scan_since job) pages (start_scan job) of
                      (s, ScanDone) \<Rightarrow> (running # sc_reports s @ [final_report endTime s], batch_loop [] (sc_found s))
                    | (s, ScanListFailed) \<Rightarrow> (running # sc_reports s
                         @ [scan_update StatusFailed None None (''List failed on page '' @ itoa (sc_pages s) @ '' after 5 retries'') False None],
                         batch_loop [] (sc_found s))
                    | (s, ScanAborted) \<Rightarrow> (running # sc_reports s, batch_loop [] (sc_found s)))))"

end
