(* ===== verification/ObjectScanFacts.thy ===== *)
theory ObjectScanFacts
  imports ObjectScan
begin

text \<open>
  What a scan of a source directory sends to the backend: exactly the objects it has to, in the order of the
  listing and in batches; and what an incremental scan cannot see.
\<close>

section \<open>Patterns\<close>

text \<open>A pattern without special characters is the name itself; a star stays inside its directory.\<close>

lemma plain_tokens:
  "set p \<inter> {CHR ''*'', CHR ''?'', CHR ''['', CHR 0x5C} = {} \<Longrightarrow> glob_tokens p = Some (map GChar p)"
  by (induction p) auto

lemma plain_match: "glob_match (map GChar p) s = (s = p)"
  by (induction p arbitrary: s) (auto split: list.split)

lemma path_match_plain:
  "set p \<inter> {CHR ''*'', CHR ''?'', CHR ''['', CHR 0x5C} = {} \<Longrightarrow> path_match p s = Some (s = p)"
  by (simp add: path_match_def plain_tokens plain_match)

lemma star_match: "glob_match [GStar] s = (CHR ''/'' \<notin> set s)"
  by (induction s) auto

lemma star_suffix_match:
  assumes "CHR ''/'' \<notin> set s"
  shows "glob_match (GStar # map GChar e) s = has_suffix e s"
proof -
  have "glob_match (GStar # map GChar e) s = (\<exists>a. s = a @ e)" using assms
  proof (induction s)
    case (Cons c s)
    then show ?case by (auto simp: plain_match Cons_eq_append_conv)
  qed (auto simp: plain_match)
  also have "\<dots> = has_suffix e s"
  proof
    assume "has_suffix e s"
    then have "rev s = rev e @ drop (length e) (rev s)" using has_prefixD [of "rev e" "rev s"] by (simp add: has_suffix_def)
    then have "s = rev (drop (length e) (rev s)) @ e" by (metis rev_append rev_rev_ident)
    then show "\<exists>a. s = a @ e" by blast
  qed (auto simp: has_suffix_def)
  finally show ?thesis .
qed

lemma bad_pattern_admits: "match_key incl key = None \<Longrightarrow> admitted incl [] key"
  by (simp add: admitted_def)

section \<open>Batches\<close>

lemma concat_batch_loop: "concat (batch_loop b ts) = b @ ts"
  by (induction b ts rule: batch_loop.induct) (auto simp: Let_def)

lemma batch_sizes: "length b < 100 \<Longrightarrow> x \<in> set (batch_loop b ts) \<Longrightarrow> x \<noteq> [] \<and> length x \<le> 100"
  by (induction b ts rule: batch_loop.induct) (auto simp: Let_def split: if_splits)

section \<open>Pages\<close>

definition wanted :: "time option \<Rightarrow> string \<Rightarrow> string \<Rightarrow> s3_object \<Rightarrow> bool" where
  "wanted since incl excl ob =
     (\<not> has_suffix ''/'' (so_Key ob) \<and> (case since of Some t \<Rightarrow> t \<le> so_Modified ob | None \<Rightarrow> True)
      \<and> admitted incl excl (so_Key ob))"

definition scan_input :: "s3_object \<Rightarrow> tx_input" where
  "scan_input ob = \<lparr>ti_Src = so_Key ob, ti_Size = (case so_Size ob of Some n \<Rightarrow> n | None \<Rightarrow> 0)\<rparr>"

definition listed_key :: "string option \<Rightarrow> s3_object list \<Rightarrow> string option" where
  "listed_key k obs = (case filter (\<lambda>ob. \<not> has_suffix ''/'' (so_Key ob)) obs of [] \<Rightarrow> k | xs \<Rightarrow> Some (so_Key (last xs)))"

lemma listed_key_Cons:
  "listed_key k (ob # obs) = listed_key (if has_suffix ''/'' (so_Key ob) then k else Some (so_Key ob)) obs"
  by (auto simp: listed_key_def split: list.split)

lemma listed_key_append: "listed_key k (xs @ ys) = listed_key (listed_key k xs) ys"
  by (induction xs arbitrary: k) (simp_all add: listed_key_Cons, simp add: listed_key_def)

lemma scan_object_fields:
  "sc_Include (scan_object since ob s) = sc_Include s" "sc_Exclude (scan_object since ob s) = sc_Exclude s"
  "sc_found (scan_object since ob s) = sc_found s @
     (if wanted since (sc_Include s) (sc_Exclude s) ob then [scan_input ob] else [])"
  "sc_lastKey (scan_object since ob s) = (if has_suffix ''/'' (so_Key ob) then sc_lastKey s else Some (so_Key ob))"
  "sc_reports (scan_object since ob s) = sc_reports s"
  by (auto simp: scan_object_def wanted_def scan_input_def Let_def not_le split: option.splits)

lemma scan_objects:
  "sc_Include (fold (scan_object since) obs s) = sc_Include s
   \<and> sc_Exclude (fold (scan_object since) obs s) = sc_Exclude s
   \<and> sc_found (fold (scan_object since) obs s) = sc_found s @
       map scan_input (filter (wanted since (sc_Include s) (sc_Exclude s)) obs)
   \<and> sc_lastKey (fold (scan_object since) obs s) = listed_key (sc_lastKey s) obs"
  by (induction obs arbitrary: s) (simp_all add: scan_object_fields listed_key_Cons, simp add: listed_key_def)

definition page_objects :: "listed_page \<Rightarrow> s3_object list" where
  "page_objects p = (case try_page (fst p) of Some obs \<Rightarrow> obs | None \<Rightarrow> [])"

text \<open>A page that arrives, after which the job still runs with the same patterns.\<close>

definition page_ok :: "transfer_job \<Rightarrow> listed_page \<Rightarrow> bool" where
  "page_ok j p =
     (try_page (fst p) \<noteq> None
      \<and> (case snd p of
           Some (Some latest) \<Rightarrow> tj_Include latest = tj_Include j \<and> tj_Exclude latest = tj_Exclude j
             \<and> (tj_Status latest = StatusRunning \<or> tj_Status latest = StatusPending)
         | _ \<Rightarrow> True))"

lemma scan_pages_done:
  assumes "\<forall>p\<in>set pages. page_ok j p" "sc_Include s = tj_Include j" "sc_Exclude s = tj_Exclude j"
  shows "\<exists>s'. scan_job_pages since pages s = (s', ScanDone)
    \<and> sc_found s' = sc_found s @ map scan_input
        (filter (wanted since (tj_Include j) (tj_Exclude j)) (concat (map page_objects pages)))
    \<and> sc_lastKey s' = listed_key (sc_lastKey s) (concat (map page_objects pages))"
  using assms
proof (induction pages arbitrary: s)
  case Nil
  then show ?case by (simp add: listed_key_def)
next
  case (Cons p pages)
  obtain answers refresh where p: "p = (answers, refresh)" by (cases p)
  obtain obs where obs: "try_page answers = Some obs" using Cons.prems(1) by (auto simp: page_ok_def p)
  define s1 where "s1 = s\<lparr>sc_pages := sc_pages s + 1\<rparr>"
  define s2 where "s2 = fold (scan_object since) obs s1"
  have s2: "sc_Include s2 = tj_Include j" "sc_Exclude s2 = tj_Exclude j"
    "sc_found s2 = sc_found s @ map scan_input (filter (wanted since (tj_Include j) (tj_Exclude j)) obs)"
    "sc_lastKey s2 = listed_key (sc_lastKey s) obs"
    using scan_objects [of since obs s1] Cons.prems(2,3) by (simp_all add: s2_def s1_def)
  have po: "page_objects p = obs" by (simp add: page_objects_def p obs)
  obtain s3 where s3: "scan_job_pages since (p # pages) s = scan_job_pages since pages s3"
    "sc_Include s3 = tj_Include j" "sc_Exclude s3 = tj_Exclude j" "sc_found s3 = sc_found s2" "sc_lastKey s3 = sc_lastKey s2"
    using Cons.prems(1) s2(1,2)
    by (cases refresh)
      (auto simp: p obs s1_def [symmetric] s2_def [symmetric] page_ok_def Let_def split: option.splits)
  show ?case
    using Cons.IH [of s3] Cons.prems(1) s2 s3 po by (auto simp: listed_key_append)
qed

section \<open>The scan\<close>

definition below_prefix :: "transfer_job \<Rightarrow> s3_object \<Rightarrow> bool" where
  "below_prefix j ob = has_prefix (trim_by is_space (tj_SrcDir j)) (so_Key ob)"

definition behind_start :: "transfer_job \<Rightarrow> s3_object \<Rightarrow> bool" where
  "behind_start j ob = (case start_after j of Some k \<Rightarrow> k < so_Key ob | None \<Rightarrow> True)"

text \<open>What \<^verbatim>\<open>ListObjectsV2\<close> documents: the pages together are the objects of the bucket with the prefix
and behind the start key.\<close>

definition s3_lists :: "transfer_job \<Rightarrow> listed_page list \<Rightarrow> s3_object list \<Rightarrow> bool" where
  "s3_lists j pages bucket =
     (concat (map page_objects pages) = filter (\<lambda>ob. below_prefix j ob \<and> behind_start j ob) bucket)"

definition new_objects :: "transfer_job \<Rightarrow> s3_object list \<Rightarrow> s3_object list" where
  "new_objects j bucket =
     filter (\<lambda>ob. below_prefix j ob \<and> behind_start j ob
       \<and> wanted (scan_since j) (tj_Include j) (tj_Exclude j) ob) bucket"

lemma scan_job_done:
  assumes "tj_IsIncremental j \<or> tj_LastScanTime j = None" "\<forall>p\<in>set pages. page_ok j p" "s3_lists j pages bucket"
  shows "\<exists>s. scan_job e True None pages j =
      (scan_update StatusRunning None None [] False None # sc_reports s @ [final_report e s], batch_loop [] (sc_found s))
    \<and> sc_found s = map scan_input (new_objects j bucket)
    \<and> sc_lastKey s = listed_key None (filter (\<lambda>ob. below_prefix j ob \<and> behind_start j ob) bucket)"
proof -
  obtain s where s: "scan_job_pages (scan_since j) pages (start_scan j) = (s, ScanDone)"
    "sc_found s = sc_found (start_scan j) @ map scan_input
        (filter (wanted (scan_since j) (tj_Include j) (tj_Exclude j)) (concat (map page_objects pages)))"
    "sc_lastKey s = listed_key (sc_lastKey (start_scan j)) (concat (map page_objects pages))"
    using scan_pages_done [OF assms(2), of "start_scan j" "scan_since j"] by (auto simp: start_scan_def)
  have "scan_job e True None pages j =
      (scan_update StatusRunning None None [] False None # sc_reports s @ [final_report e s], batch_loop [] (sc_found s))"
    using assms(1) by (auto simp: scan_job_def Let_def s(1))
  moreover have "sc_found s = map scan_input (new_objects j bucket)"
    using s(2) assms(3) by (simp add: s3_lists_def new_objects_def start_scan_def conj_ac)
  moreover have "sc_lastKey s = listed_key None (filter (\<lambda>ob. below_prefix j ob \<and> behind_start j ob) bucket)"
    using s(3) assms(3) by (simp add: s3_lists_def start_scan_def)
  ultimately show ?thesis by blast
qed

text \<open>C32: A scan whose pages all arrive posts exactly the objects of the source directory that it has to
find - no directory markers, the patterns admit the name, and for an incremental scan modified since the last one
and behind its last key - once each and in the order of the listing, in batches of at most 100; its last report
carries their number, the time of the scan and the last key it saw.\<close>

theorem scan_posts_exactly_the_new_objects:
  assumes "tj_IsIncremental j \<or> tj_LastScanTime j = None" "\<forall>p\<in>set pages. page_ok j p" "s3_lists j pages bucket"
    and "scan_job e True None pages j = (reports, posted)"
  shows "concat posted = map scan_input (new_objects j bucket)
    \<and> (\<forall>b\<in>set posted. b \<noteq> [] \<and> length b \<le> 100)
    \<and> uj_ScanDiscoveredCount (last reports) = Some (int (length (new_objects j bucket)))
    \<and> uj_LastScanTime (last reports) = Some e \<and> uj_IncExecution (last reports)
    \<and> uj_LastScannedKey (last reports)
        = listed_key None (filter (\<lambda>ob. below_prefix j ob \<and> behind_start j ob) bucket)"
proof -
  obtain s where s: "scan_job e True None pages j =
      (scan_update StatusRunning None None [] False None # sc_reports s @ [final_report e s], batch_loop [] (sc_found s))"
    "sc_found s = map scan_input (new_objects j bucket)"
    "sc_lastKey s = listed_key None (filter (\<lambda>ob. below_prefix j ob \<and> behind_start j ob) bucket)"
    using scan_job_done [OF assms(1-3), of e] by blast
  have "last reports = final_report e s" "posted = batch_loop [] (sc_found s)" using s(1) assms(4) by auto
  then show ?thesis using s(2,3) batch_sizes [of "[]" _ "sc_found s"]
    by (auto simp: concat_batch_loop final_report_def scan_update_def)
qed

definition wit_scan_job :: transfer_job where
  "wit_scan_job = TransferJob0\<lparr>tj_JobID := 3, tj_SrcDir := '' raw/'', tj_Include := ''*.mp[34]'', tj_IsIncremental := True,
     tj_PeriodicInterval := 600, tj_LastScanTime := Some 100, tj_LastScannedKey := Some ''raw/c''\<rparr>"

definition wit_object :: "string \<Rightarrow> time \<Rightarrow> s3_object" where
  "wit_object k t = \<lparr>so_Key = k, so_Modified = t, so_Size = Some 7\<rparr>"

definition wit_pages :: "listed_page list" where
  "wit_pages = [(\<lambda>i. if i = 0 then None else Some [wit_object ''raw/d.mp4'' 50, wit_object ''raw/dir/'' 200], None),
     (\<lambda>i. Some [wit_object ''raw/dir/x.mp3'' 200, wit_object ''raw/e.txt'' 300], Some None)]"

definition wit_bucket :: "s3_object list" where
  "wit_bucket = [wit_object ''other'' 500, wit_object ''raw/b.mp4'' 400, wit_object ''raw/d.mp4'' 50, wit_object ''raw/dir/'' 200,
     wit_object ''raw/dir/x.mp3'' 200, wit_object ''raw/e.txt'' 300]"

theorem scan_posts_exactly_the_new_objects_witness:
  "snd (scan_job 900 True None wit_pages wit_scan_job) = [[\<lparr>ti_Src = ''raw/dir/x.mp3'', ti_Size = 7\<rparr>]]
   \<and> concat (snd (scan_job 900 True None wit_pages wit_scan_job)) = map scan_input (new_objects wit_scan_job wit_bucket)
   \<and> uj_LastScannedKey (last (fst (scan_job 900 True None wit_pages wit_scan_job))) = Some ''raw/e.txt''"
proof -
  have h: "tj_IsIncremental wit_scan_job \<or> tj_LastScanTime wit_scan_job = None"
    "\<forall>p\<in>set wit_pages. page_ok wit_scan_job p" "s3_lists wit_scan_job wit_pages wit_bucket"
    by code_simp+
  have k: "listed_key None (filter (\<lambda>ob. below_prefix wit_scan_job ob \<and> behind_start wit_scan_job ob) wit_bucket)
      = Some ''raw/e.txt''" by code_simp
  have v: "snd (scan_job 900 True None wit_pages wit_scan_job) = [[\<lparr>ti_Src = ''raw/dir/x.mp3'', ti_Size = 7\<rparr>]]"
    by code_simp
  show ?thesis
    using scan_posts_exactly_the_new_objects [OF h prod.collapse [symmetric], of 900] k v by simp
qed

section \<open>What an incremental scan cannot see\<close>

text \<open>An object before the last scanned key is never posted, however new it is.\<close>

lemma before_last_key_never_posted:
  assumes "\<forall>p\<in>set pages. page_ok j p" "s3_lists j pages bucket" "tj_IsIncremental j" "start_after j = Some k"
    and "t \<in> set (concat (snd (scan_job e True None pages j)))"
  shows "k < ti_Src t"
proof -
  have "concat (snd (scan_job e True None pages j)) = map scan_input (new_objects j bucket)"
    using scan_job_done [of j pages bucket e] assms(1-3) by (auto simp: concat_batch_loop)
  then have "t \<in> set (map scan_input (new_objects j bucket))" using assms(5) by simp
  then show ?thesis using assms(4) by (auto simp: new_objects_def behind_start_def scan_input_def)
qed

text \<open>The report of a scan is what the next one starts from: its last key and its end time go into the row.
An object that is uploaded to a key before the last one, or behind it while the scan ran, is missed for good.\<close>

lemma after_scan_keeps_marks:
  assumes "svc_up S" "find_row tj_JobID jid (w_txJobs w) = Some j" "tj_IsIncremental job"
  shows "\<exists>w' j'. after_scan S jid idle job w = (w', None) \<and> find_row tj_JobID jid (w_txJobs w') = Some j'
    \<and> tj_LastScannedKey j' = tj_LastScannedKey j \<and> tj_LastScanTime j' = tj_LastScanTime j
    \<and> tj_IsIncremental j' = tj_IsIncremental j \<and> tj_PeriodicInterval j' = tj_PeriodicInterval j"
  using assms find_row_tx_id [OF assms(2)]
  by (cases idle)
    (auto simp: after_scan_def first_tx_job_def svc_upD find_row_update_tx_job set_job_status_def Let_def)

lemma next_scan_starts_behind:
  assumes "svc_up S" "find_row tj_JobID jid (w_txJobs w) = Some j" "tj_IsIncremental j" "tj_PeriodicInterval j > 0"
    and "sc_lastKey s = Some k" "k \<noteq> []"
  shows "\<exists>j'. find_row tj_JobID jid (w_txJobs (fst (UpdateTransferJobStatus S jid (Some (final_report e s)) w))) = Some j'
    \<and> start_after j' = Some k \<and> scan_since j' = Some e"
proof -
  note id = find_row_tx_id [OF assms(2)]
  define q where "q = final_report e s"
  define w2 where "w2 = update_tx_job jid (\<lambda>j. j\<lparr>tj_ExecutionCount := tj_ExecutionCount j + 1\<rparr>)
    (update_tx_job jid (report_updates q j) w)"
  have q: "has_updates q" "uj_IncExecution q" "uj_LastScanTime q = Some e" "uj_LastScannedKey q = Some k"
    using assms(5) by (simp_all add: q_def final_report_def scan_update_def has_updates_def)
  have row: "find_row tj_JobID jid (w_txJobs w2) = Some ((report_updates q j j)\<lparr>tj_ExecutionCount := tj_ExecutionCount j + 1\<rparr>)"
    using assms(2) id by (simp add: w2_def find_row_update_tx_job)
  obtain c where c: "getTransferJobActivityCounts S jid w2 = Some c"
    using assms(1) by (simp add: getTransferJobActivityCounts_def svc_upD)
  obtain w' j' where w': "after_scan S jid (scan_idle q c) (report_updates q j j) w2 = (w', None)"
    "find_row tj_JobID jid (w_txJobs w') = Some j'" "tj_LastScannedKey j' = Some k" "tj_LastScanTime j' = Some e"
    "tj_IsIncremental j'" "tj_PeriodicInterval j' > 0"
    using after_scan_keeps_marks [OF assms(1) row, of "report_updates q j j" "scan_idle q c"] assms(3,4) q
    by (auto simp: report_updates_def or_else_def)
  have "fst (UpdateTransferJobStatus S jid (Some q) w) = w'"
    using assms(1,2) q c w'(1)
    by (simp add: UpdateTransferJobStatus_def first_tx_job_def svc_upD Let_def w2_def)
  then show ?thesis using w' assms(6) by (auto simp: q_def start_after_def scan_since_def)
qed

end
