(* ===== verification/DownloadControl.thy ===== *)
theory DownloadControl
  imports TransferWorker Models
begin

text \<open>
  How the downloader, \<^verbatim>\<open>worker_downloader/downloader.go\<close>, paces itself: its settings, the limit
  on requests per minute, the sessions of its proxy, and the fetcher that puts large tasks off. The clock, the
  random numbers and the names of sessions are arguments; the reads of the clock inside one locked section are one
  instant. Times and durations are nanoseconds.
\<close>

section \<open>Settings\<close>

text \<open>The variables that take any integer, and those that take a positive one.\<close>

definition env_any :: "string \<Rightarrow> int \<Rightarrow> int" where
  "env_any v d = (if v \<noteq> [] then (case atoi v of Some n \<Rightarrow> n | None \<Rightarrow> d) else d)"

definition env_pos :: "string \<Rightarrow> int \<Rightarrow> int" where
  "env_pos v d = (if v \<noteq> [] then (case atoi v of Some n \<Rightarrow> if n > 0 then n else d | None \<Rightarrow> d) else d)"

record dl_settings =
  ds_ChunkSize :: int
  ds_Workers :: int
  ds_ChunksPerFile :: int
  ds_RequestsPerMinute :: int
  ds_TaskBuffer :: int
  ds_ListParts :: int
  ds_RecoveryTimeout :: int
  ds_VerifyTimeout :: int
  ds_MissingETagRetries :: int
  ds_MaxAttempts :: int
  ds_Backoff :: int

definition load_dl_settings :: "(string \<Rightarrow> string) \<Rightarrow> dl_settings" where
  "load_dl_settings env =
     \<lparr>ds_ChunkSize = env_any (env ''DOWNLOAD_CHUNK_SIZE'') (6 * 1024 * 1024),
      ds_Workers = env_any (env ''DOWNLOAD_MAX_CONCURRENT_WORKERS'') 20,
      ds_ChunksPerFile = env_any (env ''DOWNLOAD_CONCURRENT_CHUNKS_PER_FILE'') 5,
      ds_RequestsPerMinute = env_any (env ''DOWNLOAD_REQUESTS_PER_MINUTE'') 100,
      ds_TaskBuffer = env_any (env ''DOWNLOAD_TASK_BUFFER_SIZE'') 40,
      ds_ListParts = env_pos (env ''DOWNLOAD_LISTPARTS_CONCURRENCY'') 12,
      ds_RecoveryTimeout = env_pos (env ''DOWNLOAD_UPLOAD_RECOVERY_TIMEOUT_SECONDS'') 480 * second,
      ds_VerifyTimeout = env_pos (env ''DOWNLOAD_SINGLE_VERIFY_TIMEOUT_SECONDS'') 180 * second,
      ds_MissingETagRetries = env_pos (env ''DOWNLOAD_MISSING_ETAG_RETRY_ATTEMPTS'') 3,
      ds_MaxAttempts = env_pos (env ''DOWNLOAD_TRANSFER_MAX_ATTEMPTS'') 3,
      ds_Backoff = env_pos (env ''DOWNLOAD_TRANSFER_RETRY_BACKOFF_SECONDS'') 2\<rparr>"

section \<open>Rate limiter\<close>

definition minute :: int where "minute = 60 * second"

definition recent :: "int \<Rightarrow> int list \<Rightarrow> int list" where
  "recent now ts = filter (\<lambda>t. t > now - minute) ts"

text \<open>The section of \<^verbatim>\<open>Acquire\<close> up to the sleep, with the time to sleep, and the one behind it.\<close>

definition rl_enter :: "int \<Rightarrow> int \<Rightarrow> int list \<Rightarrow> int list \<times> int option" where
  "rl_enter limit now ts =
     (if limit \<le> 0 then (ts, None)
      else (let valid = recent now ts
            in if int (length valid) \<ge> limit
               then (let wait = minute - (now - hd valid) + 100000000
                     in if wait > 0 then (valid, Some wait) else (valid @ [now], None))
               else (valid @ [now], None)))"

definition rl_wake :: "int \<Rightarrow> int list \<Rightarrow> int list" where
  "rl_wake now ts = recent now ts @ [now]"

text \<open>A call with nobody else in the limiter; \<open>late\<close> is how much longer than asked it slept. The second component is
the moment of the request.\<close>

definition rl_call :: "int \<Rightarrow> int \<times> int \<Rightarrow> int list \<Rightarrow> int list \<times> int" where
  "rl_call limit c ts =
     (case rl_enter limit (fst c) ts of
        (v, None) \<Rightarrow> (v, fst c)
      | (v, Some wait) \<Rightarrow> (rl_wake (fst c + wait + snd c) v, fst c + wait + snd c))"

text \<open>Any number of callers: the lock is free during the sleep.\<close>

record limiter =
  rl_times :: "int list"
  rl_clock :: int
  rl_sleeping :: "int list"
  rl_log :: "int list"

inductive rl_step :: "int \<Rightarrow> limiter \<Rightarrow> limiter \<Rightarrow> bool" for limit where
  RlPass: "now \<ge> rl_clock s \<Longrightarrow> rl_enter limit now (rl_times s) = (ts, None) \<Longrightarrow>
     rl_step limit s (s\<lparr>rl_times := ts, rl_clock := now, rl_log := rl_log s @ [now]\<rparr>)"
| RlSleep: "now \<ge> rl_clock s \<Longrightarrow> rl_enter limit now (rl_times s) = (ts, Some wait) \<Longrightarrow>
     rl_step limit s (s\<lparr>rl_times := ts, rl_clock := now, rl_sleeping := rl_sleeping s @ [now + wait]\<rparr>)"
| RlWake: "u \<in> set (rl_sleeping s) \<Longrightarrow> now \<ge> u \<Longrightarrow> now \<ge> rl_clock s \<Longrightarrow>
     rl_step limit s (s\<lparr>rl_times := rl_wake now (rl_times s), rl_clock := now,
       rl_sleeping := remove1 u (rl_sleeping s), rl_log := rl_log s @ [now]\<rparr>)"

section \<open>Proxy sessions\<close>

text \<open>\<^verbatim>\<open>strings.ReplaceAll\<close> for a pattern that is not empty.\<close>

function replace_all :: "string \<Rightarrow> string \<Rightarrow> string \<Rightarrow> string" where
  "replace_all old new s =
     (if old = [] \<or> s = [] then s
      else if has_prefix old s then new @ replace_all old new (drop (length old) s)
      else hd s # replace_all old new (tl s))"
  by pat_completeness auto
termination
  by (relation "measure (\<lambda>(old, new, s). length s)") auto

declare replace_all.simps [simp del]

record session_limits =
  sm_usernameBase :: string
  sm_password :: string
  sm_usernameTmpl :: string
  sm_sesstimeMins :: int
  sm_maxRequests :: int
  sm_max403 :: int
  sm_max403Rate :: rat
  sm_minReqForRate :: int
  sm_maxAge :: int

record session =
  ss_session :: string
  ss_born :: int
  ss_reqCount :: int
  ss_forbidCount :: int

definition formatUsername :: "session_limits \<Rightarrow> string \<Rightarrow> string" where
  "formatUsername l name =
     replace_all ''{sesstime}'' (itoa (sm_sesstimeMins l))
       (replace_all ''{session}'' name (replace_all ''{base}'' (sm_usernameBase l) (sm_usernameTmpl l)))"

definition rotateLocked :: "string \<Rightarrow> int \<Rightarrow> session" where
  "rotateLocked name now = \<lparr>ss_session = name, ss_born = now, ss_reqCount = 0, ss_forbidCount = 0\<rparr>"

text \<open>The rate of no request is not a number and exceeds nothing.\<close>

definition rotate_reason :: "(rat \<Rightarrow> rat) \<Rightarrow> session_limits \<Rightarrow> int \<Rightarrow> session \<Rightarrow> string option" where
  "rotate_reason fl l now s =
     (if sm_maxAge l > 0 \<and> now - ss_born s \<ge> sm_maxAge l then Some ''age''
      else if sm_maxRequests l > 0 \<and> ss_reqCount s \<ge> sm_maxRequests l then Some ''max_requests''
      else if sm_max403 l \<ge> 0 \<and> ss_forbidCount s \<ge> sm_max403 l \<and> ss_reqCount s > 0 then Some ''max_403''
      else if sm_max403Rate l > 0 \<and> ss_reqCount s \<ge> sm_minReqForRate l \<and> ss_reqCount s \<noteq> 0
              \<and> fl (of_int (ss_forbidCount s) / of_int (ss_reqCount s)) \<ge> sm_max403Rate l
      then Some ''403_rate''
      else None)"

definition maybeRotateLocked :: "(rat \<Rightarrow> rat) \<Rightarrow> session_limits \<Rightarrow> string \<Rightarrow> int \<Rightarrow> session \<Rightarrow> session" where
  "maybeRotateLocked fl l name now s =
     (case rotate_reason fl l now s of None \<Rightarrow> s | Some _ \<Rightarrow> rotateLocked name now)"

definition BeforeRequest :: "(rat \<Rightarrow> rat) \<Rightarrow> session_limits \<Rightarrow> string \<Rightarrow> int \<Rightarrow> session \<Rightarrow> session" where
  "BeforeRequest fl l name now s = maybeRotateLocked fl l name now s"

definition AfterResponse :: "(rat \<Rightarrow> rat) \<Rightarrow> session_limits \<Rightarrow> string \<Rightarrow> int \<Rightarrow> int option \<Rightarrow> session \<Rightarrow> session" where
  "AfterResponse fl l name now status s =
     maybeRotateLocked fl l name now
       (s\<lparr>ss_reqCount := ss_reqCount s + 1,
          ss_forbidCount := (if status = Some 403 then ss_forbidCount s + 1 else ss_forbidCount s)\<rparr>)"

subsection \<open>Configuration\<close>

text \<open>A default, a value of the configuration file that is taken when \<open>ok\<close> holds, and a variable of the
environment that overrides both.\<close>

definition override :: "('a \<Rightarrow> bool) \<Rightarrow> 'a \<Rightarrow> 'a option \<Rightarrow> 'a option \<Rightarrow> 'a" where
  "override ok d file env =
     (let a = (case file of Some n \<Rightarrow> if ok n then n else d | None \<Rightarrow> d)
      in case env of Some n \<Rightarrow> if ok n then n else a | None \<Rightarrow> a)"

record session_file =
  sf_UsernameTemplate :: "string option"
  sf_SesstimeMinutes :: "int option"
  sf_MaxRequests :: "int option"
  sf_Max403 :: "int option"
  sf_Max403Rate :: "rat option"
  sf_MinReqForRate :: "int option"
  sf_MaxAgeMinutes :: "int option"

definition user_base :: "string \<Rightarrow> string" where
  "user_base user = split_head ''-sesstime-'' (split_head ''-session-'' user)"

text \<open>The URL is parsed already; \<open>float\<close> is \<^verbatim>\<open>strconv.ParseFloat\<close>. The result is the error or the limits.\<close>

definition newProxySessionManager ::
  "(string \<Rightarrow> rat option) \<Rightarrow> (string \<Rightarrow> string) \<Rightarrow> session_file \<Rightarrow> url option \<Rightarrow> string + session_limits" where
  "newProxySessionManager float env f u =
     (case u of
        None \<Rightarrow> Inl ''parse''
      | Some u \<Rightarrow>
          if ur_Scheme u = [] \<or> ur_Host u = [] then Inl ''proxy url missing scheme/host''
          else (let user = (case ur_User u of Some (n, _) \<Rightarrow> n | None \<Rightarrow> []);
                    pass = (case ur_User u of Some (_, Some p) \<Rightarrow> p | _ \<Rightarrow> []);
                    ev = (\<lambda>k. trim_by is_space (env k));
                    num = (\<lambda>k. if ev k \<noteq> [] then atoi (ev k) else None);
                    sess = override (\<lambda>n. n \<ge> 0) 5 (sf_SesstimeMinutes f) (num ''PROXY_SESSION_SESSTIME_MINUTES'');
                    age = override (\<lambda>n. n \<ge> 0) sess (sf_MaxAgeMinutes f) (num ''PROXY_SESSION_MAX_AGE_MINUTES'')
                in if user = [] then Inl ''proxy url missing username''
                   else Inr
                     \<lparr>sm_usernameBase = user_base user, sm_password = pass,
                      sm_usernameTmpl =
                        (if ev ''PROXY_SESSION_USERNAME_TEMPLATE'' \<noteq> [] then ev ''PROXY_SESSION_USERNAME_TEMPLATE''
                         else case sf_UsernameTemplate f of
                                Some t \<Rightarrow> if trim_by is_space t \<noteq> [] then trim_by is_space t
                                          else ''{base}-session-{session}-sesstime-{sesstime}''
                              | None \<Rightarrow> ''{base}-session-{session}-sesstime-{sesstime}''),
                      sm_sesstimeMins = sess,
                      sm_maxRequests = override (\<lambda>n. n > 0) 500 (sf_MaxRequests f) (num ''PROXY_SESSION_MAX_REQUESTS''),
                      sm_max403 = override (\<lambda>n. n \<ge> 0) 20 (sf_Max403 f) (num ''PROXY_SESSION_MAX_403''),
                      sm_max403Rate = override (\<lambda>n. n \<ge> 0 \<and> n \<le> 1) (3 / 20) (sf_Max403Rate f)
                        (if ev ''PROXY_SESSION_MAX_403_RATE'' \<noteq> [] then float (ev ''PROXY_SESSION_MAX_403_RATE'') else None),
                      sm_minReqForRate = override (\<lambda>n. n \<ge> 0) 50 (sf_MinReqForRate f) (num ''PROXY_SESSION_MIN_REQ_FOR_RATE''),
                      sm_maxAge = (if age > 0 then age * minute else 0)\<rparr>))"

section \<open>Fetching\<close>

record fetch_settings =
  fs_enabled :: bool
  fs_maxDefers :: int
  fs_minProb :: rat
  fs_chunk :: int

definition load_fetch_settings :: "(string \<Rightarrow> rat option) \<Rightarrow> (string \<Rightarrow> string) \<Rightarrow> int \<Rightarrow> fetch_settings" where
  "load_fetch_settings float env chunk =
     (let ev = (\<lambda>k. trim_by is_space (env k));
          num = (\<lambda>k. if ev k \<noteq> [] then atoi (ev k) else None);
          prob = (\<lambda>k. if ev k \<noteq> [] then float (ev k) else None)
      in \<lparr>fs_enabled = (map to_lower (ev ''DOWNLOAD_SIZE_BASED_SCHEDULING'') \<noteq> ''false''),
          fs_maxDefers = override (\<lambda>n. n \<ge> 0) 5 None (num ''DOWNLOAD_LARGE_TASK_MAX_DEFERS''),
          fs_minProb = override (\<lambda>n. n \<ge> 0 \<and> n \<le> 1) (1 / 100) None (prob ''DOWNLOAD_LARGE_TASK_MIN_PROB''),
          fs_chunk = chunk\<rparr>)"

definition partMultiple :: "fetch_settings \<Rightarrow> int \<Rightarrow> int" where
  "partMultiple c sz =
     (if sz \<le> 0 \<or> fs_chunk c \<le> 0 then 1
      else (let m = dl_numParts (fs_chunk c) sz in if m < 1 then 1 else m))"

definition taskMultiple :: "fetch_settings \<Rightarrow> youtube_task \<Rightarrow> int" where
  "taskMultiple c t =
     (let a = (if yt_AudioURL t \<noteq> [] \<and> partMultiple c (yt_AudioSize t) > 1 then partMultiple c (yt_AudioSize t) else 1)
      in if yt_VideoURL t \<noteq> [] \<and> partMultiple c (yt_VideoSize t) > a then partMultiple c (yt_VideoSize t) else a)"

text \<open>\<open>defers\<close> is the map of the fetcher, with zero for a task it does not hold; \<open>draw\<close> is the random number.\<close>

definition shouldEnqueue :: "(rat \<Rightarrow> rat) \<Rightarrow> fetch_settings \<Rightarrow> (int \<Rightarrow> int) \<Rightarrow> rat \<Rightarrow> youtube_task \<Rightarrow> bool" where
  "shouldEnqueue fl c defers draw t =
     (if \<not> fs_enabled c then True
      else (let m = taskMultiple c t
            in if m \<le> 1 then True
               else if fs_maxDefers c > 0 \<and> defers (yt_ID t) \<ge> fs_maxDefers c then True
               else (let p0 = fl (1 / fl (of_int m * of_int m));
                         p = (if p0 < fs_minProb c then fs_minProb c else p0)
                     in draw < p)))"

record fetcher =
  fe_pending :: "youtube_task list"
  fe_chan :: "youtube_task list"
  fe_defers :: "int \<Rightarrow> int"
  fe_draws :: nat

text \<open>The loop over the tasks held back: \<open>available\<close> places in the channel, and at most as many deferrals as there
were tasks. \<open>draws\<close> are the random numbers in order.\<close>

function drain :: "(rat \<Rightarrow> rat) \<Rightarrow> fetch_settings \<Rightarrow> (nat \<Rightarrow> rat) \<Rightarrow> nat \<Rightarrow> nat \<Rightarrow> fetcher \<Rightarrow> fetcher" where
  "drain fl c draws available rotations s =
     (if available = 0 \<or> rotations = 0 then s
      else (case fe_pending s of
              [] \<Rightarrow> s
            | t # ts \<Rightarrow>
                if shouldEnqueue fl c (fe_defers s) (draws (fe_draws s)) t
                then drain fl c draws (available - 1) rotations
                       (s\<lparr>fe_pending := ts, fe_chan := fe_chan s @ [t],
                          fe_defers := (fe_defers s)(yt_ID t := 0), fe_draws := Suc (fe_draws s)\<rparr>)
                else drain fl c draws available (rotations - 1)
                       (s\<lparr>fe_pending := ts @ [t],
                          fe_defers := (fe_defers s)(yt_ID t := fe_defers s (yt_ID t) + 1),
                          fe_draws := Suc (fe_draws s)\<rparr>)))"
  by pat_completeness auto
termination
  by (relation "measure (\<lambda>(fl, c, draws, available, rotations, s). available + rotations)") auto

declare drain.simps [simp del]

text \<open>One round: the channel holds \<open>inChan\<close> of \<open>cap\<close> tasks; the answer of the backend joins the tasks held back
unless the channel is four fifths full.\<close>

definition fetch_round ::
  "(rat \<Rightarrow> rat) \<Rightarrow> fetch_settings \<Rightarrow> (nat \<Rightarrow> rat) \<Rightarrow> int \<Rightarrow> youtube_task list option \<Rightarrow> fetcher \<Rightarrow> fetcher" where
  "fetch_round fl c draws cap answer s =
     (let available = nat (cap - int (length (fe_chan s)));
          s1 = drain fl c draws available (length (fe_pending s)) s;
          threshold = (let h = \<lfloor>fl (of_int cap * fl (4 / 5))\<rfloor> in if h = 0 then 1 else h)
      in if int (length (fe_chan s1)) \<ge> threshold then s1
         else (case answer of None \<Rightarrow> s1 | Some tasks \<Rightarrow> s1\<lparr>fe_pending := fe_pending s1 @ tasks\<rparr>))"

end
