(* ===== verification/DownloadControlFacts.thy ===== *)
theory DownloadControlFacts
  imports DownloadControl "HOL-Library.Multiset"
begin

text \<open>
  The limit on requests per minute holds for callers that come one after the other and fails for two that wait at
  the same time; the sessions of the proxy stay within their limits; the fetcher loses no task and puts none off
  for ever.
\<close>

section \<open>Rate limiter\<close>

text \<open>The requests of the minute that ends at \<open>t\<close>.\<close>

definition window :: "int \<Rightarrow> int list \<Rightarrow> nat" where
  "window t ts = length (filter (\<lambda>s. t - minute < s \<and> s \<le> t) ts)"

fun rl_history :: "int \<Rightarrow> (int \<times> int) list \<Rightarrow> int list \<Rightarrow> int list" where
  "rl_history limit [] ts = []"
| "rl_history limit (c # cs) ts = (case rl_call limit c ts of (ts', stamp) \<Rightarrow> stamp # rl_history limit cs ts')"

text \<open>Each caller comes after the request before it.\<close>

fun one_by_one :: "int \<Rightarrow> int \<Rightarrow> (int \<times> int) list \<Rightarrow> int list \<Rightarrow> bool" where
  "one_by_one limit clock [] ts = True"
| "one_by_one limit clock (c # cs) ts =
     (clock \<le> fst c \<and> 0 \<le> snd c
      \<and> (case rl_call limit c ts of (ts', stamp) \<Rightarrow> one_by_one limit stamp cs ts'))"

lemma recent_recent: "now \<le> now' \<Longrightarrow> recent now' (recent now ts) = recent now' ts"
  by (auto simp: recent_def intro: filter_cong)

lemma recent_append: "recent now (xs @ ys) = recent now xs @ recent now ys"
  by (simp add: recent_def)

lemma window_append: "window t (xs @ ys) = window t xs + window t ys"
  by (simp add: window_def)

text \<open>What the limiter keeps is what has happened, up to requests that are too old to count.\<close>

definition rl_inv :: "int \<Rightarrow> int \<Rightarrow> int list \<Rightarrow> int list \<Rightarrow> bool" where
  "rl_inv limit clock h ts =
     ((\<forall>s\<ge>clock. recent s ts = recent s h) \<and> (\<forall>s\<in>set h. s \<le> clock) \<and> (\<forall>t. int (window t h) \<le> limit))"

lemma rl_admit:
  assumes "rl_inv limit clock h ts" "clock \<le> s" "int (length (recent s v)) \<le> limit - 1"
    and "\<forall>s'\<ge>s. recent s' v = recent s' ts"
  shows "rl_inv limit s (h @ [s]) (v @ [s])"
proof -
  have h: "\<forall>x\<in>set h. x \<le> clock" "\<forall>t. int (window t h) \<le> limit" "\<forall>s\<ge>clock. recent s ts = recent s h"
    using assms(1) by (auto simp: rl_inv_def)
  have rh: "recent s h = recent s v" using h(3) assms(2,4) by simp
  have "int (window t (h @ [s])) \<le> limit" for t
  proof (cases "s \<le> t")
    case True
    have "filter (\<lambda>x. t - minute < x \<and> x \<le> t) h = filter (\<lambda>x. t - minute < x \<and> x \<le> t) (recent s h)"
      using True by (auto simp: recent_def intro!: filter_cong)
    then have "window t h \<le> length (recent s h)" by (simp add: window_def)
    then show ?thesis using assms(3) rh by (simp add: window_append) (simp add: window_def)
  next
    case False
    then have "window t [s] = 0" by (simp add: window_def)
    then show ?thesis using h(2) by (simp add: window_append)
  qed
  moreover have "recent s' (v @ [s]) = recent s' (h @ [s])" if "s \<le> s'" for s'
    using that assms(2,4) h(3) by (simp add: recent_append)
  ultimately show ?thesis using h(1) assms(2) by (auto simp: rl_inv_def)
qed

lemma rl_call_inv:
  assumes "0 < limit" "rl_inv limit clock h ts" "clock \<le> fst c" "0 \<le> snd c" "rl_call limit c ts = (ts', stamp)"
  shows "rl_inv limit stamp (h @ [stamp]) ts'"
proof -
  obtain now late where c: "c = (now, late)" by (cases c)
  define v where "v = recent now ts"
  have vh: "v = recent now h" using assms(2,3) by (simp add: rl_inv_def v_def c)
  have "window now h = length v"
  proof -
    have "\<forall>x\<in>set h. x \<le> now" using assms(2,3) by (auto simp: rl_inv_def c)
    then have "filter (\<lambda>s. now - minute < s \<and> s \<le> now) h = recent now h" by (auto simp: recent_def intro!: filter_cong)
    then show ?thesis by (simp add: window_def vh)
  qed
  then have len: "int (length v) \<le> limit" using assms(2) by (metis rl_inv_def)
  show ?thesis
  proof (cases "int (length v) \<ge> limit")
    case False
    then have r: "ts' = v @ [now]" "stamp = now"
      using assms(1,5) by (auto simp: rl_call_def rl_enter_def Let_def c v_def [symmetric])
    have "recent now v = v" by (simp add: v_def recent_recent)
    then show ?thesis unfolding r
      using rl_admit [OF assms(2), of now v] assms(3) False by (simp add: c v_def recent_recent)
  next
    case True
    then obtain x xs where x: "v = x # xs" using assms(1) by (cases v) auto
    then have "now - minute < x" by (metis Cons_eq_filterD v_def recent_def)
    define s where "s = now + (minute - (now - x) + 100000000) + late"
    have wait: "minute - (now - x) + 100000000 > 0" using \<open>now - minute < x\<close> by simp
    have r: "ts' = recent s v @ [s]" "stamp = s"
      using True assms(1,5) wait x
      by (auto simp: rl_call_def rl_enter_def rl_wake_def Let_def c v_def [symmetric] s_def algebra_simps)
    have s: "now \<le> s" "\<not> s - minute < x" using wait assms(4) by (simp_all add: s_def c minute_def second_def)
    then have "recent s v = recent s xs" by (simp add: x recent_def)
    then have "length (recent s v) \<le> length xs" by (simp add: recent_def)
    then have "int (length (recent s v)) \<le> limit - 1" using len x by simp
    then show ?thesis unfolding r
      using rl_admit [OF assms(2), of s "recent s v"] assms(3) s(1) by (simp add: c v_def recent_recent)
  qed
qed

lemma rl_history_inv:
  assumes "0 < limit" "rl_inv limit clock h ts" "one_by_one limit clock cs ts"
  shows "int (window t (h @ rl_history limit cs ts)) \<le> limit"
  using assms(2,3)
proof (induction cs arbitrary: clock h ts)
  case Nil
  then show ?case by (simp add: rl_inv_def)
next
  case (Cons c cs)
  obtain ts' stamp where r: "rl_call limit c ts = (ts', stamp)" by (cases "rl_call limit c ts")
  have "rl_inv limit stamp (h @ [stamp]) ts'" using rl_call_inv [OF assms(1) Cons.prems(1) _ _ r] Cons.prems(2) by simp
  then show ?case using Cons.IH [of stamp "h @ [stamp]" ts'] Cons.prems(2) r by simp
qed

text \<open>C33: With one caller at a time, whenever they come and however long they oversleep, no minute of the whole
history holds more requests than the limit.\<close>

theorem rate_limit_one_by_one:
  assumes "0 < limit" "one_by_one limit 0 calls []"
  shows "int (window t (rl_history limit calls [])) \<le> limit"
proof -
  have "rl_inv limit 0 [] []" using assms(1) by (simp add: rl_inv_def window_def)
  from rl_history_inv [OF assms(1) this assms(2)] show ?thesis by simp
qed

definition wit_calls :: "(int \<times> int) list" where
  "wit_calls = [(0, 0), (5 * second, 0), (6 * second, 3), (66 * second, 0)]"

theorem rate_limit_one_by_one_witness:
  "rl_history 2 wit_calls [] = [0, 5 * second, 60100000003, 66 * second]
   \<and> int (window (61 * second) (rl_history 2 wit_calls [])) \<le> 2"
proof
  show "rl_history 2 wit_calls [] = [0, 5 * second, 60100000003, 66 * second]" by code_simp
  have "one_by_one 2 0 wit_calls []" by code_simp
  then show "int (window (61 * second) (rl_history 2 wit_calls [])) \<le> 2"
    by (rule rate_limit_one_by_one [rotated]) simp
qed

text \<open>Two callers that wait for the same request wake together, and both pass: with a limit of one there are two
requests in the same instant.\<close>

definition limiter0 :: limiter where
  "limiter0 = \<lparr>rl_times = [], rl_clock = 0, rl_sleeping = [], rl_log = []\<rparr>"

lemma waiting_callers_exceed_limit:
  "\<exists>s. (rl_step 1)\<^sup>*\<^sup>* limiter0 s \<and> window (70 * second) (rl_log s) = 2"
proof -
  let ?w = "60100000000 :: int"
  define s1 where "s1 = limiter0\<lparr>rl_times := [0], rl_clock := 0, rl_log := [0]\<rparr>"
  define s2 where "s2 = s1\<lparr>rl_sleeping := [?w]\<rparr>"
  define s3 where "s3 = s2\<lparr>rl_sleeping := [?w, ?w]\<rparr>"
  define s4 where "s4 = s3\<lparr>rl_times := [?w], rl_clock := ?w, rl_sleeping := [?w], rl_log := [0, ?w]\<rparr>"
  define s5 where "s5 = s4\<lparr>rl_times := [?w, ?w], rl_sleeping := [], rl_log := [0, ?w, ?w]\<rparr>"
  note [simp] = limiter0_def s1_def s2_def s3_def s4_def s5_def rl_enter_def rl_wake_def recent_def minute_def second_def
  have "rl_step 1 limiter0 s1" using RlPass [of limiter0 0 1 "[0]"] by simp
  moreover have "rl_step 1 s1 s2" using RlSleep [of s1 0 1 "[0]" ?w] by simp
  moreover have "rl_step 1 s2 s3" using RlSleep [of s2 0 1 "[0]" ?w] by simp
  moreover have "rl_step 1 s3 s4" using RlWake [of ?w s3 ?w 1] by simp
  moreover have "rl_step 1 s4 s5" using RlWake [of ?w s4 ?w 1] by simp
  ultimately have "(rl_step 1)\<^sup>*\<^sup>* limiter0 s5"
    by (meson rtranclp.rtrancl_refl rtranclp.rtrancl_into_rtrancl)
  moreover have "window (70 * second) (rl_log s5) = 2" by (simp add: window_def)
  ultimately show ?thesis by blast
qed

section \<open>Sessions\<close>

definition session_ok :: "session_limits \<Rightarrow> session \<Rightarrow> bool" where
  "session_ok l s =
     (0 \<le> ss_forbidCount s \<and> ss_forbidCount s \<le> ss_reqCount s
      \<and> (sm_maxRequests l > 0 \<longrightarrow> ss_reqCount s < sm_maxRequests l)
      \<and> (sm_max403 l \<ge> 0 \<longrightarrow> ss_reqCount s = 0 \<or> ss_forbidCount s < sm_max403 l))"

lemma session_ok_start: "session_ok l (rotateLocked name now)"
  by (simp add: session_ok_def rotateLocked_def)

lemma maybe_rotate_ok:
  assumes "0 \<le> ss_forbidCount s" "ss_forbidCount s \<le> ss_reqCount s"
  shows "session_ok l (maybeRotateLocked fl l name now s)"
proof (cases "rotate_reason fl l now s")
  case None
  then have "\<not> (sm_maxRequests l > 0 \<and> ss_reqCount s \<ge> sm_maxRequests l)"
    "\<not> (sm_max403 l \<ge> 0 \<and> ss_forbidCount s \<ge> sm_max403 l \<and> ss_reqCount s > 0)"
    unfolding rotate_reason_def by (metis option.distinct(1))+
  then show ?thesis using None assms by (auto simp: maybeRotateLocked_def session_ok_def)
next
  case (Some r)
  then show ?thesis using session_ok_start by (simp add: maybeRotateLocked_def)
qed

lemma session_ok_kept:
  assumes "session_ok l s"
  shows "session_ok l (BeforeRequest fl l name now s)" "session_ok l (AfterResponse fl l name now status s)"
proof -
  have n: "0 \<le> ss_forbidCount s" "ss_forbidCount s \<le> ss_reqCount s" using assms by (simp_all add: session_ok_def)
  show "session_ok l (BeforeRequest fl l name now s)" unfolding BeforeRequest_def by (rule maybe_rotate_ok [OF n])
  show "session_ok l (AfterResponse fl l name now status s)"
    unfolding AfterResponse_def using n by (intro maybe_rotate_ok) simp_all
qed

text \<open>After a response the session is at most its age old or new.\<close>

lemma session_age:
  "sm_maxAge l > 0 \<Longrightarrow> ss_born s \<le> now \<Longrightarrow> now - ss_born (BeforeRequest fl l name now s) < sm_maxAge l"
  by (auto simp: BeforeRequest_def maybeRotateLocked_def rotate_reason_def rotateLocked_def split: option.splits)

text \<open>Zero does not switch the limit on refusals off, as it does for the other limits: every response ends the
session.\<close>

lemma max403_zero_always_rotates:
  assumes "sm_max403 l = 0" "session_ok l s"
  shows "AfterResponse fl l name now status s = rotateLocked name now"
  using assms by (auto simp: AfterResponse_def maybeRotateLocked_def rotate_reason_def session_ok_def)

section \<open>Fetching\<close>

lemma drain_keeps_tasks:
  "mset (fe_chan (drain fl c draws a r s)) + mset (fe_pending (drain fl c draws a r s))
     = mset (fe_chan s) + mset (fe_pending s)
   \<and> length (fe_chan (drain fl c draws a r s)) \<le> length (fe_chan s) + a"
proof (induction fl c draws a r s rule: drain.induct)
  case (1 fl c draws a r s)
  show ?case
  proof (cases "a = 0 \<or> r = 0 \<or> fe_pending s = []")
    case True
    then show ?thesis by (auto simp: drain.simps [of fl c draws a r s])
  next
    case False
    then obtain t ts where p: "fe_pending s = t # ts" and n: "\<not> (a = 0 \<or> r = 0)" by (auto simp: neq_Nil_conv)
    show ?thesis
    proof (cases "shouldEnqueue fl c (fe_defers s) (draws (fe_draws s)) t")
      case True
      then show ?thesis using "1.IH"(1) [OF n p True] n
        by (simp add: drain.simps [of fl c draws a r s] p ac_simps)
    next
      case False
      then show ?thesis using "1.IH"(2) [OF n p False] n
        by (simp add: drain.simps [of fl c draws a r s] p ac_simps)
    qed
  qed
qed

text \<open>No task is put off more often than the setting says.\<close>

lemma drain_defers_bounded:
  assumes "fs_maxDefers c > 0" "\<forall>i. fe_defers s i \<le> fs_maxDefers c"
  shows "fe_defers (drain fl c draws a r s) i \<le> fs_maxDefers c"
  using assms
proof (induction fl c draws a r s rule: drain.induct)
  case (1 fl c draws a r s)
  show ?case
  proof (cases "a = 0 \<or> r = 0 \<or> fe_pending s = []")
    case True
    then show ?thesis using "1.prems" by (auto simp: drain.simps [of fl c draws a r s])
  next
    case False
    then obtain t ts where p: "fe_pending s = t # ts" and n: "\<not> (a = 0 \<or> r = 0)" by (auto simp: neq_Nil_conv)
    show ?thesis
    proof (cases "shouldEnqueue fl c (fe_defers s) (draws (fe_draws s)) t")
      case True
      then show ?thesis using "1.IH"(1) [OF n p True] "1.prems" n
        by (simp add: drain.simps [of fl c draws a r s] p)
    next
      case False
      then have "fe_defers s (yt_ID t) < fs_maxDefers c"
        using "1.prems" by (auto simp: shouldEnqueue_def Let_def split: if_splits)
      then show ?thesis using "1.IH"(2) [OF n p False] "1.prems" n False
        by (simp add: drain.simps [of fl c draws a r s] p)
    qed
  qed
qed

end
