(* ===== verification/Downloads.thy ===== *)
theory Downloads
  imports DownloadControl Multipart Endpoints YoutubeTasks "HOL-Library.Char_ord"
begin

text \<open>
  The downloads themselves, \<^verbatim>\<open>worker_downloader/downloader.go\<close>: the keys of the files, the tests on
  source URLs, the errors worth a retry, the upload of a small file and of a part, and the run of one task up to the
  reports it posts. The parts of a large file and their interleavings are in \<open>Multipart\<close>. Answers of S3, of the
  download service and of sources are arguments, as is the rendering of the date.
\<close>

section \<open>File names\<close>

definition safe_char :: "char \<Rightarrow> bool" where
  "safe_char c = ((CHR ''a'' \<le> c \<and> c \<le> CHR ''z'') \<or> (CHR ''A'' \<le> c \<and> c \<le> CHR ''Z'') \<or> (CHR ''0'' \<le> c \<and> c \<le> CHR ''9'')
     \<or> c = CHR ''.'' \<or> c = CHR ''-'' \<or> c = CHR ''_'')"

definition sanitizeTitle :: "string \<Rightarrow> string" where
  "sanitizeTitle title = trim_by (\<lambda>c. c = CHR ''_'') (map (\<lambda>c. if safe_char c then c else CHR ''_'') title)"

definition strftime_mapping :: "(string \<times> string) list" where
  "strftime_mapping = [(''%Y'', ''2006''), (''%m'', ''01''), (''%d'', ''02''), (''%H'', ''15''), (''%M'', ''04''), (''%S'', ''05'')]"

text \<open>The loop over the map takes its entries in some order.\<close>

definition strftimeToGo :: "(string \<times> string) list \<Rightarrow> string \<Rightarrow> string" where
  "strftimeToGo order format = fold (\<lambda>(k, v) s. replace_all k v s) order format"

text \<open>The loop that replaces the dates; \<open>render\<close> is \<^verbatim>\<open>time.Now().Format\<close>. \<open>None\<close>: more rounds than the fuel.\<close>

fun expand_dates :: "nat \<Rightarrow> (string \<times> string) list \<Rightarrow> (string \<Rightarrow> string) \<Rightarrow> string \<Rightarrow> string option" where
  "expand_dates 0 order render filename = None"
| "expand_dates (Suc fuel) order render filename =
     (case cut ''$(date +'' filename of
        None \<Rightarrow> Some filename
      | Some (pre, rest) \<Rightarrow>
          (case cut '')'' rest of
             None \<Rightarrow> Some filename
           | Some (format, post) \<Rightarrow>
               expand_dates fuel order render (pre @ render (strftimeToGo order format) @ post)))"

definition with_slash :: "string \<Rightarrow> string" where
  "with_slash prefix = (if prefix \<noteq> [] \<and> \<not> has_suffix ''/'' prefix then prefix @ ''/'' else prefix)"

definition generateFilename ::
  "nat \<Rightarrow> (string \<times> string) list \<Rightarrow> (string \<Rightarrow> string) \<Rightarrow> string \<Rightarrow> string \<Rightarrow> string \<Rightarrow> string \<Rightarrow> string \<Rightarrow> string option" where
  "generateFilename fuel order render template prefix videoID title ext =
     (if template = [] then Some []
      else map_option (\<lambda>f. with_slash prefix @ trim_prefix ''/''
               (replace_all ''%(ext)'' ext (replace_all ''%(title)'' (sanitizeTitle title) (replace_all ''%(id)'' videoID f))))
             (expand_dates fuel order render template))"

section \<open>Source URLs\<close>

definition hex_digit :: "char \<Rightarrow> nat option" where
  "hex_digit c =
     (if is_digit c then Some (of_char c - 48)
      else if CHR ''a'' \<le> c \<and> c \<le> CHR ''f'' then Some (of_char c - 87)
      else if CHR ''A'' \<le> c \<and> c \<le> CHR ''F'' then Some (of_char c - 55) else None)"

text \<open>\<^verbatim>\<open>url.QueryUnescape\<close>.\<close>

fun query_unescape :: "string \<Rightarrow> string option" where
  "query_unescape [] = Some []"
| "query_unescape (c # s) =
     (if c = CHR ''%''
      then (case s of
              a # b # t \<Rightarrow> (case (hex_digit a, hex_digit b) of
                             (Some x, Some y) \<Rightarrow> map_option (Cons (char_of (16 * x + y))) (query_unescape t)
                           | _ \<Rightarrow> None)
            | _ \<Rightarrow> None)
      else map_option (Cons (if c = CHR ''+'' then CHR '' '' else c)) (query_unescape s))"

fun split_char :: "char \<Rightarrow> string \<Rightarrow> string list" where
  "split_char sep [] = [[]]"
| "split_char sep (c # s) =
     (if c = sep then [] # split_char sep s
      else (case split_char sep s of [] \<Rightarrow> [[c]] | x # xs \<Rightarrow> (c # x) # xs))"

text \<open>\<^verbatim>\<open>Query()\<close> leaves out the pairs that cannot be read.\<close>

definition query_pair :: "string \<Rightarrow> (string \<times> string) option" where
  "query_pair p =
     (if p = [] \<or> CHR '';'' \<in> set p then None
      else (let (k, v) = (case cut ''='' p of Some kv \<Rightarrow> kv | None \<Rightarrow> (p, []))
            in case (query_unescape k, query_unescape v) of (Some k', Some v') \<Rightarrow> Some (k', v') | _ \<Rightarrow> None))"

definition query_pairs :: "string \<Rightarrow> (string \<times> string) list" where
  "query_pairs q = List.map_filter query_pair (split_char (CHR ''&'') q)"

definition query_get :: "string \<Rightarrow> string \<Rightarrow> string" where
  "query_get q k = (case map_of (query_pairs q) k of Some v \<Rightarrow> v | None \<Rightarrow> [])"

definition query_has :: "string \<Rightarrow> string \<Rightarrow> bool" where
  "query_has q k = (map_of (query_pairs q) k \<noteq> None)"

definition r2_host :: string where "r2_host = ''r2.cloudflarestorage.com''"

text \<open>The difference of the two times is an \<^verbatim>\<open>int64\<close>.\<close>

definition wrap64 :: "int \<Rightarrow> int" where
  "wrap64 x = (x + 2 ^ 63) mod 2 ^ 64 - 2 ^ 63"

definition sourceURLNeedsRefresh :: "int \<Rightarrow> string \<Rightarrow> bool" where
  "sourceURLNeedsRefresh now raw =
     (if raw = [] then False
      else (case parse_url raw of
              None \<Rightarrow> False
            | Some u \<Rightarrow>
                (let host = map to_lower (ur_Host u); q = ur_Query u
                 in if has_substring r2_host host \<and> map to_lower (query_get q ''x-id'') = ''putobject'' then True
                    else if has_substring ''googlevideo.com'' host \<and> query_get q ''expire'' \<noteq> []
                    then (case atoi (query_get q ''expire'') of
                            None \<Rightarrow> False
                          | Some ts \<Rightarrow> wrap64 (ts - now) \<le> 180)
                    else False)))"

definition to_upper :: "char \<Rightarrow> char" where
  "to_upper c = (if CHR ''a'' \<le> c \<and> c \<le> CHR ''z'' then char_of (of_char c - 32 :: nat) else c)"

definition maybeNeedsPresignedGet :: "string \<Rightarrow> bool" where
  "maybeNeedsPresignedGet srcURL =
     (case parse_url srcURL of
        None \<Rightarrow> False
      | Some u \<Rightarrow>
          if \<not> has_substring r2_host (map to_lower (ur_Host u)) then False
          else (let q = ur_Query u; xid = map to_lower (query_get q ''x-id'')
                in if xid \<noteq> [] \<and> xid \<noteq> ''getobject'' then True
                   else if map to_upper (query_get q ''method'') = ''PUT'' then True
                   else if query_has q ''X-Amz-Signature'' \<or> query_has q ''X-Amz-Credential'' \<or> query_has q ''X-Amz-Algorithm''
                   then False else True))"

text \<open>The bucket and the key that are signed.\<close>

definition presignR2GetObjectURL :: "string \<Rightarrow> string + string \<times> string" where
  "presignR2GetObjectURL srcURL =
     (case parse_url srcURL of
        None \<Rightarrow> Inl ''parse''
      | Some u \<Rightarrow>
          (let path = trim_prefix ''/'' (ur_Path u)
           in if path = [] then Inl ''empty path in srcURL''
              else (case cut ''/'' path of
                      None \<Rightarrow> Inl (''cannot derive bucket/key from srcURL path: '' @ ur_Path u)
                    | Some bk \<Rightarrow> Inr bk)))"

definition getContentTypeFromURL :: "string \<Rightarrow> string" where
  "getContentTypeFromURL sourceURL =
     (case parse_url sourceURL of None \<Rightarrow> [] | Some u \<Rightarrow> query_get (ur_Query u) ''mime'')"

definition content_types :: "(string \<times> string) list" where
  "content_types = [(''mp4'', ''video/mp4''), (''webm'', ''video/webm''), (''mkv'', ''video/x-matroska''), (''avi'', ''video/x-msvideo''),
     (''mov'', ''video/quicktime''), (''m4a'', ''audio/mp4''), (''mp3'', ''audio/mpeg''), (''opus'', ''audio/opus''), (''ogg'', ''audio/ogg''),
     (''wav'', ''audio/wav''), (''flac'', ''audio/flac''), (''aac'', ''audio/aac'')]"

definition getContentTypeFromKey :: "string \<Rightarrow> string" where
  "getContentTypeFromKey key =
     (let ext = rev (takeWhile (\<lambda>c. c \<noteq> CHR ''.'') (rev key))
      in if CHR ''.'' \<notin> set key \<or> ext = [] then ''application/octet-stream''
         else (case map_of content_types (map to_lower ext) of Some ct \<Rightarrow> ct | None \<Rightarrow> ''application/octet-stream''))"

definition getContentType :: "string \<Rightarrow> string \<Rightarrow> string" where
  "getContentType sourceURL key =
     (if getContentTypeFromURL sourceURL \<noteq> [] then getContentTypeFromURL sourceURL else getContentTypeFromKey key)"

section \<open>Retrying a transfer\<close>

definition retryable_messages :: "string list" where
  "retryable_messages = [''http status 403'', ''403 forbidden'', ''server gave http response to https client'', ''eof'',
     ''connection reset by peer'', ''incomplete upload'', ''collect parts timeout'', ''missing etag'', ''context deadline exceeded'',
     ''http status 429'', ''http status 500'', ''http status 502'', ''http status 503'', ''http status 504'']"

definition isRetryableTransferError :: "string \<Rightarrow> bool" where
  "isRetryableTransferError err = list_ex (\<lambda>m. has_substring m (map to_lower err)) retryable_messages"

definition is_proxy_error :: "string \<Rightarrow> bool" where
  "is_proxy_error err = list_ex (\<lambda>m. has_substring m (map to_lower err))
     [''server gave http response to https client'', ''eof'', ''connection reset by peer'']"

text \<open>\<open>transfer\<close> is the error of the transfer of an attempt. The recursion counts the attempts that are left; the result is the
number of the last attempt and its error.\<close>

fun retry_transfer :: "(nat \<Rightarrow> string option) \<Rightarrow> nat \<Rightarrow> nat \<Rightarrow> nat \<Rightarrow> nat \<times> string option" where
  "retry_transfer transfer 0 attempt proxyErrs = (attempt - 1, None)"
| "retry_transfer transfer (Suc left) attempt proxyErrs =
     (case transfer attempt of
        None \<Rightarrow> (attempt, None)
      | Some e \<Rightarrow>
          if left = 0 \<or> \<not> isRetryableTransferError e then (attempt, Some e)
          else if is_proxy_error e
          then (if proxyErrs + 1 > 3 then (attempt, Some e)
                else retry_transfer transfer left (Suc attempt) (proxyErrs + 1))
          else retry_transfer transfer left (Suc attempt) proxyErrs)"

definition transferFileWithRetry :: "dl_settings \<Rightarrow> (nat \<Rightarrow> string option) \<Rightarrow> nat \<times> string option" where
  "transferFileWithRetry c transfer = retry_transfer transfer (nat (ds_MaxAttempts c)) 1 0"

definition retry_backoff :: "dl_settings \<Rightarrow> string \<Rightarrow> nat \<Rightarrow> int" where
  "retry_backoff c err attempt =
     (if is_proxy_error err then 2 * second
      else (let b = ds_Backoff c * int attempt * second in if b > 30 * second then 30 * second else b))"

definition isMissingEtagRecoverable :: "string \<Rightarrow> bool" where
  "isMissingEtagRecoverable err = has_substring missing_etag (map to_lower err)"

section \<open>Small files\<close>

datatype head_answer = HeadError string | HeadSize "int option"

text \<open>The polling up to the deadline: the size, or the error of the last answer.\<close>

fun verify_single :: "int \<Rightarrow> head_answer list \<Rightarrow> string option \<Rightarrow> string option + int" where
  "verify_single sz [] err = Inl err"
| "verify_single sz (h # hs) err =
     (case h of
        HeadError e \<Rightarrow> verify_single sz hs (Some e)
      | HeadSize None \<Rightarrow> verify_single sz hs (Some ''head object content-length missing'')
      | HeadSize (Some n) \<Rightarrow>
          if n = sz then Inr n
          else verify_single sz hs (Some (''head object size mismatch: expected '' @ itoa sz @ '', got '' @ itoa n)))"

record single_answer =
  sg_reply :: "string + int \<times> string"
  sg_etag :: string
  sg_heads :: "head_answer list"

fun single_attempts :: "int \<Rightarrow> (nat \<Rightarrow> single_answer) \<Rightarrow> nat \<Rightarrow> nat \<Rightarrow> string option" where
  "single_attempts sz ans attempt 0 = Some ''single upload failed: unknown error''"
| "single_attempts sz ans attempt (Suc left) =
     (let a = ans attempt; again = single_attempts sz ans (Suc attempt) left
      in case sg_reply a of
           Inl e \<Rightarrow> if left = 0 then Some (''single upload request failed: '' @ e) else again
         | Inr (status, body) \<Rightarrow>
             if status < 200 \<or> status \<ge> 300
             then (if (status \<ge> 500 \<or> status = 429) \<and> left > 0 then again
                   else Some (''single upload http status '' @ itoa status @ '': '' @ body))
             else if sg_etag a = []
             then (if left > 0 then again else Some (''single upload response missing etag: '' @ body))
             else (case verify_single sz (sg_heads a) None of
                     Inr _ \<Rightarrow> None
                   | Inl e \<Rightarrow> if left > 0 then again
                              else Some (''single upload verification failed after '' @ (case e of Some m \<Rightarrow> m | None \<Rightarrow> []))))"

text \<open>With direct uploads: the answers of the source - status, body and length - and of the upload.\<close>

record direct_answer =
  da_source :: "string + int \<times> string \<times> int"
  da_put :: "string + int \<times> string"
  da_heads :: "head_answer list"

definition direct_single :: "int \<Rightarrow> direct_answer \<Rightarrow> string option" where
  "direct_single sz a =
     (case da_source a of
        Inl e \<Rightarrow> Some (''direct download failed: '' @ e)
      | Inr (st, body, len) \<Rightarrow>
          if st < 200 \<or> st \<ge> 300 then Some (''direct download http status '' @ itoa st @ '': '' @ body)
          else (let uploadSize = (if len > 0 then len else sz)
                in case da_put a of
                     Inl e \<Rightarrow> Some (''direct upload failed: '' @ e)
                   | Inr (pst, pbody) \<Rightarrow>
                       if pst < 200 \<or> pst \<ge> 300 then Some (''direct upload http status '' @ itoa pst @ '': '' @ pbody)
                       else (case verify_single uploadSize (da_heads a) None of
                               Inr _ \<Rightarrow> None
                             | Inl (Some e) \<Rightarrow> Some (''single upload verification failed: '' @ e)
                             | Inl None \<Rightarrow> Some ''single upload verification failed: unknown error'')))"

text \<open>\<open>direct\<close>: \<^verbatim>\<open>DIRECT_R2_UPLOAD\<close> is set; \<open>directMax\<close>: the largest size for it, zero for any.\<close>

definition transferSingleFile ::
  "dl_settings \<Rightarrow> bool \<Rightarrow> int \<Rightarrow> string option \<Rightarrow> direct_answer \<Rightarrow> (nat \<Rightarrow> single_answer) \<Rightarrow> int \<Rightarrow> string option" where
  "transferSingleFile c direct directMax presignErr da ans sz =
     (case presignErr of
        Some e \<Rightarrow> Some (''failed to generate single upload url: '' @ e)
      | None \<Rightarrow>
          if direct \<and> (directMax \<le> 0 \<or> sz \<le> directMax) then direct_single sz da
          else single_attempts sz ans 1 (nat (if ds_MaxAttempts c < 3 then 3 else ds_MaxAttempts c)))"

section \<open>Parts\<close>

record chunk_reply =
  cr_status :: int
  cr_header :: string
  cr_body :: string
  cr_bodyETag :: string

text \<open>The three posts: a transport error of the last, or the reply that ends the loop.\<close>

fun chunk_posts :: "int \<Rightarrow> (nat \<Rightarrow> string + chunk_reply) \<Rightarrow> nat \<Rightarrow> nat \<Rightarrow> string + chunk_reply" where
  "chunk_posts partNum ans attempt 0 = Inl []"
| "chunk_posts partNum ans attempt (Suc left) =
     (case ans attempt of
        Inl e \<Rightarrow>
          if left = 0 then Inl (''failed to upload chunk '' @ itoa partNum @ '': HTTP request failed after '' @ itoa (int attempt)
                 @ '' attempts: '' @ e)
          else chunk_posts partNum ans (Suc attempt) left
      | Inr r \<Rightarrow>
          if cr_status r \<ge> 500 \<or> cr_status r = 429
          then (if left = 0 then Inr r else chunk_posts partNum ans (Suc attempt) left)
          else Inr r)"

definition trim_quotes :: "string \<Rightarrow> string" where
  "trim_quotes = trim_by (\<lambda>c. c = CHR 0x22)"

text \<open>The ETag of a reply; \<open>lookup\<close> is what \<^verbatim>\<open>fetchPartETag\<close> finds when the reply has none.\<close>

definition chunk_result :: "string + string \<Rightarrow> chunk_reply \<Rightarrow> string + string" where
  "chunk_result lookup r =
     (if cr_status r \<ge> 200 \<and> cr_status r < 300
      then (let etag = (if trim_quotes (cr_header r) \<noteq> [] then trim_quotes (cr_header r) else cr_bodyETag r)
            in if etag \<noteq> [] then Inr etag
               else (case lookup of
                       Inr e \<Rightarrow> if e \<noteq> [] then Inr e
                                else Inl (missing_etag @ '' (status='' @ itoa (cr_status r) @ '') and ListParts lookup failed'')
                     | Inl m \<Rightarrow> Inl (missing_etag @ '' (status='' @ itoa (cr_status r) @ '') and ListParts lookup failed: '' @ m)))
      else if cr_status r = 403
      then Inl (''403 Forbidden: presigned URL authentication failed - check if upload service uses PUT method and correct headers. Response: ''
             @ cr_body r)
      else Inl (''HTTP status '' @ itoa (cr_status r) @ '': '' @ cr_body r))"

text \<open>With direct uploads: the answer of the source, and that of the upload with its ETag.\<close>

definition direct_chunk :: "string + int \<times> string \<Rightarrow> string + int \<times> string \<times> string \<Rightarrow> string + string" where
  "direct_chunk source put =
     (case source of
        Inl e \<Rightarrow> Inl (''direct chunk download failed: '' @ e)
      | Inr (st, body) \<Rightarrow>
          if st \<noteq> 206 \<and> st \<noteq> 200 then Inl (''direct chunk download http status '' @ itoa st @ '': '' @ body)
          else (case put of
                  Inl e \<Rightarrow> Inl (''direct chunk upload failed: '' @ e)
                | Inr (pst, pbody, etag) \<Rightarrow>
                    if pst < 200 \<or> pst \<ge> 300 then Inl (''direct chunk upload http status '' @ itoa pst @ '': '' @ pbody)
                    else if trim_quotes etag = [] then Inl ''missing etag in direct chunk upload response''
                    else Inr (trim_quotes etag)))"

definition uploadChunkExternal ::
  "int \<Rightarrow> string option \<Rightarrow> (string + string) option \<Rightarrow> (nat \<Rightarrow> string + chunk_reply) \<Rightarrow> string + string \<Rightarrow> part
     \<Rightarrow> string + string" where
  "uploadChunkExternal chunk presignErr direct ans lookup p =
     (case presignErr of
        Some e \<Rightarrow> Inl (''failed to generate presigned URL for part '' @ itoa (pt_num p) @ '': '' @ e)
      | None \<Rightarrow>
     (case direct of
        Some r \<Rightarrow> r
      | None \<Rightarrow>
          if pt_len p \<le> 0 then Inl (''invalid chunk size for part '' @ itoa (pt_num p))
          else if pt_len p > chunk then Inl (''chunk size exceeds limit for part '' @ itoa (pt_num p))
          else (case chunk_posts (pt_num p) ans 1 3 of Inl e \<Rightarrow> Inl e | Inr r \<Rightarrow> chunk_result lookup r)))"

subsection \<open>Looking up a part\<close>

text \<open>A page of parts is a list of numbers and ETags, or an error. The search stops at the part, at an error - and
whenever an error is remembered from before.\<close>

fun search_parts :: "int \<Rightarrow> (int \<times> string) list option list \<Rightarrow> string option \<Rightarrow> string option \<times> string option" where
  "search_parts partNum [] lastErr = (None, lastErr)"
| "search_parts partNum (page # pages) lastErr =
     (case page of
        None \<Rightarrow> (None, Some ''list parts'')
      | Some parts \<Rightarrow>
          (case map_of parts partNum of
             Some e \<Rightarrow> if e \<noteq> [] then (Some (trim_quotes e), lastErr)
                       else (None, Some (''part '' @ itoa partNum @ '' found but ETag empty''))
           | None \<Rightarrow> if lastErr \<noteq> None then (None, lastErr) else search_parts partNum pages lastErr))"

fun fetch_attempts :: "int \<Rightarrow> (nat \<Rightarrow> (int \<times> string) list option list) \<Rightarrow> nat \<Rightarrow> nat \<Rightarrow> string option \<Rightarrow> string + string" where
  "fetch_attempts partNum listings attempt 0 lastErr = Inl (''part '' @ itoa partNum @ '' not found in ListParts'')"
| "fetch_attempts partNum listings attempt (Suc left) lastErr =
     (case search_parts partNum (listings attempt) lastErr of
        (found, err) \<Rightarrow>
          (case found of
             Some e \<Rightarrow> if e \<noteq> [] then Inr e
                       else if left = 0 then Inl (''part '' @ itoa partNum @ '' not found in ListParts after '' @ itoa (int attempt) @ '' attempts'')
                       else fetch_attempts partNum listings (Suc attempt) left err
           | None \<Rightarrow> if left = 0 then Inl (''part '' @ itoa partNum @ '' not found in ListParts after '' @ itoa (int attempt) @ '' attempts'')
                     else fetch_attempts partNum listings (Suc attempt) left err))"

text \<open>\<open>allowed\<close>: how many of the 20 attempts end before the deadline of the context.\<close>

definition fetchPartETag :: "int \<Rightarrow> (nat \<Rightarrow> (int \<times> string) list option list) \<Rightarrow> nat \<Rightarrow> string + string" where
  "fetchPartETag partNum listings allowed = fetch_attempts partNum listings 1 (min 20 allowed) None"

section \<open>Sizes and left-overs\<close>

text \<open>The answer to a request for the first byte; \<open>None\<close> is an error of the transport.\<close>

record size_reply =
  sz_status :: int
  sz_contentRange :: string
  sz_contentLength :: int
  sz_location :: string

definition range_total :: "string \<Rightarrow> int option" where
  "range_total h =
     (if has_prefix ''bytes '' h
      then (case split_char (CHR ''/'') h of
              [_, b] \<Rightarrow> (let n = sscanf_d (trim_by is_space b) in if n > 0 then Some n else None)
            | _ \<Rightarrow> None)
      else None)"

text \<open>Redirections are followed without a limit; \<open>None\<close>: more of them than the fuel.\<close>

fun getFileSizeFromURL :: "nat \<Rightarrow> (string \<Rightarrow> size_reply option) \<Rightarrow> string \<Rightarrow> (string + int) option" where
  "getFileSizeFromURL 0 get url = None"
| "getFileSizeFromURL (Suc fuel) get url =
     (case get url of
        None \<Rightarrow> Some (Inl ''failed to get file size'')
      | Some r \<Rightarrow>
          if sz_status r = 206
          then (if sz_contentRange r \<noteq> []
                then (case range_total (sz_contentRange r) of
                        Some n \<Rightarrow> Some (Inr n)
                      | None \<Rightarrow> Some (Inl ''failed to parse Content-Range header''))
                else Some (Inl ''206 Partial Content response missing Content-Range header''))
          else if sz_status r = 200
          then (case (if sz_contentRange r \<noteq> [] then range_total (sz_contentRange r) else None) of
                  Some n \<Rightarrow> Some (Inr n)
                | None \<Rightarrow>
                    if sz_contentLength r > 0
                    then (if sz_contentLength r < 100 then Some (Inl ''received 200 OK with suspiciously small Content-Length'')
                          else Some (Inr (sz_contentLength r)))
                    else Some (Inl ''200 OK response missing Content-Length header''))
          else if (sz_status r = 302 \<or> sz_status r = 301) \<and> sz_location r \<noteq> []
          then getFileSizeFromURL fuel get (sz_location r)
          else Some (Inl ''unexpected status code''))"

text \<open>The unfinished uploads below a prefix, page by page, and the ones that are aborted.\<close>

fun listIncompleteMultipartUploads :: "'u list option list \<Rightarrow> 'u list option" where
  "listIncompleteMultipartUploads [] = Some []"
| "listIncompleteMultipartUploads (page # pages) =
     (case page of
        None \<Rightarrow> None
      | Some us \<Rightarrow> map_option (append us) (listIncompleteMultipartUploads pages))"

definition cleanupIncompleteMultipartUploads :: "(string \<times> string) list option list \<Rightarrow> string + (string \<times> string) list" where
  "cleanupIncompleteMultipartUploads pages =
     (case listIncompleteMultipartUploads pages of
        None \<Rightarrow> Inl ''failed to list incomplete uploads''
      | Some us \<Rightarrow> Inr us)"

section \<open>A file\<close>

text \<open>\<open>multi\<close> is the end of the multipart upload: its calls and its error.\<close>

definition dl_transferFile :: "dl_settings \<Rightarrow> string option \<Rightarrow> string option \<Rightarrow> s3_call list \<times> string option \<Rightarrow> int \<Rightarrow> s3_call list \<times> string option" where
  "dl_transferFile c single create multi sz =
     (if sz \<le> 0 then ([], Some (''invalid content length: '' @ itoa sz))
      else if sz \<le> ds_ChunkSize c then ([], single)
      else (case create of Some e \<Rightarrow> ([], Some e) | None \<Rightarrow> multi))"

section \<open>A task\<close>

record dl_job =
  dj_R2Prefix :: string
  dj_AudioExtension :: string
  dj_VideoExtension :: string
  dj_FilenameTemplate :: string

record record_update =
  ru_ID :: int
  ru_JobID :: int
  ru_Status :: string
  ru_ErrorMessage :: string
  ru_WorkerID :: string
  ru_Title :: "string option"
  ru_VideoID :: "string option"
  ru_AudioURL :: "string option"
  ru_AudioSize :: "int option"
  ru_VideoURL :: "string option"
  ru_VideoSize :: "int option"

definition nonempty :: "string \<Rightarrow> string option" where "nonempty s = (if s \<noteq> [] then Some s else None)"

definition positive :: "int \<Rightarrow> int option" where "positive n = (if n > 0 then Some n else None)"

definition updateTaskRecordInDB :: "string \<Rightarrow> youtube_task \<Rightarrow> string \<Rightarrow> string \<Rightarrow> record_update" where
  "updateTaskRecordInDB wid t status msg =
     \<lparr>ru_ID = yt_ID t, ru_JobID = yt_JobID t, ru_Status = status, ru_ErrorMessage = msg, ru_WorkerID = wid,
      ru_Title = nonempty (yt_Title t), ru_VideoID = nonempty (yt_VideoID t), ru_AudioURL = nonempty (yt_AudioURL t),
      ru_AudioSize = positive (yt_AudioSize t), ru_VideoURL = nonempty (yt_VideoURL t), ru_VideoSize = positive (yt_VideoSize t)\<rparr>"

text \<open>A post to \<^verbatim>\<open>/tasks/update\<close> is the task it decodes to on the backend.\<close>

datatype dl_post = TaskUpdate youtube_task | RecordUpdate record_update

definition updateTaskStatusWithTask :: "string \<Rightarrow> youtube_task \<Rightarrow> string \<Rightarrow> dl_post list" where
  "updateTaskStatusWithTask wid t status =
     [TaskUpdate (YoutubeTask0\<lparr>yt_ID := yt_ID t, yt_Status := status\<rparr>), RecordUpdate (updateTaskRecordInDB wid t status [])]"

definition reportErrorWithTask :: "string \<Rightarrow> youtube_task \<Rightarrow> string \<Rightarrow> dl_post list" where
  "reportErrorWithTask wid t msg =
     [TaskUpdate (YoutubeTask0\<lparr>yt_ID := yt_ID t, yt_Status := ''FAILED'', yt_ErrorMessage := msg, yt_IsDownloadFail := True\<rparr>),
      RecordUpdate (updateTaskRecordInDB wid t ''FAILED'' msg)]"

text \<open>The key of a file: \<open>names\<close> is \<^verbatim>\<open>generateFilename\<close> for an extension.\<close>

definition file_key :: "(string \<Rightarrow> string) \<Rightarrow> dl_job \<Rightarrow> youtube_task \<Rightarrow> string \<Rightarrow> string \<Rightarrow> string \<Rightarrow> string" where
  "file_key names j t configured fallback suffix =
     (let ext = (if configured = [] then fallback else configured)
      in if names ext \<noteq> [] then names ext
         else with_slash (dj_R2Prefix j) @ yt_VideoID t @ suffix @ ext)"

definition audio_key :: "(string \<Rightarrow> string) \<Rightarrow> dl_job \<Rightarrow> youtube_task \<Rightarrow> string" where
  "audio_key names j t = file_key names j t (dj_AudioExtension j) ''m4a'' ''_audio.''"

definition video_key :: "(string \<Rightarrow> string) \<Rightarrow> dl_job \<Rightarrow> youtube_task \<Rightarrow> string" where
  "video_key names j t = file_key names j t (dj_VideoExtension j) ''mp4'' ''_video.''"

text \<open>\<open>run url key sz\<close> is the error of \<^verbatim>\<open>transferFileWithRetry\<close>; when both files fail their errors come in the order in which
the goroutines end.\<close>

definition dl_errors :: "(string \<Rightarrow> string) \<Rightarrow> (string \<Rightarrow> string \<Rightarrow> int \<Rightarrow> string option) \<Rightarrow> bool \<Rightarrow> dl_job \<Rightarrow> youtube_task \<Rightarrow> string list" where
  "dl_errors names run audioFirst j t =
     (let a = (if yt_AudioURL t \<noteq> []
               then (case run (yt_AudioURL t) (audio_key names j t) (yt_AudioSize t) of
                       Some e \<Rightarrow> [''audio failed: '' @ e] | None \<Rightarrow> []) else []);
          v = (if yt_VideoURL t \<noteq> []
               then (case run (yt_VideoURL t) (video_key names j t) (yt_VideoSize t) of
                       Some e \<Rightarrow> [''video failed: '' @ e] | None \<Rightarrow> []) else [])
      in if audioFirst then a @ v else v @ a)"

fun join :: "string \<Rightarrow> string list \<Rightarrow> string" where
  "join sep [] = []"
| "join sep [x] = x"
| "join sep (x # xs) = x @ sep @ join sep xs"

definition dl_processTask ::
  "int \<Rightarrow> string \<Rightarrow> (string \<Rightarrow> string) \<Rightarrow> (string \<Rightarrow> string \<Rightarrow> int \<Rightarrow> string option) \<Rightarrow> bool \<Rightarrow> string + dl_job \<Rightarrow> youtube_task \<Rightarrow> dl_post list" where
  "dl_processTask now wid names run audioFirst job t =
     updateTaskStatusWithTask wid t ''RUNNING'' @
     (case job of
        Inl e \<Rightarrow> reportErrorWithTask wid t (''Failed to get job info: '' @ e)
      | Inr j \<Rightarrow>
          if yt_AudioURL t = [] \<and> yt_VideoURL t = []
          then reportErrorWithTask wid t ''both audio_url and video_url are empty, task is not downloadable''
          else if sourceURLNeedsRefresh now (yt_AudioURL t) \<or> sourceURLNeedsRefresh now (yt_VideoURL t)
          then updateTaskStatusWithTask wid t ''PENDING''
          else (let errs = dl_errors names run audioFirst j t
                in if length errs > 0 then reportErrorWithTask wid t (join ''; '' errs)
                   else updateTaskStatusWithTask wid t ''COMPLETED''))"

end
