(* ===== verification/DownloadsFacts.thy ===== *)
theory DownloadsFacts
  imports Downloads TaskScanFacts
begin

text \<open>
  The file names of the downloader, its retries, and the outcome of a task, together with what the backend makes of
  the reports.
\<close>

section \<open>Dates in file names\<close>

lemma cut_SomeD: "cut sep s = Some (a, b) \<Longrightarrow> s = a @ sep @ b"
  by (induction sep s arbitrary: a rule: cut.induct) (auto split: if_splits dest: has_prefixD)

lemma cut_char_before: "cut [c] s = Some (a, b) \<Longrightarrow> c \<notin> set a"
  by (induction "[c]" s arbitrary: a rule: cut.induct) (auto simp: has_prefix_def split: if_splits)

text \<open>The replacement of all codes in one pass over the string.\<close>

fun expand_codes :: "(string \<times> string) list \<Rightarrow> string \<Rightarrow> string" where
  "expand_codes tab (c # d # s) =
     (case map_of tab [c, d] of Some v \<Rightarrow> v @ expand_codes tab s | None \<Rightarrow> c # expand_codes tab (d # s))"
| "expand_codes tab s = s"

definition code_table :: "(string \<times> string) list \<Rightarrow> bool" where
  "code_table tab =
     (distinct (map fst tab) \<and> (\<forall>(k, v)\<in>set tab. (\<exists>x. k = [CHR ''%'', x] \<and> x \<noteq> CHR ''%'' \<and> \<not> is_digit x)
        \<and> v \<noteq> [] \<and> list_all is_digit v))"

lemma is_digit_percent [simp]: "\<not> is_digit (CHR ''%'')" "\<not> is_digit (CHR '')'')"
  by (simp_all add: is_digit_def)

lemma code_tableD:
  assumes "code_table tab" "map_of tab k = Some v"
  shows "\<exists>x. k = [CHR ''%'', x] \<and> x \<noteq> CHR ''%'' \<and> \<not> is_digit x" "v \<noteq> []" "list_all is_digit v"
  using assms by (auto simp: code_table_def dest!: map_of_SomeD)

lemma replace_one_code: "replace_all [c, d] v s = expand_codes [([c, d], v)] s"
proof (induction "[([c, d], v)]" s rule: expand_codes.induct)
  case (1 a b s)
  have "replace_all [c, d] v (a # b # s) = (if c = a \<and> d = b then v @ replace_all [c, d] v s else a # replace_all [c, d] v (b # s))"
    by (subst replace_all.simps) (auto simp: has_prefix_def)
  with 1 show ?case by auto
qed (simp_all add: replace_all.simps has_prefix_def)

lemma expand_skip:
  assumes "code_table tab" "c \<noteq> CHR ''%''"
  shows "expand_codes tab (c # s) = c # expand_codes tab s"
proof (cases s)
  case (Cons d t)
  have "map_of tab [c, d] = None" using code_tableD(1) [OF assms(1)] assms(2) by (cases "map_of tab [c, d]") auto
  then show ?thesis by (simp add: Cons)
qed simp

lemma expand_skip_value:
  "code_table tab \<Longrightarrow> list_all is_digit v \<Longrightarrow> expand_codes tab (v @ s) = v @ expand_codes tab s"
proof (induction v)
  case (Cons a v)
  then have "a \<noteq> CHR ''%''" using is_digit_percent(1) by auto
  then show ?case using Cons by (simp add: expand_skip)
qed simp

lemma expand_head:
  assumes "code_table tab"
  shows "expand_codes tab (CHR ''%'' # s) \<noteq> [] \<and>
    (hd (expand_codes tab (CHR ''%'' # s)) = CHR ''%'' \<or> is_digit (hd (expand_codes tab (CHR ''%'' # s))))"
proof (cases s)
  case (Cons d t)
  show ?thesis
  proof (cases "map_of tab [CHR ''%'', d]")
    case None
    then show ?thesis by (simp add: Cons)
  next
    case (Some v)
    then obtain y ys where "v = y # ys" "is_digit y" using code_tableD(2,3) [OF assms Some] by (cases v) auto
    then show ?thesis using Some by (simp add: Cons)
  qed
qed simp

lemma expand_expand:
  assumes tab: "code_table tab" and one: "code_table [(k, v)]" and new: "map_of tab k = None"
  shows "expand_codes [(k, v)] (expand_codes tab s) = expand_codes (tab @ [(k, v)]) s"
proof (induction s rule: length_induct)
  case (1 s)
  obtain x where k: "k = [CHR ''%'', x]" "x \<noteq> CHR ''%''" "\<not> is_digit x" and v: "list_all is_digit v"
    using one by (auto simp: code_table_def)
  show ?case
  proof (cases "\<exists>c d t. s = c # d # t")
    case False
    then have "s = [] \<or> (\<exists>c. s = [c])" by (metis neq_Nil_conv)
    then show ?thesis by auto
  next
    case True
    then obtain c d t where s: "s = c # d # t" by blast
    have IH: "expand_codes [(k, v)] (expand_codes tab t) = expand_codes (tab @ [(k, v)]) t"
      "expand_codes [(k, v)] (expand_codes tab (d # t)) = expand_codes (tab @ [(k, v)]) (d # t)"
      using "1.IH" by (simp_all add: s)
    show ?thesis
    proof (cases "map_of tab [c, d]")
      case (Some u)
      then show ?thesis using IH(1) expand_skip_value [OF one] code_tableD(3) [OF tab Some]
        by (simp add: s map_add_def new)
    next
      case None
      show ?thesis
      proof (cases "k = [c, d]")
        case True
        then have "expand_codes tab (d # t) = d # expand_codes tab t" using expand_skip [OF tab] k by simp
        then show ?thesis using None True IH(1) by (simp add: s map_add_def)
      next
        case False
        have "expand_codes [(k, v)] (c # expand_codes tab (d # t)) = c # expand_codes [(k, v)] (expand_codes tab (d # t))"
        proof (cases "c = CHR ''%''")
          case False
          then show ?thesis by (rule expand_skip [OF one])
        next
          case c: True
          obtain y ys where y: "expand_codes tab (d # t) = y # ys" "[c, y] \<noteq> k"
          proof (cases "d = CHR ''%''")
            case True
            then show ?thesis using that expand_head [OF tab, of t] k
              by (cases "expand_codes tab (d # t)") auto
          next
            case False
            then show ?thesis using that expand_skip [OF tab False, of t] \<open>k \<noteq> [c, d]\<close> by auto
          qed
          then show ?thesis by simp
        qed
        then show ?thesis using None False IH(2) by (simp add: s map_add_def)
      qed
    qed
  qed
qed

lemma code_table_append: "code_table (xs @ [x]) \<Longrightarrow> code_table xs \<and> code_table [x]"
  by (auto simp: code_table_def)

lemma strftimeToGo_expand:
  "code_table order \<Longrightarrow> strftimeToGo order s = expand_codes order s"
proof (induction order rule: rev_induct)
  case Nil
  have "expand_codes [] s = s" by (induction "[] :: (string \<times> string) list" s rule: expand_codes.induct) simp_all
  then show ?case by (simp add: strftimeToGo_def)
next
  case (snoc x xs)
  obtain k v where x: "x = (k, v)" by (cases x)
  note t = code_table_append [OF snoc.prems]
  obtain y where k: "k = [CHR ''%'', y]" using t by (auto simp: code_table_def x)
  have "k \<notin> set (map fst xs)" using snoc.prems by (simp add: code_table_def x)
  then have new: "map_of xs k = None" by (simp add: map_of_eq_None_iff)
  have "strftimeToGo (xs @ [x]) s = replace_all k v (strftimeToGo xs s)" by (simp add: strftimeToGo_def x)
  also have "\<dots> = expand_codes [(k, v)] (expand_codes xs s)" using snoc.IH t by (simp add: k replace_one_code)
  also have "\<dots> = expand_codes (xs @ [x]) s" using expand_expand [of xs k v s] t new by (simp add: x)
  finally show ?case .
qed

lemma expand_codes_cong: "map_of t1 = map_of t2 \<Longrightarrow> expand_codes t1 s = expand_codes t2 s"
  by (induction t1 s rule: expand_codes.induct) (auto split: option.split)

text \<open>Whatever order the loop over the map takes, the layout is the same.\<close>

lemma strftime_mapping_table: "code_table strftime_mapping"
  by (simp add: code_table_def strftime_mapping_def is_digit_def)

lemma strftime_any_order:
  assumes "distinct order" "set order = set strftime_mapping"
  shows "strftimeToGo order s = expand_codes strftime_mapping s"
proof -
  have inj: "inj_on fst (set strftime_mapping)" by (simp add: strftime_mapping_def)
  then have d: "distinct (map fst order)" using assms by (simp add: distinct_map)
  then have t: "code_table order" using strftime_mapping_table assms(2) by (simp add: code_table_def)
  have "map_of order = map_of strftime_mapping"
    using map_of_eqI strftime_mapping_table assms(2) d by (metis code_table_def map_of_inject_set)
  then show ?thesis using strftimeToGo_expand [OF t] expand_codes_cong by metis
qed

section \<open>Termination of the date loop\<close>

definition parens :: "string \<Rightarrow> nat" where
  "parens s = length (filter (\<lambda>c. c = CHR '')'') s)"

lemma expand_codes_no_paren:
  "code_table tab \<Longrightarrow> CHR '')'' \<notin> set s \<Longrightarrow> CHR '')'' \<notin> set (expand_codes tab s)"
proof (induction tab s rule: expand_codes.induct)
  case (1 tab c d s)
  show ?case
  proof (cases "map_of tab [c, d]")
    case (Some v)
    then have "CHR '')'' \<notin> set v" using code_tableD(3) [OF "1.prems"(1) Some] by (auto simp: list_all_iff)
    then show ?thesis using "1.IH"(2) [OF Some] "1.prems" Some by simp
  next
    case None
    then show ?thesis using "1.IH"(1) "1.prems" by simp
  qed
qed simp_all

text \<open>Each round takes one closing parenthesis away.\<close>

lemma expand_dates_ends:
  assumes "code_table order" "\<And>s. CHR '')'' \<notin> set s \<Longrightarrow> CHR '')'' \<notin> set (render s)" "parens f < fuel"
  shows "expand_dates fuel order render f \<noteq> None"
  using assms(3)
proof (induction fuel arbitrary: f)
  case (Suc fuel)
  show ?case
  proof (cases "cut ''$(date +'' f")
    case (Some pr)
    obtain pre rest where pr: "cut ''$(date +'' f = Some (pre, rest)" using Some by (cases pr) auto
    show ?thesis
    proof (cases "cut '')'' rest")
      case (Some fp)
      obtain fmt post where fp: "cut '')'' rest = Some (fmt, post)" using Some by (cases fp) auto
      have f: "f = pre @ ''$(date +'' @ fmt @ '')'' @ post"
        using cut_SomeD [OF pr] cut_SomeD [OF fp] by simp
      have "CHR '')'' \<notin> set fmt" using cut_char_before fp by auto
      then have "CHR '')'' \<notin> set (render (strftimeToGo order fmt))"
        using assms(2) expand_codes_no_paren [OF assms(1)] by (simp add: strftimeToGo_expand [OF assms(1)])
      then have "parens (render (strftimeToGo order fmt)) = 0" by (auto simp: parens_def filter_empty_conv)
      then have "parens (pre @ render (strftimeToGo order fmt) @ post) < fuel"
        using Suc.prems by (simp add: parens_def f)
      then show ?thesis using Suc.IH pr fp by simp
    qed (simp add: pr)
  qed simp
qed simp

lemma generateFilename_ends:
  assumes "code_table order" "\<And>s. CHR '')'' \<notin> set s \<Longrightarrow> CHR '')'' \<notin> set (render s)"
  shows "generateFilename (Suc (parens template)) order render template prefix videoID title ext \<noteq> None"
  using expand_dates_ends [OF assms, where f = template and fuel = "Suc (parens template)"] by (auto simp: generateFilename_def)

lemma filename_example:
  "generateFilename 9 strftime_mapping (\<lambda>l. if l = ''20060102'' then ''20240131'' else l)
     ''/$(date +%Y%m%d)/%(id)_%(title).%(ext)'' ''raw'' ''abc'' '' a/b!'' ''m4a'' = Some ''raw/20240131/abc_a_b.m4a''"
  by code_simp

lemma sanitized: "set (sanitizeTitle t) \<subseteq> {c. safe_char c}"
proof -
  have "set (trim_by p s) \<subseteq> set s" for p and s :: string by (auto simp: trim_by_def dest!: set_dropWhileD)
  moreover have "safe_char (CHR ''_'')" by (simp add: safe_char_def)
  ultimately show ?thesis unfolding sanitizeTitle_def by (fastforce split: if_splits)
qed

text \<open>A template that does not name the extension gives sound and picture of a task one key.\<close>

lemma template_without_extension_collides:
  "audio_key (\<lambda>ext. ''raw/x'') j t = video_key (\<lambda>ext. ''raw/x'') j t"
  by (simp add: audio_key_def video_key_def file_key_def Let_def)

section \<open>Retries\<close>

text \<open>The result is that of the last attempt; every attempt before it failed with an error that is worth a retry; and a
last attempt that failed was the last one allowed, or its error is not worth a retry, or there were too many errors of the
proxy.\<close>

lemma retry_transfer_spec:
  assumes "0 < left" "retry_transfer transfer left a p = (n, r)"
  shows "a \<le> n \<and> n < a + left \<and> transfer n = r
    \<and> (\<forall>i. a \<le> i \<longrightarrow> i < n \<longrightarrow> (\<exists>e. transfer i = Some e \<and> isRetryableTransferError e))"
  using assms
proof (induction transfer left a p rule: retry_transfer.induct)
  case (2 transfer left a p)
  show ?case
  proof (cases "transfer a")
    case None
    then show ?thesis using "2.prems" by auto
  next
    case (Some e)
    show ?thesis
    proof (cases "left = 0 \<or> \<not> isRetryableTransferError e \<or> (is_proxy_error e \<and> p + 1 > 3)")
      case True
      then have "n = a \<and> r = Some e" using "2.prems" Some by (auto split: if_splits)
      then show ?thesis using Some by auto
    next
      case False
      then obtain q where q: "retry_transfer transfer left (Suc a) q = (n, r)"
        using "2.prems" Some by (auto split: if_splits)
      have step: "(\<forall>i. Suc a \<le> i \<longrightarrow> i < n \<longrightarrow> (\<exists>e. transfer i = Some e \<and> isRetryableTransferError e))
          \<and> Suc a \<le> n \<and> n < Suc a + left \<and> transfer n = r"
        using "2.IH" False Some "2.prems" by (auto split: if_splits)
      then have "\<exists>e. transfer i = Some e \<and> isRetryableTransferError e" if "a \<le> i" "i < n" for i
        using that Some False by (cases "i = a") auto
      then show ?thesis using step by auto
    qed
  qed
qed simp

lemma transferFileWithRetry_spec:
  assumes "0 < ds_MaxAttempts c" "transferFileWithRetry c transfer = (n, r)"
  shows "1 \<le> n \<and> int n \<le> ds_MaxAttempts c \<and> transfer n = r
    \<and> (\<forall>i. 1 \<le> i \<longrightarrow> i < n \<longrightarrow> (\<exists>e. transfer i = Some e \<and> isRetryableTransferError e))"
proof -
  have "0 < nat (ds_MaxAttempts c)" using assms(1) by simp
  from retry_transfer_spec [OF this assms(2) [unfolded transferFileWithRetry_def]] show ?thesis
    using assms(1) by (simp add: less_Suc_eq_le) linarith
qed

text \<open>The default settings never get to the limit on errors of the proxy, which is the fourth.\<close>

lemma single_upload_verified:
  assumes "single_attempts sz ans a n = None"
  shows "\<exists>i st body. a \<le> i \<and> i < a + n \<and> sg_reply (ans i) = Inr (st, body) \<and> 200 \<le> st \<and> st < 300 \<and> sg_etag (ans i) \<noteq> []
    \<and> HeadSize (Some sz) \<in> set (sg_heads (ans i))"
  using assms
proof (induction sz ans a n rule: single_attempts.induct)
  case (2 sz ans a n)
  have v: "verify_single sz hs e = Inr m \<Longrightarrow> HeadSize (Some sz) \<in> set hs" for hs e m
    by (induction sz hs e rule: verify_single.induct) (auto split: head_answer.splits option.splits if_splits)
  show ?case
  proof (cases "single_attempts sz ans (Suc a) n = None")
    case True
    from "2.IH" [OF refl True] obtain i st body where "Suc a \<le> i \<and> i < Suc a + n \<and> sg_reply (ans i) = Inr (st, body)
        \<and> 200 \<le> st \<and> st < 300 \<and> sg_etag (ans i) \<noteq> [] \<and> HeadSize (Some sz) \<in> set (sg_heads (ans i))" by blast
    then show ?thesis by (intro exI [of _ i] exI [of _ st] exI [of _ body]) simp
  next
    case False
    then obtain st body where "sg_reply (ans a) = Inr (st, body)" "200 \<le> st" "st < 300" "sg_etag (ans a) \<noteq> []"
      "\<exists>m. verify_single sz (sg_heads (ans a)) None = Inr m"
      using "2.prems" by (auto simp: Let_def split: sum.splits if_splits prod.splits)
    then show ?thesis using v by (intro exI [of _ a]) auto
  qed
qed simp

section \<open>Parts\<close>

text \<open>An upload that answers without an ETag is the error that defers the part to the final recovery.\<close>

lemma chunk_without_etag_recoverable:
  assumes "200 \<le> cr_status r" "cr_status r < 300" "trim_quotes (cr_header r) = []" "cr_bodyETag r = []"
  shows "\<exists>m. chunk_result (Inl e) r = Inl m \<and> m = missing_etag @ drop (length missing_etag) m"
  using assms by (auto simp: chunk_result_def missing_etag_def Let_def)

text \<open>Once a look-up has failed, the later ones see the first page only: a part on the second page is never found, though
every later listing is complete.\<close>

lemma remembered_error_hides_pages:
  assumes "map_of page partNum = None"
  shows "search_parts partNum (Some page # pages) (Some e) = (None, Some e)"
  using assms by simp

lemma part_on_second_page_lost:
  assumes "ans 1 = [None]" "\<forall>i>1. \<exists>pages. ans i = Some page # pages" "map_of page partNum = None"
  shows "\<exists>m. fetchPartETag partNum ans allowed = Inl m"
proof -
  have later: "\<exists>m. fetch_attempts partNum ans i left (Some e) = Inl m" if "1 < i" for i left e
    using that
  proof (induction left arbitrary: i)
    case (Suc left)
    then obtain pages where "ans i = Some page # pages" using assms(2) by blast
    then show ?case using Suc assms(3) by simp
  qed simp
  show ?thesis
    using later [of 2] assms(1) by (cases "min 20 allowed") (auto simp: fetchPartETag_def numeral_2_eq_2)
qed

text \<open>A source that redirects to itself is asked without end.\<close>

lemma redirection_never_ends:
  assumes "get u = Some r" "sz_status r = 302" "sz_location r = u" "u \<noteq> []"
  shows "getFileSizeFromURL fuel get u = None"
  using assms by (induction fuel) simp_all

section \<open>The run of a task\<close>

text \<open>The transfers that a task asks for.\<close>

definition dl_files :: "(string \<Rightarrow> string) \<Rightarrow> dl_job \<Rightarrow> youtube_task \<Rightarrow> (string \<times> string \<times> int) list" where
  "dl_files names j t =
     (if yt_AudioURL t \<noteq> [] then [(yt_AudioURL t, audio_key names j t, yt_AudioSize t)] else [])
     @ (if yt_VideoURL t \<noteq> [] then [(yt_VideoURL t, video_key names j t, yt_VideoSize t)] else [])"

lemma dl_errors_empty:
  "dl_errors names run af j t = [] \<longleftrightarrow> (\<forall>(u, k, n)\<in>set (dl_files names j t). run u k n = None)"
  by (auto simp: dl_errors_def dl_files_def Let_def split: option.splits)

definition task_updates :: "dl_post list \<Rightarrow> youtube_task list" where
  "task_updates ps = concat (map (\<lambda>p. case p of TaskUpdate u \<Rightarrow> [u] | RecordUpdate _ \<Rightarrow> []) ps)"

definition outcome_of :: "int \<Rightarrow> (string \<Rightarrow> string) \<Rightarrow> (string \<Rightarrow> string \<Rightarrow> int \<Rightarrow> string option) \<Rightarrow> string + dl_job \<Rightarrow> youtube_task \<Rightarrow> string" where
  "outcome_of now names run job t =
     (case job of
        Inl _ \<Rightarrow> ''FAILED''
      | Inr j \<Rightarrow>
          if dl_files names j t = [] then ''FAILED''
          else if \<exists>(u, _)\<in>set (dl_files names j t). sourceURLNeedsRefresh now u then ''PENDING''
          else if \<forall>(u, k, n)\<in>set (dl_files names j t). run u k n = None then ''COMPLETED'' else ''FAILED'')"

lemma no_refresh_empty: "\<not> sourceURLNeedsRefresh now []"
  by (simp add: sourceURLNeedsRefresh_def)

lemma refresh_files:
  "(\<exists>(u, _)\<in>set (dl_files names j t). sourceURLNeedsRefresh now u)
    = (sourceURLNeedsRefresh now (yt_AudioURL t) \<or> sourceURLNeedsRefresh now (yt_VideoURL t))"
  using no_refresh_empty
  by (cases "yt_AudioURL t = []"; cases "yt_VideoURL t = []") (simp_all add: dl_files_def)

lemma files_empty: "dl_files names j t = [] \<longleftrightarrow> yt_AudioURL t = [] \<and> yt_VideoURL t = []"
  by (auto simp: dl_files_def)

text \<open>A report of a failed download makes a failure that the retry of the job resets.\<close>

lemma failed_report_passes:
  assumes "yt_Status u = ''FAILED''" "yt_IsDownloadFail u"
  shows "passing_failure (merge_update now u e)"
  using assms by (simp add: passing_failure_def merge_update_def Let_def)

text \<open>C34: A run of the downloader posts RUNNING and then one outcome, both for its task: COMPLETED exactly when every
file the task has was transferred, PENDING when an address has run out, FAILED otherwise; and whatever document the
backend holds, it is made by the report of a failure into one that the retry of the job will reset.\<close>

theorem download_reports_one_outcome:
  "\<exists>u v. task_updates (dl_processTask now wid names run af job t) = [u, v]
    \<and> yt_ID u = yt_ID t \<and> yt_Status u = ''RUNNING'' \<and> yt_ID v = yt_ID t
    \<and> yt_Status v = outcome_of now names run job t
    \<and> (yt_Status v \<noteq> ''FAILED'' \<or> (\<forall>later e. passing_failure (merge_update later v e)))"
proof -
  have fail: "passing_failure (merge_update later (YoutubeTask0\<lparr>yt_ID := i, yt_Status := ''FAILED'',
      yt_ErrorMessage := m, yt_IsDownloadFail := True\<rparr>) e)" for later i m e
    by (rule failed_report_passes) simp_all
  show ?thesis
  proof (cases job)
    case (Inl e)
    then show ?thesis using fail
      by (simp add: dl_processTask_def task_updates_def updateTaskStatusWithTask_def reportErrorWithTask_def outcome_of_def)
  next
    case (Inr j)
    then show ?thesis using fail dl_errors_empty [of names run af j t]
      by (simp add: dl_processTask_def task_updates_def updateTaskStatusWithTask_def reportErrorWithTask_def outcome_of_def
          refresh_files files_empty Let_def)
  qed
qed

definition wit_task :: youtube_task where
  "wit_task = YoutubeTask0\<lparr>yt_ID := 8, yt_JobID := 2, yt_VideoID := ''abc'', yt_AudioURL := ''https://x/a?mime=audio%2Fmp4'',
     yt_AudioSize := 10, yt_VideoURL := ''https://x/v'', yt_VideoSize := 20\<rparr>"

definition wit_dl_job :: dl_job where
  "wit_dl_job = \<lparr>dj_R2Prefix = ''raw'', dj_AudioExtension = [], dj_VideoExtension = ''webm'', dj_FilenameTemplate = []\<rparr>"

text \<open>The sound arrives, the picture does not.\<close>

definition wit_run :: "string \<Rightarrow> string \<Rightarrow> int \<Rightarrow> string option" where
  "wit_run u k n = (if k = ''raw/abc_audio.m4a'' \<and> n = 10 then None else Some ''HTTP status 404: '')"

theorem download_reports_one_outcome_witness:
  "\<exists>u v. task_updates (dl_processTask 0 ''w1'' (\<lambda>_. []) wit_run True (Inr wit_dl_job) wit_task) = [u, v]
     \<and> yt_Status v = ''FAILED'' \<and> passing_failure (merge_update 5 v wit_task)"
proof -
  have "outcome_of 0 (\<lambda>_. []) wit_run (Inr wit_dl_job) wit_task = ''FAILED''" by code_simp
  then show ?thesis
    using download_reports_one_outcome [of 0 "''w1''" "\<lambda>_. []" wit_run True "Inr wit_dl_job" wit_task] by metis
qed

lemma wit_outcome_complete:
  "outcome_of 0 (\<lambda>_. []) (\<lambda>u k n. None) (Inr wit_dl_job) wit_task = ''COMPLETED''"
  "getContentType (yt_AudioURL wit_task) ''raw/x.webm'' = ''audio/mp4''"
  by code_simp+

end
