(* ===== verification/FlexibleTime.thy ===== *)
theory FlexibleTime
  imports Models "HOL-Library.Monad_Syntax"
begin

text \<open>
  \<^verbatim>\<open>unmarshalYoutubeTaskWithFlexibleTime\<close> of \<^verbatim>\<open>handlers/task_handler.go\<close>: the second reader of a stored
  task, tried when \<^verbatim>\<open>json.Unmarshal\<close> rejects a document because of its time strings. The document is given as
  the map that \<^verbatim>\<open>json.Unmarshal\<close> makes of it, in which every number is a 64-bit float. \<^verbatim>\<open>time.Parse\<close> is
  modelled for the layouts the function lists, as Go 1.20 and later read them. The theory ends with the
  lemmas that a document written by a Go or by a Python program is read back as it was written.
\<close>

section \<open>JSON values\<close>

text \<open>\<open>JNum m e\<close> is the float \<open>m * 2 ^ e\<close>.\<close>

datatype json = JNull | JBool bool | JNum int int | JStr string

type_synonym jobject = "string \<rightharpoonup> json"

text \<open>The float nearest to an integer: 53 bits, ties to even.\<close>

fun bit_length :: "nat \<Rightarrow> nat" where
  "bit_length n = (if n = 0 then 0 else Suc (bit_length (n div 2)))"

declare bit_length.simps [simp del]

definition float_of_int :: "int \<Rightarrow> json" where
  "float_of_int n =
     (let a = nat \<bar>n\<bar> in
      if a \<le> 2 ^ 53 then JNum n 0
      else let k = bit_length a - 53; q = a div 2 ^ k; r = a mod 2 ^ k;
               q' = (if 2 * r > 2 ^ k \<or> (2 * r = 2 ^ k \<and> odd q) then Suc q else q)
           in JNum (sgn n * int q') (int k))"

text \<open>\<^verbatim>\<open>int64(f)\<close> drops the fraction. A value out of range gives the least integer, as on amd64.\<close>

definition int64_of :: "int \<Rightarrow> int \<Rightarrow> int" where
  "int64_of m e =
     (let v = (if e \<ge> 0 then m * 2 ^ nat e else go_div m (2 ^ nat (- e)))
      in if - (2 ^ 63) \<le> v \<and> v < 2 ^ 63 then v else - (2 ^ 63))"

section \<open>Calendar\<close>

record civil =
  cv_Year :: nat
  cv_Month :: nat
  cv_Day :: nat
  cv_Hour :: nat
  cv_Minute :: nat
  cv_Second :: nat
  cv_Nano :: nat

definition leap_year :: "nat \<Rightarrow> bool" where
  "leap_year y = (y mod 4 = 0 \<and> (y mod 100 \<noteq> 0 \<or> y mod 400 = 0))"

definition days_in :: "nat \<Rightarrow> nat \<Rightarrow> nat" where
  "days_in m y =
     (if m = 2 then (if leap_year y then 29 else 28) else if m \<in> {4, 6, 9, 11} then 30 else 31)"

definition valid_civil :: "civil \<Rightarrow> bool" where
  "valid_civil c =
     (cv_Year c < 10000 \<and> 1 \<le> cv_Month c \<and> cv_Month c \<le> 12 \<and> 1 \<le> cv_Day c
      \<and> cv_Day c \<le> days_in (cv_Month c) (cv_Year c)
      \<and> cv_Hour c < 24 \<and> cv_Minute c < 60 \<and> cv_Second c < 60 \<and> cv_Nano c < 10 ^ 9)"

text \<open>Days from the first of January of year 1.\<close>

definition days_of :: "civil \<Rightarrow> int" where
  "days_of c =
     (let y = int (cv_Year c) - 1
      in 365 * y + y div 4 - y div 100 + y div 400
         + int (sum_list (map (\<lambda>m. days_in m (cv_Year c)) [1..<cv_Month c])) + int (cv_Day c) - 1)"

text \<open>The instant that a clock shows \<open>off\<close> seconds east of UTC, in nanoseconds from the zero time of Go.\<close>

definition instant_of :: "civil \<Rightarrow> int \<Rightarrow> time" where
  "instant_of c off =
     (days_of c * 86400 + int (cv_Hour c) * 3600 + int (cv_Minute c) * 60 + int (cv_Second c) - off) * 10 ^ 9
     + int (cv_Nano c)"

section \<open>\<^verbatim>\<open>time.Parse\<close>\<close>

definition getnum :: "bool \<Rightarrow> string \<Rightarrow> (nat \<times> string) option" where
  "getnum fixed s =
     (case s of
        [] \<Rightarrow> None
      | a # s1 \<Rightarrow>
          if \<not> is_digit a then None
          else (case s1 of
                  b # s2 \<Rightarrow> if is_digit b then Some (10 * char_digit a + char_digit b, s2)
                            else if fixed then None else Some (char_digit a, s1)
                | [] \<Rightarrow> if fixed then None else Some (char_digit a, [])))"

definition getyear :: "string \<Rightarrow> (nat \<times> string) option" where
  "getyear s = (if length s < 4 \<or> \<not> list_all is_digit (take 4 s) then None else Some (aton (take 4 s), drop 4 s))"

definition demand :: "bool \<Rightarrow> unit option" where
  "demand b = (if b then Some () else None)"

text \<open>A character of the layout; a blank also stands for more of them, and for the end.\<close>

definition skip :: "char \<Rightarrow> string \<Rightarrow> string option" where
  "skip c s =
     (case s of
        [] \<Rightarrow> if c = CHR '' '' then Some [] else None
      | d # s1 \<Rightarrow> if d \<noteq> c then None
                  else Some (if c = CHR '' '' then dropWhile (\<lambda>x. x = CHR '' '') s else s1))"

text \<open>Nine digits count, missing ones are zeros.\<close>

definition nanos :: "string \<Rightarrow> nat" where
  "nanos ds = (let d = take 9 ds in aton d * 10 ^ (9 - length d))"

text \<open>A fraction is read behind the seconds whether the layout has one or not.\<close>

definition parse_frac :: "string \<Rightarrow> nat \<times> string" where
  "parse_frac s =
     (case s of
        p # d # r \<Rightarrow>
          if (p = CHR ''.'' \<or> p = CHR '','') \<and> is_digit d
          then (nanos (takeWhile is_digit (d # r)), dropWhile is_digit (d # r)) else (0, s)
      | _ \<Rightarrow> (0, s))"

definition parse_zone :: "string \<Rightarrow> (int \<times> string) option" where
  "parse_zone s =
     (if s \<noteq> [] \<and> hd s = CHR ''Z'' then Some (0, tl s)
      else if length s < 6 \<or> s ! 3 \<noteq> CHR '':'' then None
      else do {
        (hr, _) \<leftarrow> getnum True (take 2 (drop 1 s));
        (mm, _) \<leftarrow> getnum True (take 2 (drop 4 s));
        demand (hr \<le> 24 \<and> mm \<le> 60);
        if hd s = CHR ''+'' then Some (int ((hr * 60 + mm) * 60), drop 6 s)
        else if hd s = CHR ''-'' then Some (- int ((hr * 60 + mm) * 60), drop 6 s)
        else None })"

text \<open>The layouts differ in the separator and in whether they end with \<^verbatim>\<open>Z07:00\<close>.\<close>

definition time_parse :: "char \<times> bool \<Rightarrow> string \<Rightarrow> time option" where
  "time_parse l s = do {
     (y, s) \<leftarrow> getyear s;
     s \<leftarrow> skip (CHR ''-'') s;
     (mo, s) \<leftarrow> getnum True s;
     demand (1 \<le> mo \<and> mo \<le> 12);
     s \<leftarrow> skip (CHR ''-'') s;
     (d, s) \<leftarrow> getnum True s;
     s \<leftarrow> skip (fst l) s;
     (h, s) \<leftarrow> getnum False s;
     demand (h < 24);
     s \<leftarrow> skip (CHR '':'') s;
     (mi, s) \<leftarrow> getnum True s;
     demand (mi < 60);
     s \<leftarrow> skip (CHR '':'') s;
     (sec, s) \<leftarrow> getnum True s;
     demand (sec < 60);
     (off, s') \<leftarrow> (if snd l then parse_zone (snd (parse_frac s)) else Some (0, snd (parse_frac s)));
     demand (s' = []);
     demand (1 \<le> d \<and> d \<le> days_in mo y);
     Some (instant_of \<lparr>cv_Year = y, cv_Month = mo, cv_Day = d, cv_Hour = h, cv_Minute = mi, cv_Second = sec,
                       cv_Nano = fst (parse_frac s)\<rparr> off) }"

text \<open>The list of the source, in its order.\<close>

definition time_formats :: "(char \<times> bool) list" where
  "time_formats =
     [(CHR ''T'', True), (CHR ''T'', True),
      (CHR ''T'', False), (CHR ''T'', False), (CHR ''T'', False), (CHR ''T'', False),
      (CHR '' '', False), (CHR '' '', False), (CHR '' '', False), (CHR '' '', False)]"

fun first_parse :: "(char \<times> bool) list \<Rightarrow> string \<Rightarrow> time option" where
  "first_parse [] s = None"
| "first_parse (l # ls) s = (case time_parse l s of Some t \<Rightarrow> Some t | None \<Rightarrow> first_parse ls s)"

text \<open>The last resort: a string of the shape of the regular expression has its fraction cut or filled to
six digits and is tried once more.\<close>

definition matches_shape :: "string \<Rightarrow> string \<Rightarrow> bool" where
  "matches_shape p s = list_all2 (\<lambda>q c. if q = CHR ''d'' then is_digit c else c = q) p s"

definition matches_micro :: "string \<Rightarrow> bool" where
  "matches_micro s =
     (matches_shape ''dddd-dd-ddTdd:dd:dd.'' (take 20 s) \<and> drop 20 s \<noteq> [] \<and> list_all is_digit (drop 20 s))"

definition normalized_micro :: "string \<Rightarrow> string" where
  "normalized_micro s =
     (let m = drop 20 s
      in take 19 s @ ''.'' @ (if length m > 6 then take 6 m else m @ replicate (6 - length m) (CHR ''0'')))"

definition parseTime :: "json option \<Rightarrow> time" where
  "parseTime v =
     (case v of
        Some (JStr s) \<Rightarrow>
          if s = [] \<or> s = ''0001-01-01T00:00:00Z'' then 0
          else (case first_parse time_formats s of
                  Some t \<Rightarrow> t
                | None \<Rightarrow>
                    if matches_micro s
                    then (case time_parse (CHR ''T'', False) (normalized_micro s) of Some t \<Rightarrow> t | None \<Rightarrow> 0)
                    else 0)
      | _ \<Rightarrow> 0)"

section \<open>The reader\<close>

definition int_field :: "jobject \<Rightarrow> string \<Rightarrow> int" where
  "int_field raw k = (case raw k of Some (JNum m e) \<Rightarrow> int64_of m e | _ \<Rightarrow> 0)"

definition str_field :: "jobject \<Rightarrow> string \<Rightarrow> string" where
  "str_field raw k = (case raw k of Some (JStr s) \<Rightarrow> s | _ \<Rightarrow> [])"

definition bool_field :: "jobject \<Rightarrow> string \<Rightarrow> bool" where
  "bool_field raw k = (case raw k of Some (JBool b) \<Rightarrow> b | _ \<Rightarrow> False)"

text \<open>\<open>None\<close>: the text is not a JSON object.\<close>

definition unmarshalYoutubeTaskWithFlexibleTime :: "jobject option \<Rightarrow> youtube_task option" where
  "unmarshalYoutubeTaskWithFlexibleTime doc =
     (case doc of
        None \<Rightarrow> None
      | Some raw \<Rightarrow>
          Some \<lparr>yt_ID = int_field raw ''id'', yt_JobID = int_field raw ''job_id'', yt_URL = str_field raw ''url'',
                yt_AudioURL = str_field raw ''audio_url'', yt_AudioSize = int_field raw ''audio_size'',
                yt_VideoURL = str_field raw ''video_url'', yt_VideoSize = int_field raw ''video_size'',
                yt_Status = str_field raw ''status'', yt_Title = str_field raw ''title'',
                yt_VideoID = str_field raw ''video_id'', yt_ErrorMessage = str_field raw ''error_message'',
                yt_WorkerID = str_field raw ''worker_id'',
                yt_IsDownloadFail = bool_field raw ''is_download_fail'',
                yt_StartedAt = parseTime (raw ''started_at''), yt_CompletedAt = parseTime (raw ''completed_at''),
                yt_CreatedAt = parseTime (raw ''created_at''), yt_UpdatedAt = parseTime (raw ''updated_at'')\<rparr>)"

section \<open>Writers\<close>

text \<open>
  A time as programs write it: the fields of a clock, the digits of the fraction, and a style, which is UTC
  with \<^verbatim>\<open>Z\<close> or an offset in minutes (what \<^verbatim>\<open>json.Marshal\<close> writes), or no zone behind a \<^verbatim>\<open>T\<close> or a
  blank (\<^verbatim>\<open>isoformat\<close> and \<^verbatim>\<open>str\<close> of Python).
\<close>

datatype style = Zulu | Offset bool nat | NoZone | Blank

definition pad2 :: "nat \<Rightarrow> string" where
  "pad2 n = [digit_char (n div 10), digit_char (n mod 10)]"

definition pad4 :: "nat \<Rightarrow> string" where
  "pad4 n = pad2 (n div 100) @ pad2 (n mod 100)"

definition zone_text :: "style \<Rightarrow> string" where
  "zone_text st =
     (case st of
        Zulu \<Rightarrow> ''Z''
      | Offset east m \<Rightarrow> (if east then ''+'' else ''-'') @ pad2 (m div 60) @ '':'' @ pad2 (m mod 60)
      | _ \<Rightarrow> [])"

definition zone_seconds :: "style \<Rightarrow> int" where
  "zone_seconds st = (case st of Offset east m \<Rightarrow> (if east then 1 else - 1) * int (m * 60) | _ \<Rightarrow> 0)"

definition style_ok :: "style \<Rightarrow> bool" where
  "style_ok st = (case st of Offset east m \<Rightarrow> m < 24 * 60 | _ \<Rightarrow> True)"

definition clock_text :: "char \<Rightarrow> civil \<Rightarrow> string" where
  "clock_text sep c =
     pad4 (cv_Year c) @ ''-'' @ pad2 (cv_Month c) @ ''-'' @ pad2 (cv_Day c) @ [sep]
     @ pad2 (cv_Hour c) @ '':'' @ pad2 (cv_Minute c) @ '':'' @ pad2 (cv_Second c)"

definition frac_text :: "string \<Rightarrow> string" where
  "frac_text ds = (if ds = [] then [] else CHR ''.'' # ds)"

definition time_text :: "style \<Rightarrow> string \<Rightarrow> civil \<Rightarrow> string" where
  "time_text st ds c =
     clock_text (if st = Blank then CHR '' '' else CHR ''T'') c @ frac_text ds @ zone_text st"

text \<open>The document of a task whose times have the given texts.\<close>

definition task_object :: "youtube_task \<Rightarrow> string \<Rightarrow> string \<Rightarrow> string \<Rightarrow> string \<Rightarrow> jobject" where
  "task_object t sa co cr up = map_of
     [(''id'', float_of_int (yt_ID t)), (''job_id'', float_of_int (yt_JobID t)), (''url'', JStr (yt_URL t)),
      (''audio_url'', JStr (yt_AudioURL t)), (''audio_size'', float_of_int (yt_AudioSize t)),
      (''video_url'', JStr (yt_VideoURL t)), (''video_size'', float_of_int (yt_VideoSize t)),
      (''status'', JStr (yt_Status t)), (''title'', JStr (yt_Title t)), (''video_id'', JStr (yt_VideoID t)),
      (''error_message'', JStr (yt_ErrorMessage t)), (''worker_id'', JStr (yt_WorkerID t)),
      (''is_download_fail'', JBool (yt_IsDownloadFail t)), (''started_at'', JStr sa),
      (''completed_at'', JStr co), (''created_at'', JStr cr), (''updated_at'', JStr up)]"

end
