(* ===== verification/FlexibleTimeFacts.thy ===== *)
theory FlexibleTimeFacts
  imports FlexibleTime
begin

text \<open>What the flexible reader makes of the documents that the programs write, and where it is not exact.\<close>

named_theorems parse_simps \<open>reading back what was written\<close>

section \<open>Digits\<close>

lemma getnum_pad2 [parse_simps]: "n < 100 \<Longrightarrow> getnum b (pad2 n @ s) = Some (n, s)"
  by (simp add: getnum_def pad2_def)

lemma getnum_pad2_end [parse_simps]: "n < 100 \<Longrightarrow> getnum b (pad2 n) = Some (n, [])"
  using getnum_pad2 [of n b "[]"] by simp

lemma length_pad2 [simp]: "length (pad2 n) = 2"
  by (simp add: pad2_def)

lemma aton_pad4: "n < 10000 \<Longrightarrow> aton (pad4 n) = n"
  by (simp add: aton_def pad4_def pad2_def)

lemma digits_pad4: "n < 10000 \<Longrightarrow> list_all is_digit (pad4 n)"
  by (simp add: pad4_def pad2_def)

lemma length_pad4: "length (pad4 n) = 4"
  by (simp add: pad4_def)

lemma getyear_pad4 [parse_simps]: "n < 10000 \<Longrightarrow> getyear (pad4 n @ s) = Some (n, s)"
  by (simp add: getyear_def aton_pad4 digits_pad4 length_pad4)

lemma skip_same [parse_simps]: "c \<noteq> CHR '' '' \<Longrightarrow> skip c (c # s) = Some s"
  by (simp add: skip_def)

lemma skip_other [parse_simps]: "d \<noteq> c \<Longrightarrow> skip c (d # s) = None"
  by (simp add: skip_def)

lemma demand_True [parse_simps]: "b \<Longrightarrow> demand b = Some ()"
  by (simp add: demand_def)

lemma pad2_not_blank: "n < 100 \<Longrightarrow> dropWhile (\<lambda>x. x = CHR '' '') (pad2 n @ s) = pad2 n @ s"
proof -
  assume "n < 100"
  then have "is_digit (digit_char (n div 10))" by simp
  then have "digit_char (n div 10) \<noteq> CHR '' ''" by (auto simp: is_digit_def)
  then show ?thesis by (simp add: pad2_def)
qed

lemma skip_blank [parse_simps]: "n < 100 \<Longrightarrow> skip CHR '' '' (CHR '' '' # pad2 n @ s) = Some (pad2 n @ s)"
  by (simp add: skip_def pad2_not_blank)

lemma list_all_takeWhile: "list_all P xs \<Longrightarrow> takeWhile P xs = xs \<and> dropWhile P xs = []"
  by (induction xs) auto

lemma parse_frac_text [parse_simps]:
  assumes "list_all is_digit ds"
  shows "parse_frac (frac_text ds @ zone_text st) = (nanos ds, zone_text st)"
proof (cases ds)
  case Nil
  then show ?thesis
    by (cases st) (auto simp: parse_frac_def frac_text_def zone_text_def nanos_def aton_def pad2_def)
next
  case (Cons d r)
  have z: "takeWhile is_digit (zone_text st) = []" "dropWhile is_digit (zone_text st) = zone_text st"
    by (cases st; simp add: zone_text_def is_digit_def)+
  have "takeWhile is_digit (ds @ zone_text st) = ds" "dropWhile is_digit (ds @ zone_text st) = zone_text st"
    using assms z by (simp_all add: takeWhile_append dropWhile_append list_all_iff list_all_takeWhile)
  with Cons assms show ?thesis by (simp add: parse_frac_def frac_text_def)
qed

lemma parse_zone_text [parse_simps]:
  assumes "style_ok st"
  shows "parse_zone (zone_text st) =
    (case st of Zulu \<Rightarrow> Some (0, []) | Offset _ _ \<Rightarrow> Some (zone_seconds st, []) | _ \<Rightarrow> None)"
proof (cases st)
  case (Offset east m)
  then have m: "m div 60 < 24" "m mod 60 < 60" using assms by (auto simp: style_ok_def)
  have h: "take 2 (drop (Suc 0) (zone_text st)) = pad2 (m div 60)" "take 2 (drop 4 (zone_text st)) = pad2 (m mod 60)"
    "drop 6 (zone_text st) = []" "zone_text st ! 3 = CHR '':''" "length (zone_text st) = 6"
    "zone_text st \<noteq> []" "hd (zone_text st) = (if east then CHR ''+'' else CHR ''-'')"
    by (auto simp: Offset zone_text_def pad2_def)
  have "m div 60 * 60 + m mod 60 = m" by simp
  then have "int ((m div 60 * 60 + m mod 60) * 60) = int (m * 60)" by presburger
  moreover have "parse_zone (zone_text st) =
      Some ((if east then 1 else - 1) * int ((m div 60 * 60 + m mod 60) * 60), [])"
    using m by (simp add: parse_zone_def h getnum_pad2_end demand_def)
  ultimately show ?thesis by (simp add: Offset zone_seconds_def)
qed (auto simp: parse_zone_def zone_text_def)

lemma valid_bounds:
  assumes "valid_civil c"
  shows "cv_Year c < 10000" "cv_Month c < 100" "cv_Day c < 100" "cv_Hour c < 100" "cv_Minute c < 100"
    "cv_Second c < 100" "Suc 0 \<le> cv_Month c" "cv_Month c \<le> 12" "cv_Hour c < 24" "cv_Minute c < 60"
    "cv_Second c < 60" "Suc 0 \<le> cv_Day c" "cv_Day c \<le> days_in (cv_Month c) (cv_Year c)"
  using assms by (auto simp: valid_civil_def days_in_def split: if_splits)

text \<open>A layout reads the text of its own separator, up to the zone.\<close>

lemma time_parse_text:
  assumes "valid_civil c" "list_all is_digit ds" "sep = CHR ''T'' \<or> sep = CHR '' ''"
  shows "time_parse (sep, z) (clock_text sep c @ frac_text ds @ zone_text st) =
    (case (if z then parse_zone (zone_text st) else Some (0, zone_text st)) of
       Some (off, []) \<Rightarrow> Some (instant_of (c\<lparr>cv_Nano := nanos ds\<rparr>) off) | _ \<Rightarrow> None)"
proof -
  have f: "c\<lparr>cv_Nano := nanos ds\<rparr> =
      \<lparr>cv_Year = cv_Year c, cv_Month = cv_Month c, cv_Day = cv_Day c, cv_Hour = cv_Hour c,
       cv_Minute = cv_Minute c, cv_Second = cv_Second c, cv_Nano = nanos ds\<rparr>"
    by simp
  have s: "skip sep (sep # pad2 (cv_Hour c) @ r) = Some (pad2 (cv_Hour c) @ r)" for r
    using assms(3) valid_bounds(4) [OF assms(1)] by (auto simp: parse_simps)
  note b = valid_bounds [OF assms(1)] parse_frac_text [OF assms(2)]
  show ?thesis unfolding time_parse_def clock_text_def f
    by (simp add: parse_simps b s demand_def)
      (cases "parse_zone (zone_text st)"; auto simp: demand_def split: list.splits)
qed

lemma time_parse_wrong_separator:
  assumes "valid_civil c" "sep \<noteq> sep'"
  shows "time_parse (sep', z) (clock_text sep c @ s) = None"
  using assms(2) valid_bounds [OF assms(1)]
  by (simp add: time_parse_def clock_text_def parse_simps demand_def)

text \<open>Each style is read by the first layout that fits it.\<close>

lemma time_parse_T:
  assumes "valid_civil c" "list_all is_digit ds"
  shows "time_parse (CHR ''T'', z) (time_text st ds c) =
      (if st = Blank then None else case (if z then parse_zone (zone_text st) else Some (0, zone_text st)) of
         Some (off, []) \<Rightarrow> Some (instant_of (c\<lparr>cv_Nano := nanos ds\<rparr>) off) | _ \<Rightarrow> None)"
  using time_parse_text [OF assms, of "CHR ''T''" z st]
    time_parse_wrong_separator [OF assms(1), of "CHR '' ''" "CHR ''T''" z]
  by (auto simp: time_text_def)

lemma first_parse_text:
  assumes "valid_civil c" "list_all is_digit ds" "style_ok st"
  shows "first_parse time_formats (time_text st ds c) = Some (instant_of (c\<lparr>cv_Nano := nanos ds\<rparr>) (zone_seconds st))"
proof -
  have B: "time_parse (CHR '' '', False) (time_text Blank ds c) = Some (instant_of (c\<lparr>cv_Nano := nanos ds\<rparr>) 0)"
    using time_parse_text [OF assms(1,2), of "CHR '' ''" False Blank] by (simp add: time_text_def zone_text_def)
  have z: "parse_zone (zone_text st) =
      (case st of Zulu \<Rightarrow> Some (0, []) | Offset _ _ \<Rightarrow> Some (zone_seconds st, []) | _ \<Rightarrow> None)"
    by (rule parse_zone_text) (rule assms(3))
  show ?thesis
  proof (cases st)
    case Blank
    then show ?thesis by (simp add: time_formats_def time_parse_T [OF assms(1,2)] B zone_seconds_def)
  next
    case NoZone
    then show ?thesis using z
      by (simp add: time_formats_def time_parse_T [OF assms(1,2)] zone_seconds_def) (simp add: zone_text_def)
  qed (use z in \<open>simp_all add: time_formats_def time_parse_T [OF assms(1,2)] zone_seconds_def\<close>)
qed

lemma zero_text: "''0001-01-01T00:00:00Z'' =
    time_text Zulu [] \<lparr>cv_Year = 1, cv_Month = 1, cv_Day = 1, cv_Hour = 0, cv_Minute = 0, cv_Second = 0, cv_Nano = 0\<rparr>"
  by code_simp

lemma parseTime_text:
  assumes "valid_civil c" "list_all is_digit ds" "style_ok st"
  shows "parseTime (Some (JStr (time_text st ds c))) = instant_of (c\<lparr>cv_Nano := nanos ds\<rparr>) (zone_seconds st)"
proof (cases "time_text st ds c = ''0001-01-01T00:00:00Z''")
  case True
  let ?z = "\<lparr>cv_Year = 1, cv_Month = 1, cv_Day = 1, cv_Hour = 0, cv_Minute = 0, cv_Second = 0, cv_Nano = 0\<rparr>"
  have "valid_civil ?z" by (simp add: valid_civil_def days_in_def)
  then have "first_parse time_formats ''0001-01-01T00:00:00Z'' = Some (instant_of (?z\<lparr>cv_Nano := nanos []\<rparr>) (zone_seconds Zulu))"
    using first_parse_text [of ?z "[]" Zulu] unfolding zero_text by (simp add: style_ok_def)
  moreover have "instant_of (?z\<lparr>cv_Nano := nanos []\<rparr>) (zone_seconds Zulu) = 0"
    by (simp add: instant_of_def days_of_def nanos_def aton_def zone_seconds_def)
  ultimately have "instant_of (c\<lparr>cv_Nano := nanos ds\<rparr>) (zone_seconds st) = 0"
    using first_parse_text [OF assms] True by simp
  then show ?thesis using True by (simp add: parseTime_def)
next
  case False
  moreover have "time_text st ds c \<noteq> []" by (simp add: time_text_def clock_text_def pad4_def pad2_def)
  ultimately show ?thesis using first_parse_text [OF assms] by (simp add: parseTime_def)
qed

section \<open>The last resort\<close>

lemma matches_microD:
  assumes "matches_micro s"
  obtains u m where "s = u @ CHR ''.'' # m" "length u = 19" "m \<noteq> []" "list_all is_digit m"
    "matches_shape ''dddd-dd-ddTdd:dd:dd'' u"
proof -
  have "matches_shape (''dddd-dd-ddTdd:dd:dd'' @ ''.'') (take 20 s)" using assms by (simp add: matches_micro_def)
  then obtain u v where uv: "take 20 s = u @ v" "length u = 19" "matches_shape ''dddd-dd-ddTdd:dd:dd'' u"
      "matches_shape ''.'' v"
    unfolding matches_shape_def list_all2_append1 by auto
  then have "v = ''.''" by (auto simp: matches_shape_def list_all2_Cons1)
  then have "s = u @ CHR ''.'' # drop 20 s"
    using uv(1) append_take_drop_id [of 20 s] by (metis append_Cons append_assoc append_Nil)
  then show ?thesis using that uv assms by (simp add: matches_micro_def)
qed

lemma fraction_irrelevant:
  assumes "matches_shape ''dddd-dd-ddTdd:dd:dd'' u" "list_all is_digit m" "m \<noteq> []" "list_all is_digit m'" "m' \<noteq> []"
    and "time_parse (CHR ''T'', False) (u @ CHR ''.'' # m) = None"
  shows "time_parse (CHR ''T'', False) (u @ CHR ''.'' # m') = None"
proof -
  have f: "parse_frac (CHR ''.'' # k) = (nanos k, [])" if "list_all is_digit k" "k \<noteq> []" for k
    using that by (cases k) (auto simp: parse_frac_def list_all_takeWhile)
  show ?thesis using assms(1,6)
    by (auto simp: matches_shape_def list_all2_Cons1 time_parse_def getyear_def getnum_def skip_def demand_def f assms
        split: if_splits)
qed

text \<open>The layouts read a fraction of any length, so what they reject the last resort rejects as well: it never
gives a time.\<close>

lemma last_resort_dead:
  assumes "matches_micro s" "first_parse time_formats s = None"
  shows "time_parse (CHR ''T'', False) (normalized_micro s) = None"
proof -
  obtain u m where s: "s = u @ CHR ''.'' # m" "length u = 19" "m \<noteq> []" "list_all is_digit m"
    "matches_shape ''dddd-dd-ddTdd:dd:dd'' u"
    using matches_microD [OF assms(1)] .
  define m' where "m' = (if length m > 6 then take 6 m else m @ replicate (6 - length m) (CHR ''0''))"
  have "normalized_micro s = u @ CHR ''.'' # m'" using s by (simp add: normalized_micro_def m'_def)
  moreover have "list_all is_digit m'" "m' \<noteq> []"
    using s(3,4) by (auto simp: m'_def list_all_iff is_digit_def dest: in_set_takeD)
  moreover have "time_parse (CHR ''T'', False) s = None"
    using assms(2) by (auto simp: time_formats_def split: option.splits)
  ultimately show ?thesis using fraction_irrelevant [of u m m'] s by simp
qed

section \<open>Numbers\<close>

lemma int_field_float: "\<bar>n\<bar> \<le> 2 ^ 53 \<Longrightarrow> raw k = Some (float_of_int n) \<Longrightarrow> int_field raw k = n"
  by (auto simp: int_field_def float_of_int_def int64_of_def nat_le_iff)

text \<open>Above \<open>2 ^ 53\<close> not every integer is a float.\<close>

lemma identifier_rounded:
  "int_field [''id'' \<mapsto> float_of_int (2 ^ 53 + 1)] ''id'' = 2 ^ 53"
proof -
  have "bit_length 9007199254740993 = 54" by (simp add: bit_length.simps)
  then show ?thesis by (simp add: int_field_def float_of_int_def int64_of_def)
qed

section \<open>Documents\<close>

abbreviation exact :: "int \<Rightarrow> bool" where
  "exact n \<equiv> \<bar>n\<bar> \<le> 2 ^ 53"

record stamp =
  sp_Clock :: civil
  sp_Style :: style
  sp_Digits :: string

definition stamp_ok :: "stamp \<Rightarrow> bool" where
  "stamp_ok p = (valid_civil (sp_Clock p) \<and> style_ok (sp_Style p) \<and> list_all is_digit (sp_Digits p))"

definition stamp_text :: "stamp \<Rightarrow> string" where
  "stamp_text p = time_text (sp_Style p) (sp_Digits p) (sp_Clock p)"

definition stamp_time :: "stamp \<Rightarrow> time" where
  "stamp_time p = instant_of ((sp_Clock p)\<lparr>cv_Nano := nanos (sp_Digits p)\<rparr>) (zone_seconds (sp_Style p))"

lemma parseTime_stamp: "stamp_ok p \<Longrightarrow> parseTime (Some (JStr (stamp_text p))) = stamp_time p"
  by (simp add: stamp_ok_def stamp_text_def stamp_time_def parseTime_text)

text \<open>C99: A document of a task is read back with every field: the numbers when they have at most 53 bits, and
each time as the instant that its text names, whether it was written with \<^verbatim>\<open>Z\<close>, with an offset, or without a
zone behind a \<^verbatim>\<open>T\<close> or a blank, and with any number of digits of the fraction.\<close>

theorem flexible_round_trip:
  assumes "exact (yt_ID t)" "exact (yt_JobID t)" "exact (yt_AudioSize t)" "exact (yt_VideoSize t)"
    and "stamp_ok sa" "stamp_ok co" "stamp_ok cr" "stamp_ok up"
  shows "unmarshalYoutubeTaskWithFlexibleTime
           (Some (task_object t (stamp_text sa) (stamp_text co) (stamp_text cr) (stamp_text up))) =
         Some (t\<lparr>yt_StartedAt := stamp_time sa, yt_CompletedAt := stamp_time co,
                 yt_CreatedAt := stamp_time cr, yt_UpdatedAt := stamp_time up\<rparr>)"
proof -
  let ?raw = "task_object t (stamp_text sa) (stamp_text co) (stamp_text cr) (stamp_text up)"
  have n: "int_field ?raw ''id'' = yt_ID t" "int_field ?raw ''job_id'' = yt_JobID t"
    "int_field ?raw ''audio_size'' = yt_AudioSize t" "int_field ?raw ''video_size'' = yt_VideoSize t"
    by (rule int_field_float; use assms in \<open>simp add: task_object_def\<close>)+
  have s: "str_field ?raw ''url'' = yt_URL t" "str_field ?raw ''audio_url'' = yt_AudioURL t"
    "str_field ?raw ''video_url'' = yt_VideoURL t" "str_field ?raw ''status'' = yt_Status t"
    "str_field ?raw ''title'' = yt_Title t" "str_field ?raw ''video_id'' = yt_VideoID t"
    "str_field ?raw ''error_message'' = yt_ErrorMessage t" "str_field ?raw ''worker_id'' = yt_WorkerID t"
    "bool_field ?raw ''is_download_fail'' = yt_IsDownloadFail t"
    by (simp_all add: str_field_def bool_field_def task_object_def)
  have p: "?raw ''started_at'' = Some (JStr (stamp_text sa))" "?raw ''completed_at'' = Some (JStr (stamp_text co))"
    "?raw ''created_at'' = Some (JStr (stamp_text cr))" "?raw ''updated_at'' = Some (JStr (stamp_text up))"
    by (simp_all add: task_object_def)
  show ?thesis
    by (simp only: unmarshalYoutubeTaskWithFlexibleTime_def option.case n s p assms(5-8) parseTime_stamp)
      (simp add: youtube_task.equality)
qed

theorem flexible_round_trip_witness:
  "unmarshalYoutubeTaskWithFlexibleTime
     (Some (task_object (YoutubeTask0\<lparr>yt_ID := 7, yt_Status := ''RUNNING''\<rparr>)
        ''2026-01-25T02:02:23.154895'' ''0001-01-01T00:00:00Z'' ''2026-01-25T10:02:23+08:00''
        ''2026-01-25 02:02:23'')) =
   Some (YoutubeTask0\<lparr>yt_ID := 7, yt_Status := ''RUNNING'', yt_StartedAt := 63904903343154895000,
     yt_CompletedAt := 0, yt_CreatedAt := 63904903343000000000, yt_UpdatedAt := 63904903343000000000\<rparr>)"
proof -
  let ?c = "\<lambda>h. \<lparr>cv_Year = 2026, cv_Month = 1, cv_Day = 25, cv_Hour = h, cv_Minute = 2, cv_Second = 23, cv_Nano = 0\<rparr>"
  let ?sa = "\<lparr>sp_Clock = ?c 2, sp_Style = NoZone, sp_Digits = ''154895''\<rparr>"
  let ?co = "\<lparr>sp_Clock = \<lparr>cv_Year = 1, cv_Month = 1, cv_Day = 1, cv_Hour = 0, cv_Minute = 0, cv_Second = 0, cv_Nano = 0\<rparr>,
     sp_Style = Zulu, sp_Digits = []\<rparr>"
  let ?cr = "\<lparr>sp_Clock = ?c 10, sp_Style = Offset True 480, sp_Digits = []\<rparr>"
  let ?up = "\<lparr>sp_Clock = ?c 2, sp_Style = Blank, sp_Digits = []\<rparr>"
  have ok: "stamp_ok ?sa" "stamp_ok ?co" "stamp_ok ?cr" "stamp_ok ?up"
    by (simp_all add: stamp_ok_def valid_civil_def days_in_def style_ok_def is_digit_def)
  have tx: "stamp_text ?sa = ''2026-01-25T02:02:23.154895''" "stamp_text ?co = ''0001-01-01T00:00:00Z''"
    "stamp_text ?cr = ''2026-01-25T10:02:23+08:00''" "stamp_text ?up = ''2026-01-25 02:02:23''"
    by code_simp+
  have tm: "stamp_time ?sa = 63904903343154895000" "stamp_time ?co = 0"
    "stamp_time ?cr = 63904903343000000000" "stamp_time ?up = 63904903343000000000"
    by (simp_all add: stamp_time_def instant_of_def days_of_def nanos_def aton_def zone_seconds_def char_digit_def)
  show ?thesis
    using flexible_round_trip [of "YoutubeTask0\<lparr>yt_ID := 7, yt_Status := ''RUNNING''\<rparr>", OF _ _ _ _ ok]
    by (simp only: tx tm) (simp add: YoutubeTask0_def)
qed

end
