(* ===== verification/RedisCleanup.thy ===== *)
theory RedisCleanup
  imports TransferJobFacts "HOL-Library.Monad_Syntax"
begin

text \<open>
  The maintenance tool \<^verbatim>\<open>go-app/cmd/cleanup_redis/main.go\<close>: it removes what Redis still holds of YouTube
  jobs that the database does not have. The identifiers of the jobs and the keys that \<^verbatim>\<open>SCAN\<close> hands out are
  its input; a scan may hand out a key more than once. The loop of \<^verbatim>\<open>deleteJob\<close> does not look at
  the answer of the command that makes it advance, so it is a partial function.
\<close>

section \<open>Keys\<close>

fun split_on :: "char \<Rightarrow> string \<Rightarrow> string list" where
  "split_on c [] = [[]]"
| "split_on c (d # s) =
     (if d = c then [] # split_on c s
      else (case split_on c s of p # ps \<Rightarrow> (d # p) # ps | [] \<Rightarrow> [[d]]))"

text \<open>\<^verbatim>\<open>Sscanf(s, "%d", &id)\<close> for an unsigned number: no sign, blanks in front, text behind is left.\<close>

definition sscanf_uint :: "string \<Rightarrow> int option" where
  "sscanf_uint s =
     (let d = scan_digits (dropWhile is_space s)
      in if d = [] \<or> aton d \<ge> 2 ^ 64 then None else Some (int (aton d)))"

text \<open>The pattern \<^verbatim>\<open>job:*:tasks\<close>, and the job of a key that passes the tests of the loop.\<close>

definition job_pattern :: "string \<Rightarrow> bool" where
  "job_pattern k = (length k \<ge> 10 \<and> has_prefix ''job:'' k \<and> has_suffix '':tasks'' k)"

definition key_job :: "string \<Rightarrow> int option" where
  "key_job k = (case split_on CHR '':'' k of [_, n, _] \<Rightarrow> sscanf_uint n | _ \<Rightarrow> None)"

section \<open>Deleting a job\<close>

abbreviation task_dels :: "string list \<Rightarrow> redis_cmd list" where
  "task_dels ids \<equiv> map (\<lambda>i. DEL [''task:'' @ i]) ids"

partial_function (option) delete_batches :: "rexec \<Rightarrow> string \<Rightarrow> redis_db \<Rightarrow> redis_db option" where
  "delete_batches re k db =
     (case snd (re db (ZRANGE k 0 9999)) of
        RArr (i # is) \<Rightarrow>
          delete_batches re k
            (fst (re (rrun re (fst (re db (ZRANGE k 0 9999))) (task_dels (i # is))) (ZREMRANGEBYRANK k 0 9999)))
      | _ \<Rightarrow> Some (fst (re db (ZRANGE k 0 9999))))"

definition deleteJob :: "rexec \<Rightarrow> int \<Rightarrow> redis_db \<Rightarrow> redis_db option" where
  "deleteJob re jobID db =
     map_option (\<lambda>d. rrun re d [DEL [yt_job_key jobID], DEL [yt_lock_key jobID], DEL [yt_offset_key jobID]])
       (delete_batches re (yt_job_key jobID) db)"

text \<open>\<^verbatim>\<open>main\<close>: the keys in the order of the scan; the count of orphans that is logged at the end.\<close>

fun remove_orphans :: "rexec \<Rightarrow> int set \<Rightarrow> string list \<Rightarrow> redis_db \<times> nat \<Rightarrow> (redis_db \<times> nat) option" where
  "remove_orphans re valid [] (db, n) = Some (db, n)"
| "remove_orphans re valid (k # ks) (db, n) =
     (case key_job k of
        None \<Rightarrow> remove_orphans re valid ks (db, n)
      | Some j \<Rightarrow>
          if j \<in> valid then remove_orphans re valid ks (db, n)
          else (case deleteJob re j db of
                  None \<Rightarrow> None
                | Some db' \<Rightarrow> remove_orphans re valid ks (db', Suc n)))"

section \<open>What a deletion does\<close>

definition job_docs :: "redis_db \<Rightarrow> int \<Rightarrow> string set" where
  "job_docs db j = (case zs_of (db (yt_job_key j)) of Some zs \<Rightarrow> (\<lambda>m. ''task:'' @ m) ` snd ` set zs | None \<Rightarrow> {})"

definition job_keys :: "int \<Rightarrow> string set" where
  "job_keys j = {yt_job_key j, yt_lock_key j, yt_offset_key j}"

definition without :: "string set \<Rightarrow> redis_db \<Rightarrow> redis_db" where
  "without K db = (\<lambda>k. if k \<in> K then None else db k)"

lemma z_cut_first: "z_cut 0 9999 xs = drop 10000 xs"
  by (auto simp: z_cut_def z_index_def Let_def)

lemma z_slice_first: "z_slice 0 9999 xs = take 10000 xs"
  by (simp add: z_slice_def z_index_def Let_def)

lemma rrun_task_dels:
  "rrun redis_ref db (task_dels is) = without ((\<lambda>i. ''task:'' @ i) ` set is) db"
proof
  fix k
  show "rrun redis_ref db (task_dels is) k = without ((\<lambda>i. ''task:'' @ i) ` set is) db k"
    using rrun_dels [of db "map (\<lambda>i. [''task:'' @ i]) is" k] by (auto simp: without_def comp_def)
qed

text \<open>On a server that answers, the batches remove every document that the index names and empty it.\<close>

lemma delete_batches_ref:
  assumes "zs_of (db k) = Some zs" "\<And>m. k \<noteq> ''task:'' @ m"
  shows "\<exists>db'. delete_batches redis_ref k db = Some db'
    \<and> without {k} db' = without (insert k ((\<lambda>m. ''task:'' @ m) ` snd ` set zs)) db"
  using assms(1)
proof (induction "length zs" arbitrary: zs db rule: less_induct)
  case less
  let ?ids = "take 10000 (map snd zs)"
  let ?db1 = "without ((\<lambda>m. ''task:'' @ m) ` set ?ids) db"
  let ?db2 = "put_zset k (drop 10000 zs) ?db1"
  have k1: "zs_of (?db1 k) = Some zs" using less.prems assms(2) by (auto simp: without_def)
  show ?case
  proof (cases zs)
    case Nil
    then have "delete_batches redis_ref k db = Some db"
      using less.prems by (simp add: delete_batches.simps [of redis_ref k db] z_slice_first)
    then show ?thesis using Nil by simp
  next
    case (Cons p ps)
    then obtain i js where ne: "?ids = i # js" by simp
    have r1: "redis_ref db (ZRANGE k 0 9999) = (db, RArr ?ids)" using less.prems by (simp add: z_slice_first)
    have r2: "fst (redis_ref ?db1 (ZREMRANGEBYRANK k 0 9999)) = ?db2" using k1 by (simp add: z_cut_first)
    have "delete_batches redis_ref k db =
        delete_batches redis_ref k (fst (redis_ref (rrun redis_ref db (task_dels ?ids)) (ZREMRANGEBYRANK k 0 9999)))"
      by (subst delete_batches.simps) (simp only: r1 ne fst_conv snd_conv reply.case list.case)
    then have step: "delete_batches redis_ref k db = delete_batches redis_ref k ?db2"
      by (simp only: rrun_task_dels r2)
    have "length (drop 10000 zs) < length zs" using Cons by simp
    from less.hyps [where db = ?db2, OF this] obtain db' where db': "delete_batches redis_ref k ?db2 = Some db'"
        "without {k} db' = without (insert k ((\<lambda>m. ''task:'' @ m) ` snd ` set (drop 10000 zs))) ?db2"
      by auto
    have s: "set zs = set (take 10000 zs) \<union> set (drop 10000 zs)"
      by (metis append_take_drop_id set_append)
    have "without (insert k ((\<lambda>m. ''task:'' @ m) ` snd ` set (drop 10000 zs))) ?db2 =
        without (insert k ((\<lambda>m. ''task:'' @ m) ` snd ` set zs)) db"
      unfolding s by (rule ext) (auto simp: without_def put_zset_def take_map)
    then show ?thesis using db' step by auto
  qed
qed

lemma delete_batches_wrong_type:
  assumes "zs_of (db k) = None"
  shows "delete_batches redis_ref k db = Some db"
  using assms by (simp add: delete_batches.simps [of redis_ref k db])

lemma job_key_not_task: "yt_job_key j \<noteq> ''task:'' @ m"
  by (simp add: key_defs)

lemma deleteJob_ref:
  "deleteJob redis_ref j db = Some (without (job_keys j \<union> job_docs db j) db)"
proof -
  have fin: "rrun redis_ref d [DEL [yt_job_key j], DEL [yt_lock_key j], DEL [yt_offset_key j]] = without (job_keys j) d" for d
    by (rule ext) (auto simp: rrun_Cons without_def job_keys_def)
  show ?thesis
  proof (cases "zs_of (db (yt_job_key j))")
    case None
    then show ?thesis by (simp add: deleteJob_def delete_batches_wrong_type fin job_docs_def)
  next
    case (Some zs)
    obtain db' where db': "delete_batches redis_ref (yt_job_key j) db = Some db'"
      "without {yt_job_key j} db' = without (insert (yt_job_key j) ((\<lambda>m. ''task:'' @ m) ` snd ` set zs)) db"
      using delete_batches_ref [of db "yt_job_key j" zs] Some job_key_not_task by blast
    have "without (job_keys j) db' = without (job_keys j) (without {yt_job_key j} db')"
      by (rule ext) (simp add: without_def job_keys_def)
    also have "\<dots> = without (job_keys j \<union> job_docs db j) db"
      unfolding db'(2) by (rule ext) (auto simp: without_def job_keys_def job_docs_def Some)
    finally show ?thesis by (simp add: deleteJob_def db'(1) fin)
  qed
qed

section \<open>The tool\<close>

lemma split_on_plain: "c \<notin> set s \<Longrightarrow> split_on c s = [s]"
  by (induction s) auto

lemma split_on_append: "c \<notin> set a \<Longrightarrow> split_on c (a @ c # s) = a # split_on c s"
  by (induction a) auto

lemma itoa_nonneg: "0 \<le> j \<Longrightarrow> itoa j = ntoa (nat j)"
  by (simp add: itoa_def)

lemma key_job_yt_job_key:
  assumes "0 \<le> j" "j < 2 ^ 64"
  shows "key_job (yt_job_key j) = Some j"
proof -
  have "split_on CHR '':'' (''job'' @ CHR '':'' # itoa j @ CHR '':'' # ''tasks'') = [''job'', itoa j, ''tasks'']"
    by (simp add: split_on_append [of "CHR '':''" "itoa j"] itoa_no_colon)
  then have "key_job (yt_job_key j) = sscanf_uint (itoa j)" by (simp add: key_job_def key_defs)
  moreover have "dropWhile is_space (ntoa n) = ntoa n" for n
  proof (cases "ntoa n")
    case (Cons c s)
    then have "is_digit c" using ntoa_digits [of c n] by simp
    then have "\<not> is_space c" by (auto simp: is_digit_def is_space_def)
    then show ?thesis by (simp add: Cons)
  qed simp
  ultimately show ?thesis using assms by (simp add: sscanf_uint_def itoa_nonneg nat_less_iff Let_def)
qed

lemma job_pattern_yt_job_key: "job_pattern (yt_job_key j)"
proof -
  have "itoa j \<noteq> []" by simp
  then have "length (itoa j) \<ge> 1" by (simp add: Suc_le_eq)
  then show ?thesis by (simp add: job_pattern_def key_defs has_prefix_def has_suffix_def)
qed

definition orphans :: "int set \<Rightarrow> string list \<Rightarrow> int set" where
  "orphans valid ks = {j. \<exists>k\<in>set ks. key_job k = Some j \<and> j \<notin> valid}"

definition orphan_keys :: "redis_db \<Rightarrow> int set \<Rightarrow> string set" where
  "orphan_keys db J = (\<Union>j\<in>J. job_keys j \<union> job_docs db j)"

lemma without_without: "without A (without B db) = without (A \<union> B) db"
  by (auto simp: without_def)

lemma job_docs_without:
  "job_docs (without (job_keys i \<union> job_docs db i) db) j = (if i = j then {} else job_docs db j)"
proof -
  have "yt_job_key j \<noteq> yt_lock_key i" "yt_job_key j \<noteq> yt_offset_key i" "yt_job_key j \<notin> job_docs db i"
    by (auto simp: key_defs job_docs_def itoa_colon_neq split: option.splits)
  moreover have "yt_job_key j = yt_job_key i \<longleftrightarrow> j = i" by (auto simp: key_defs)
  ultimately show ?thesis by (auto simp: job_docs_def without_def job_keys_def zs_of_def)
qed

lemma remove_orphans_ref:
  "\<exists>n'. remove_orphans redis_ref valid ks (db, n) = Some (without (orphan_keys db (orphans valid ks)) db, n')"
proof (induction ks arbitrary: db n)
  case Nil
  then show ?case by (simp add: orphan_keys_def orphans_def without_def)
next
  case (Cons k ks)
  show ?case
  proof (cases "\<exists>j. key_job k = Some j \<and> j \<notin> valid")
    case False
    then have "orphans valid (k # ks) = orphans valid ks" by (auto simp: orphans_def)
    then show ?thesis using False Cons.IH by (auto split: option.split)
  next
    case True
    then obtain j where j: "key_job k = Some j" "j \<notin> valid" by blast
    let ?K = "job_keys j \<union> job_docs db j"
    have o: "orphans valid (k # ks) = insert j (orphans valid ks)" using j by (auto simp: orphans_def)
    have "orphan_keys (without ?K db) (orphans valid ks) \<union> ?K = orphan_keys db (insert j (orphans valid ks))"
      by (auto simp: orphan_keys_def job_docs_without split: if_splits)
    then have "without (orphan_keys (without ?K db) (orphans valid ks)) (without ?K db)
        = without (orphan_keys db (orphans valid (k # ks))) db"
      by (simp add: without_without o)
    moreover obtain n' where "remove_orphans redis_ref valid ks (without ?K db, Suc n) =
        Some (without (orphan_keys (without ?K db) (orphans valid ks)) (without ?K db), n')"
      using Cons.IH by blast
    ultimately show ?thesis using j by (simp add: deleteJob_ref)
  qed
qed

text \<open>C36: The tool returns. For each job whose index the scan found and the database does not have, the
index, the lock, the offset and every document that the index names are gone; a key that is none of these for
any job missing in the database has its old value, so entries of queues stay, those of deleted jobs too.\<close>

theorem cleanup_removes_orphans_only:
  assumes "redis_up re" "\<And>k. k \<in> set ks \<longleftrightarrow> job_pattern k \<and> db k \<noteq> None"
  shows "\<exists>db' n. remove_orphans re valid ks (db, 0) = Some (db', n)
    \<and> (\<forall>j. 0 \<le> j \<longrightarrow> j < 2 ^ 64 \<longrightarrow> j \<notin> valid \<longrightarrow> db (yt_job_key j) \<noteq> None
         \<longrightarrow> (\<forall>k\<in>job_keys j \<union> job_docs db j. db' k = None))
    \<and> (\<forall>k. k \<notin> (\<Union>j\<in>- valid. job_keys j \<union> job_docs db j) \<longrightarrow> db' k = db k)"
proof -
  have "re = redis_ref" using assms(1) by (rule redis_upD)
  then obtain n where n: "remove_orphans re valid ks (db, 0) = Some (without (orphan_keys db (orphans valid ks)) db, n)"
    using remove_orphans_ref by blast
  have "j \<in> orphans valid ks" if "0 \<le> j" "j < 2 ^ 64" "j \<notin> valid" "db (yt_job_key j) \<noteq> None" for j
  proof -
    have "yt_job_key j \<in> set ks" using that(4) assms(2) job_pattern_yt_job_key by blast
    then show ?thesis using key_job_yt_job_key [OF that(1,2)] that(3) by (auto simp: orphans_def)
  qed
  moreover have "orphans valid ks \<subseteq> - valid" by (auto simp: orphans_def)
  ultimately show ?thesis unfolding n by (auto simp: without_def orphan_keys_def)
qed

theorem cleanup_removes_orphans_only_witness:
  "\<exists>db' n. remove_orphans redis_ref {7} [yt_job_key 7, yt_job_key 8]
      ([yt_job_key 7 \<mapsto> RZ [(1, ''1'')], yt_job_key 8 \<mapsto> RZ [(2, ''2'')], ''task:2'' \<mapsto> RS (Txt [])], 0) = Some (db', n)
     \<and> db' ''task:2'' = None \<and> db' (yt_job_key 7) = Some (RZ [(1, ''1'')])"
proof -
  let ?db = "[yt_job_key 7 \<mapsto> RZ [(1, ''1'')], yt_job_key 8 \<mapsto> RZ [(2, ''2'')], ''task:2'' \<mapsto> RS (Txt [])] :: redis_db"
  have ks: "k \<in> set [yt_job_key 7, yt_job_key 8] \<longleftrightarrow> job_pattern k \<and> ?db k \<noteq> None" for k
    using job_pattern_yt_job_key [of 7] job_pattern_yt_job_key [of 8]
    by (auto simp: job_pattern_def)
  have d: "''task:2'' \<in> job_docs ?db 8" by (simp add: job_docs_def zs_of_def key_defs)
  have e: "yt_job_key 7 \<notin> (\<Union>j\<in>- {7}. job_keys j \<union> job_docs ?db j)"
    by (auto simp: job_keys_def job_docs_def key_defs itoa_colon_neq split: option.splits)
  have f: "?db (yt_job_key 8) \<noteq> None" "?db (yt_job_key 7) = Some (RZ [(1, ''1'')])"
    by (simp_all add: key_defs)
  obtain db' n where r: "remove_orphans redis_ref {7} [yt_job_key 7, yt_job_key 8] (?db, 0) = Some (db', n)"
    and o: "\<forall>j. 0 \<le> j \<longrightarrow> j < 2 ^ 64 \<longrightarrow> j \<notin> {7} \<longrightarrow> ?db (yt_job_key j) \<noteq> None
         \<longrightarrow> (\<forall>k\<in>job_keys j \<union> job_docs ?db j. db' k = None)"
    and u: "\<forall>k. k \<notin> (\<Union>j\<in>- {7}. job_keys j \<union> job_docs ?db j) \<longrightarrow> db' k = ?db k"
    using cleanup_removes_orphans_only [OF redis_up_ref ks, of "{7}"] by blast
  have "db' ''task:2'' = None" using o [rule_format, of 8 "''task:2''"] f(1) d by simp
  moreover have "db' (yt_job_key 7) = Some (RZ [(1, ''1'')])" using u [rule_format, OF e] f(2) by simp
  ultimately show ?thesis using r by blast
qed

section \<open>A server that refuses\<close>

text \<open>Where the command that makes the loop advance is refused, \<^verbatim>\<open>deleteJob\<close> does not return: it reads the
same batch again.\<close>

definition no_trim :: rexec where
  "no_trim db c = (case c of ZREMRANGEBYRANK k a b \<Rightarrow> (db, RErr) | _ \<Rightarrow> redis_ref db c)"

lemma refused_trim_never_ends:
  assumes "zs_of (db (yt_job_key j)) = Some zs" "zs \<noteq> []"
  shows "deleteJob no_trim j db = None"
proof -
  have dels: "rrun no_trim db (task_dels is) = without ((\<lambda>i. ''task:'' @ i) ` set is) db" for db :: redis_db and "is"
    unfolding rrun_task_dels [symmetric] by (induction "is" arbitrary: db) (simp_all add: rrun_Cons no_trim_def)
  let ?P = "\<lambda>re k (db :: redis_db) (d :: redis_db). re = no_trim \<longrightarrow> k = yt_job_key j \<longrightarrow> zs_of (db k) \<noteq> Some zs"
  have ends: "?P re k db d" if "delete_batches re k db = Some d" for re k db d
  proof (rule delete_batches.raw_induct [where P = ?P, OF _ that])
    fix f re k db and d :: redis_db
    assume IH: "\<And>re k db y. f re k db = Some y \<Longrightarrow> ?P re k db y"
      and step: "(case snd (re db (ZRANGE k 0 9999)) of
        RArr (i # is) \<Rightarrow>
          f re k (fst (re (rrun re (fst (re db (ZRANGE k 0 9999))) (task_dels (i # is))) (ZREMRANGEBYRANK k 0 9999)))
      | _ \<Rightarrow> Some (fst (re db (ZRANGE k 0 9999)))) = Some d"
    show "?P re k db d"
    proof (intro impI notI)
      assume r: "re = no_trim" "k = yt_job_key j" "zs_of (db k) = Some zs"
      obtain i js where ij: "take 10000 (map snd zs) = i # js" using assms(2) by (cases zs) auto
      have z: "snd (no_trim db (ZRANGE k 0 9999)) = RArr (i # js)" "fst (no_trim db (ZRANGE k 0 9999)) = db"
        using r ij by (simp_all add: no_trim_def z_slice_first)
      let ?db2 = "without ((\<lambda>i. ''task:'' @ i) ` set (i # js)) db"
      have t: "fst (no_trim ?db2 (ZREMRANGEBYRANK k 0 9999)) = ?db2" by (simp add: no_trim_def)
      have "f no_trim k ?db2 = Some d" using step r(1) by (simp only: z reply.case list.case dels t)
      then have "zs_of (?db2 k) \<noteq> Some zs" using IH [of no_trim k ?db2 d] r(2) by blast
      moreover have "?db2 k = db k" using r(2) job_key_not_task by (auto simp: without_def)
      ultimately show False using r(3) by simp
    qed
  qed
  show ?thesis using assms ends [of no_trim "yt_job_key j" db] by (cases "delete_batches no_trim (yt_job_key j) db") (auto simp: deleteJob_def)
qed
end
