(* ===== verification/ApiRoutes.thy ===== *)
theory ApiRoutes
  imports Prelude
begin

text \<open>
  \<^verbatim>\<open>routes/routes.go\<close>: the routes of the API server, and the requests with which the workers and the
  scanners call it. The router of gin is a parameter; what is used of it is that it compares a path segment by
  segment and that a route of fixed segments comes before one with a parameter. Redirections for a missing or an
  additional slash at the end are not part of the table.
\<close>

section \<open>The table\<close>

datatype http_method = GET | POST | PUT | PATCH | DELETE

datatype segment = Lit string | Param

datatype handler =
  H_Metrics | H_GetFeishuLoginURL | H_FeishuCallback | H_PasscodeLogin | H_CreateTransferJob |
  H_ListTransferJobs | H_GetTransferStats | H_ListPendingTransferJobs | H_GetTransferJob |
  H_StartTransferJob | H_StopTransferJob | H_RetryFailedTransferTasks | H_UpdateTransferJobStatus
  | H_AddTasksToTransferJob | H_DeleteTransferJob | H_CreateYoutubeJob | H_ListYoutubeJobs |
  H_GetYoutubeQueueStats | H_GetYoutubeJob | H_AddTasksToYoutubeJob | H_RetryFailedYoutubeTasks |
  H_RetryNonCompletedYoutubeTasks | H_ResetYoutubeJobOffset | H_DeletePendingYoutubeJobs |
  H_DeleteYoutubeJob | H_CreateMetadata | H_ListMetadata | H_GetMetadata | H_UpdateMetadata |
  H_DeleteMetadata | H_BatchInsert | H_BatchUpdate | H_BatchFetch | H_AcquireTasks |
  H_BatchDelete | H_AcquireTransferTasks | H_BatchUpdateTransfer | H_GetFailedTasksForRetry |
  H_ResetTransferTask | H_CreateFfmpegJob | H_ListFfmpegJobs | H_ListPendingFfmpegJobs |
  H_GetFfmpegJob | H_UpdateFfmpegJobStatus | H_DeleteFfmpegJob | H_AcquireFfmpegTasks |
  H_BatchUpdateFfmpeg | H_CreatePipelineJob | H_ListPipelineJobs | H_GetPipelineJob |
  H_RetryPipelineJob | H_GetWorkerCookieConfig | H_ListWorkerMachineNames |
  H_UpdateYoutubeTaskRecord

type_synonym route = "http_method \<times> segment list \<times> handler"

definition SetupRouter :: "route list" where
  "SetupRouter =
     [(GET, [Lit ''metrics''], H_Metrics),
      (GET, [Lit ''api'', Lit ''auth'', Lit ''feishu'', Lit ''login_url''], H_GetFeishuLoginURL),
      (GET, [Lit ''api'', Lit ''auth'', Lit ''feishu'', Lit ''callback''], H_FeishuCallback),
      (POST, [Lit ''api'', Lit ''auth'', Lit ''passcode'', Lit ''login''], H_PasscodeLogin),
      (POST, [Lit ''api'', Lit ''jobs'', Lit ''''], H_CreateTransferJob),
      (GET, [Lit ''api'', Lit ''jobs'', Lit ''''], H_ListTransferJobs),
      (GET, [Lit ''api'', Lit ''jobs'', Lit ''stats''], H_GetTransferStats),
      (GET, [Lit ''api'', Lit ''jobs'', Lit ''pending''], H_ListPendingTransferJobs),
      (GET, [Lit ''api'', Lit ''jobs'', Param], H_GetTransferJob),
      (POST, [Lit ''api'', Lit ''jobs'', Param, Lit ''start''], H_StartTransferJob),
      (POST, [Lit ''api'', Lit ''jobs'', Param, Lit ''stop''], H_StopTransferJob),
      (POST, [Lit ''api'', Lit ''jobs'', Param, Lit ''retry''], H_RetryFailedTransferTasks),
      (PATCH, [Lit ''api'', Lit ''jobs'', Param, Lit ''status''], H_UpdateTransferJobStatus),
      (POST, [Lit ''api'', Lit ''jobs'', Param, Lit ''tasks''], H_AddTasksToTransferJob),
      (DELETE, [Lit ''api'', Lit ''jobs'', Param], H_DeleteTransferJob),
      (POST, [Lit ''api'', Lit ''youtube-jobs'', Lit ''''], H_CreateYoutubeJob),
      (GET, [Lit ''api'', Lit ''youtube-jobs'', Lit ''''], H_ListYoutubeJobs),
      (GET, [Lit ''api'', Lit ''youtube-jobs'', Lit ''queue-stats''], H_GetYoutubeQueueStats),
      (GET, [Lit ''api'', Lit ''youtube-jobs'', Param], H_GetYoutubeJob),
      (POST, [Lit ''api'', Lit ''youtube-jobs'', Param, Lit ''tasks''], H_AddTasksToYoutubeJob),
      (POST, [Lit ''api'', Lit ''youtube-jobs'', Param, Lit ''retry''], H_RetryFailedYoutubeTasks),
      (POST, [Lit ''api'', Lit ''youtube-jobs'', Param, Lit ''retry-non-completed''], H_RetryNonCompletedYoutubeTasks),
      (POST, [Lit ''api'', Lit ''youtube-jobs'', Param, Lit ''reset-offset''], H_ResetYoutubeJobOffset),
      (DELETE, [Lit ''api'', Lit ''youtube-jobs'', Lit ''pending''], H_DeletePendingYoutubeJobs),
      (DELETE, [Lit ''api'', Lit ''youtube-jobs'', Param], H_DeleteYoutubeJob),
      (POST, [Lit ''api'', Lit ''metadata'', Lit ''''], H_CreateMetadata),
      (GET, [Lit ''api'', Lit ''metadata'', Lit ''''], H_ListMetadata),
      (GET, [Lit ''api'', Lit ''metadata'', Param], H_GetMetadata),
      (PUT, [Lit ''api'', Lit ''metadata'', Param], H_UpdateMetadata),
      (DELETE, [Lit ''api'', Lit ''metadata'', Param], H_DeleteMetadata),
      (POST, [Lit ''api'', Lit ''tasks'', Lit ''insert''], H_BatchInsert),
      (POST, [Lit ''api'', Lit ''tasks'', Lit ''update''], H_BatchUpdate),
      (POST, [Lit ''api'', Lit ''tasks'', Lit ''fetch''], H_BatchFetch),
      (POST, [Lit ''api'', Lit ''tasks'', Lit ''acquire''], H_AcquireTasks),
      (POST, [Lit ''api'', Lit ''tasks'', Lit ''delete''], H_BatchDelete),
      (POST, [Lit ''api'', Lit ''transfer-tasks'', Lit ''acquire''], H_AcquireTransferTasks),
      (POST, [Lit ''api'', Lit ''transfer-tasks'', Lit ''update''], H_BatchUpdateTransfer),
      (POST, [Lit ''api'', Lit ''transfer-tasks'', Lit ''failed-for-retry''], H_GetFailedTasksForRetry),
      (POST, [Lit ''api'', Lit ''transfer-tasks'', Lit ''reset''], H_ResetTransferTask),
      (POST, [Lit ''api'', Lit ''ffmpeg-jobs'', Lit ''''], H_CreateFfmpegJob),
      (GET, [Lit ''api'', Lit ''ffmpeg-jobs'', Lit ''''], H_ListFfmpegJobs),
      (GET, [Lit ''api'', Lit ''ffmpeg-jobs'', Lit ''pending''], H_ListPendingFfmpegJobs),
      (GET, [Lit ''api'', Lit ''ffmpeg-jobs'', Param], H_GetFfmpegJob),
      (PATCH, [Lit ''api'', Lit ''ffmpeg-jobs'', Param, Lit ''status''], H_UpdateFfmpegJobStatus),
      (DELETE, [Lit ''api'', Lit ''ffmpeg-jobs'', Param], H_DeleteFfmpegJob),
      (POST, [Lit ''api'', Lit ''ffmpeg-tasks'', Lit ''acquire''], H_AcquireFfmpegTasks),
      (POST, [Lit ''api'', Lit ''ffmpeg-tasks'', Lit ''update''], H_BatchUpdateFfmpeg),
      (POST, [Lit ''api'', Lit ''pipelines'', Lit ''''], H_CreatePipelineJob),
      (GET, [Lit ''api'', Lit ''pipelines'', Lit ''''], H_ListPipelineJobs),
      (GET, [Lit ''api'', Lit ''pipelines'', Param], H_GetPipelineJob),
      (POST, [Lit ''api'', Lit ''pipelines'', Param, Lit ''retry''], H_RetryPipelineJob),
      (GET, [Lit ''api'', Lit ''worker-cookie-configs''], H_GetWorkerCookieConfig),
      (GET, [Lit ''api'', Lit ''worker-cookie-configs'', Lit ''machine-names''], H_ListWorkerMachineNames),
      (POST, [Lit ''api'', Lit ''youtube-tasks'', Lit ''update''], H_UpdateYoutubeTaskRecord)]"

section \<open>Dispatch\<close>

text \<open>The value of the parameter, when the segments fit; a parameter is not empty. No route has more than one.\<close>

fun match_route :: "segment list \<Rightarrow> string list \<Rightarrow> string list option" where
  "match_route [] [] = Some []"
| "match_route (Lit s # ps) (x # xs) = (if x = s then match_route ps xs else None)"
| "match_route (Param # ps) (x # xs) = (if x = [] then None else map_option ((#) x) (match_route ps xs))"
| "match_route _ _ = None"

definition static_route :: "route \<Rightarrow> bool" where
  "static_route r = (Param \<notin> set (fst (snd r)))"

definition route_matches :: "http_method \<Rightarrow> string list \<Rightarrow> route \<Rightarrow> bool" where
  "route_matches m xs r = (fst r = m \<and> match_route (fst (snd r)) xs \<noteq> None)"

type_synonym router = "route list \<Rightarrow> http_method \<Rightarrow> string list \<Rightarrow> (handler \<times> string list) option"

text \<open>The documented choice: of routes with different patterns, a matching one is taken when it has no parameter or
is the only one that matches.\<close>

definition gin_router :: "router \<Rightarrow> bool" where
  "gin_router R =
     (\<forall>rs m xs r. distinct (map (\<lambda>(m, ps, h). (m, ps)) rs) \<longrightarrow> r \<in> set rs \<longrightarrow> route_matches m xs r
        \<longrightarrow> static_route r \<or> (\<forall>r'\<in>set rs. route_matches m xs r' \<longrightarrow> r' = r)
        \<longrightarrow> R rs m xs = Some (snd (snd r), the (match_route (fst (snd r)) xs)))"

text \<open>One such router: the first match without a parameter, else the first match.\<close>

definition first_match :: router where
  "first_match rs m xs =
     (let cs = filter (route_matches m xs) rs
      in map_option (\<lambda>r. (snd (snd r), the (match_route (fst (snd r)) xs)))
           (case find static_route cs of Some r \<Rightarrow> Some r | None \<Rightarrow> find (\<lambda>_. True) cs))"

fun split_slash :: "string \<Rightarrow> string list" where
  "split_slash [] = [[]]"
| "split_slash (c # s) =
     (if c = CHR ''/'' then [] # split_slash s
      else (case split_slash s of p # ps \<Rightarrow> (c # p) # ps | [] \<Rightarrow> [[c]]))"

definition path_segments :: "string \<Rightarrow> string list" where
  "path_segments path = tl (split_slash path)"

section \<open>The calls of the workers\<close>

text \<open>
  The requests of the Go workers and scanners and, the last five, of the metadata worker
  (\<^verbatim>\<open>worker_downloader/get_yt_metadata.py\<close>, a Python program that is not modelled otherwise), each
  named by the program and the function that makes it; \<open>/api\<close> is the path of \<^verbatim>\<open>BACKEND_API_URL\<close>.
  A query such as the machine name of the cookie configuration is not part of the path.
\<close>

datatype worker_call =
    Downloader_acquireTasks | Downloader_getJob int | Downloader_report | Downloader_saveRecord
  | Transfer_acquireTasks | Transfer_getJobInfo int | Transfer_updateTaskStatus | Transfer_failedForRetry
  | Transfer_reset
  | Scanner_pending | Scanner_getJob int | Scanner_addTasks int | Scanner_updateStatus int
  | FfScanner_pending | FfScanner_updateStatus int | FfScanner_report int
  | FfWorker_getJobInfo int | FfWorker_report int
  | Metadata_getJob int | Metadata_cookieConfig | Metadata_acquire | Metadata_report
  | Metadata_saveRecord

fun call_request :: "worker_call \<Rightarrow> http_method \<times> string" where
  "call_request Downloader_acquireTasks = (POST, ''/api'' @ ''/tasks/acquire'')"
| "call_request (Downloader_getJob j) = (GET, ''/api'' @ ''/youtube-jobs/'' @ itoa j)"
| "call_request Downloader_report = (POST, ''/api'' @ ''/tasks/update'')"
| "call_request Downloader_saveRecord = (POST, ''/api'' @ ''/youtube-tasks/update'')"
| "call_request Transfer_acquireTasks = (POST, ''/api'' @ ''/transfer-tasks/acquire'')"
| "call_request (Transfer_getJobInfo j) = (GET, ''/api'' @ ''/jobs/'' @ itoa j)"
| "call_request Transfer_updateTaskStatus = (POST, ''/api'' @ ''/transfer-tasks/update'')"
| "call_request Transfer_failedForRetry = (POST, ''/api'' @ ''/transfer-tasks/failed-for-retry'')"
| "call_request Transfer_reset = (POST, ''/api'' @ ''/transfer-tasks/reset'')"
| "call_request Scanner_pending = (GET, ''/api'' @ ''/jobs/pending'')"
| "call_request (Scanner_getJob j) = (GET, ''/api'' @ ''/jobs/'' @ itoa j)"
| "call_request (Scanner_addTasks j) = (POST, ''/api'' @ ''/jobs/'' @ itoa j @ ''/tasks'')"
| "call_request (Scanner_updateStatus j) = (PATCH, ''/api'' @ ''/jobs/'' @ itoa j @ ''/status'')"
| "call_request FfScanner_pending = (GET, ''/api'' @ ''/ffmpeg-jobs/pending'')"
| "call_request (FfScanner_updateStatus j) = (PATCH, ''/api'' @ ''/ffmpeg-jobs/'' @ itoa j @ ''/status'')"
| "call_request (FfScanner_report j) = (PATCH, ''/api'' @ ''/ffmpeg-jobs/'' @ itoa j @ ''/status'')"
| "call_request (FfWorker_getJobInfo j) = (GET, ''/api'' @ ''/ffmpeg-jobs/'' @ itoa j)"
| "call_request (FfWorker_report j) = (PATCH, ''/api'' @ ''/ffmpeg-jobs/'' @ itoa j @ ''/status'')"
| "call_request (Metadata_getJob j) = (GET, ''/api'' @ ''/youtube-jobs/'' @ itoa j)"
| "call_request Metadata_cookieConfig = (GET, ''/api'' @ ''/worker-cookie-configs'')"
| "call_request Metadata_acquire = (POST, ''/api'' @ ''/tasks/acquire'')"
| "call_request Metadata_report = (POST, ''/api'' @ ''/tasks/update'')"
| "call_request Metadata_saveRecord = (POST, ''/api'' @ ''/youtube-tasks/update'')"

text \<open>The handler that each caller is written against, and the job it means.\<close>

fun call_target :: "worker_call \<Rightarrow> handler \<times> int option" where
  "call_target Downloader_acquireTasks = (H_AcquireTasks, None)"
| "call_target (Downloader_getJob j) = (H_GetYoutubeJob, Some j)"
| "call_target Downloader_report = (H_BatchUpdate, None)"
| "call_target Downloader_saveRecord = (H_UpdateYoutubeTaskRecord, None)"
| "call_target Transfer_acquireTasks = (H_AcquireTransferTasks, None)"
| "call_target (Transfer_getJobInfo j) = (H_GetTransferJob, Some j)"
| "call_target Transfer_updateTaskStatus = (H_BatchUpdateTransfer, None)"
| "call_target Transfer_failedForRetry = (H_GetFailedTasksForRetry, None)"
| "call_target Transfer_reset = (H_ResetTransferTask, None)"
| "call_target Scanner_pending = (H_ListPendingTransferJobs, None)"
| "call_target (Scanner_getJob j) = (H_GetTransferJob, Some j)"
| "call_target (Scanner_addTasks j) = (H_AddTasksToTransferJob, Some j)"
| "call_target (Scanner_updateStatus j) = (H_UpdateTransferJobStatus, Some j)"
| "call_target FfScanner_pending = (H_ListPendingFfmpegJobs, None)"
| "call_target (FfScanner_updateStatus j) = (H_UpdateFfmpegJobStatus, Some j)"
| "call_target (FfScanner_report j) = (H_UpdateFfmpegJobStatus, Some j)"
| "call_target (FfWorker_getJobInfo j) = (H_GetFfmpegJob, Some j)"
| "call_target (FfWorker_report j) = (H_UpdateFfmpegJobStatus, Some j)"
| "call_target (Metadata_getJob j) = (H_GetYoutubeJob, Some j)"
| "call_target Metadata_cookieConfig = (H_GetWorkerCookieConfig, None)"
| "call_target Metadata_acquire = (H_AcquireTasks, None)"
| "call_target Metadata_report = (H_BatchUpdate, None)"
| "call_target Metadata_saveRecord = (H_UpdateYoutubeTaskRecord, None)"

section \<open>Every call arrives\<close>

lemma split_slash_plain: "CHR ''/'' \<notin> set s \<Longrightarrow> split_slash s = [s]"
  by (induction s) auto

lemma split_slash_append: "CHR ''/'' \<notin> set a \<Longrightarrow> split_slash (a @ CHR ''/'' # s) = a # split_slash s"
  by (induction a) auto

lemma is_digit_slash [simp]: "\<not> is_digit CHR ''/''"
  by (simp add: is_digit_def)

lemma itoa_no_slash: "CHR ''/'' \<notin> set (itoa i)"
proof -
  have "CHR ''/'' \<notin> set (ntoa n)" for n using ntoa_digits is_digit_slash by blast
  then show ?thesis by (simp add: itoa_def)
qed

lemma itoa_head: "itoa i = c # s \<Longrightarrow> is_digit c \<or> c = CHR ''-''"
  by (cases "i < 0") (auto simp: itoa_def intro: ntoa_digits [of c "nat i"])

lemma itoa_not_word:
  "itoa i \<noteq> CHR ''p'' # s" "itoa i \<noteq> CHR ''s'' # s" "itoa i \<noteq> CHR ''q'' # s"
  by (auto dest!: itoa_head simp: is_digit_def)

lemmas split_simps = split_slash_plain [OF itoa_no_slash] split_slash_append [OF itoa_no_slash, simplified]

text \<open>No two routes of one method have the same segments, which the router would refuse at the start.\<close>

lemma routes_distinct: "distinct (map (\<lambda>(m, ps, h). (m, ps)) SetupRouter)"
  by (simp add: SetupRouter_def)

text \<open>The answer where the documented choice is clear.\<close>

definition clear_choice :: "route list \<Rightarrow> http_method \<Rightarrow> string list \<Rightarrow> (handler \<times> string list) option" where
  "clear_choice rs m xs =
     (let cs = filter (route_matches m xs) rs
      in map_option (\<lambda>r. (snd (snd r), the (match_route (fst (snd r)) xs)))
           (case filter static_route cs of
              [r] \<Rightarrow> Some r
            | _ \<Rightarrow> (case cs of [r] \<Rightarrow> Some r | _ \<Rightarrow> None)))"

lemma gin_choice:
  assumes "gin_router R" "distinct (map (\<lambda>(m, ps, h). (m, ps)) rs)" "clear_choice rs m xs = Some v"
  shows "R rs m xs = Some v"
proof -
  let ?cs = "filter (route_matches m xs) rs"
  define pick where "pick = (case filter static_route ?cs of
      [r] \<Rightarrow> Some r | _ \<Rightarrow> (case ?cs of [r] \<Rightarrow> Some r | _ \<Rightarrow> None))"
  obtain r where p: "pick = Some r" and v: "v = (snd (snd r), the (match_route (fst (snd r)) xs))"
    using assms(3) unfolding clear_choice_def Let_def pick_def [symmetric] by blast
  have r: "filter static_route ?cs = [r] \<or> ?cs = [r]"
    using p unfolding pick_def by (simp split: list.splits)
  then have "set (filter static_route ?cs) = {r} \<or> set ?cs = {r}" by (metis list.set(1,2))
  then have "r \<in> set rs" "route_matches m xs r"
    "static_route r \<or> (\<forall>r'\<in>set rs. route_matches m xs r' \<longrightarrow> r' = r)" by auto
  with assms(1,2) show ?thesis unfolding gin_router_def v by blast
qed

lemma static_match_unique: "Param \<notin> set ps \<Longrightarrow> match_route ps xs \<noteq> None \<Longrightarrow> ps = map Lit xs"
  by (induction ps xs rule: match_route.induct) (auto split: if_splits)

lemma first_match_gin: "gin_router first_match"
  unfolding gin_router_def
proof (intro allI impI)
  fix rs m xs r
  assume d: "distinct (map (\<lambda>(m, ps, h). (m, ps)) rs)" and r: "r \<in> set rs" "route_matches m xs r"
    and u: "static_route r \<or> (\<forall>r'\<in>set rs. route_matches m xs r' \<longrightarrow> r' = r)"
  have inj: "q = q'" if "q \<in> set rs" "q' \<in> set rs" "fst q = fst q'" "fst (snd q) = fst (snd q')" for q q'
  proof -
    have "inj_on (\<lambda>(m, ps, h). (m, ps)) (set rs)" using d by (simp add: distinct_map)
    from inj_onD [OF this _ that(1,2)] show ?thesis using that(3,4) by (simp add: case_prod_beta)
  qed
  have pick: "q = r" if "q \<in> set rs" "route_matches m xs q" "static_route q \<or> \<not> static_route r" for q
  proof (cases "static_route r")
    case True
    then have "fst (snd q) = map Lit xs" "fst (snd r) = map Lit xs"
      using that r by (auto simp: static_route_def route_matches_def intro!: static_match_unique)
    then show ?thesis using inj [of q r] that r by (simp add: route_matches_def)
  qed (use u that in blast)
  let ?cs = "filter (route_matches m xs) rs"
  have "(case find static_route ?cs of Some q \<Rightarrow> Some q | None \<Rightarrow> find (\<lambda>_. True) ?cs) = Some r"
  proof (cases "find static_route ?cs")
    case (Some q)
    then have "q \<in> set ?cs" "static_route q" by (auto simp: find_Some_iff set_conv_nth)
    then show ?thesis using Some pick by auto
  next
    case None
    then have ns: "\<not> static_route r" using r unfolding find_None_iff set_filter by blast
    obtain q qs where q: "?cs = q # qs" using r by (cases ?cs) (auto simp: filter_empty_conv)
    then have "q \<in> set ?cs" by simp
    then have "q \<in> set rs" "route_matches m xs q" unfolding set_filter by blast+
    then have "q = r" using pick ns by blast
    then show ?thesis using None q by simp
  qed
  then show "first_match rs m xs = Some (snd (snd r), the (match_route (fst (snd r)) xs))"
    by (simp add: first_match_def Let_def)
qed

text \<open>Each of these requests is dispatched to the handler it is meant for, with the
identifier of its job as the parameter: no fixed route such as \<^verbatim>\<open>/jobs/pending\<close> takes a job's path, and no
path with a parameter takes a fixed one.\<close>

lemma worker_calls_reach_their_handlers:
  assumes "gin_router R"
  shows "R SetupRouter (fst (call_request c)) (path_segments (snd (call_request c))) =
     Some (fst (call_target c), case snd (call_target c) of None \<Rightarrow> [] | Some j \<Rightarrow> [itoa j])"
  by (rule gin_choice [OF assms routes_distinct], cases c)
    (simp_all add: clear_choice_def SetupRouter_def route_matches_def static_route_def path_segments_def split_simps
      itoa_not_word)

text \<open>Each handler is mounted once.\<close>

lemma handlers_distinct: "distinct (map (\<lambda>(m, ps, h). h) SetupRouter)"
  by (simp add: SetupRouter_def)

end
