(* ===== verification/Admin.thy ===== *)
theory Admin
  imports Endpoints
begin

text \<open>
  The rows that the administration pages edit, and the two ways to log in: \<^verbatim>\<open>metadata_handler.go\<close> (storage
  accounts), \<^verbatim>\<open>cookie_handler.go\<close>, \<^verbatim>\<open>auth_handler.go\<close>, and the search for the configuration file in
  \<^verbatim>\<open>config/config.go\<close>. Each table is the list of its rows and the next identifier of its sequence.
  \<open>fails\<close> says of which statements the database reports an error; such a statement changes nothing. The
  signature of a token and what Feishu answers are arguments.
\<close>

section \<open>Tables\<close>

record transfer_metadata =
  tm_ID :: int
  tm_ClientName :: string
  tm_Endpoint :: string
  tm_AK :: string
  tm_SKEncrypted :: string

record user =
  us_ID :: int
  us_FeishuOpenID :: string
  us_Name :: string
  us_Email :: string
  us_AvatarURL :: string

text \<open>The rates are floats: a mantissa and an exponent.\<close>

record cookie_config =
  ck_ID :: int
  ck_MachineName :: string
  ck_CookieContent :: string
  ck_Enabled :: bool
  ck_ParseRateLimit :: "int \<times> int"
  ck_DownloadRateLimit :: "int \<times> int"

record admin_db =
  ad_Metadata :: "transfer_metadata list"
  ad_NextMetadata :: int
  ad_Users :: "user list"
  ad_NextUser :: int
  ad_Cookies :: "cookie_config list"

datatype admin_body =
    AError string
  | AMetadata transfer_metadata
  | AMetadatas "transfer_metadata list"
  | ACookies "cookie_config list"
  | ANames "string list"
  | AOk
  | AToken string int string string
  | ARedirect string user
  | AUpstream string

section \<open>Storage accounts\<close>

text \<open>A required string of a request must not be empty. \<open>None\<close>: the body is not JSON of the right types.\<close>

record metadata_request =
  mr_ClientName :: string
  mr_Endpoint :: string
  mr_AK :: string
  mr_SK :: string

definition encrypt_sk :: "string \<Rightarrow> string" where
  "encrypt_sk sk = ''enc_'' @ sk"

definition CreateMetadata :: "(string \<Rightarrow> bool) \<Rightarrow> metadata_request option \<Rightarrow> admin_db \<Rightarrow> admin_db \<times> nat \<times> admin_body" where
  "CreateMetadata fails req d =
     (case req of
        None \<Rightarrow> (d, 400, AError ''bind'')
      | Some r \<Rightarrow>
          if mr_ClientName r = [] \<or> mr_Endpoint r = [] \<or> mr_AK r = [] \<or> mr_SK r = [] then (d, 400, AError ''bind'')
          else if fails ''create'' then (d, 500, AError ''create'')
          else (let m = \<lparr>tm_ID = ad_NextMetadata d, tm_ClientName = mr_ClientName r, tm_Endpoint = mr_Endpoint r,
                         tm_AK = mr_AK r, tm_SKEncrypted = encrypt_sk (mr_SK r)\<rparr>
                in (d\<lparr>ad_Metadata := ad_Metadata d @ [m], ad_NextMetadata := ad_NextMetadata d + 1\<rparr>, 201, AMetadata m)))"

text \<open>\<^verbatim>\<open>Offset\<close> and \<^verbatim>\<open>Limit\<close>: a negative limit is none, an offset that is not positive is none.\<close>

definition offset_limit :: "int \<Rightarrow> int \<Rightarrow> 'a list \<Rightarrow> 'a list" where
  "offset_limit off lim xs = (let ys = drop (nat off) xs in if lim < 0 then ys else take (nat lim) ys)"

text \<open>\<open>Atoi\<close> of a parameter that is no number gives 0, a missing one has its default.\<close>

definition query_int :: "int \<Rightarrow> string option \<Rightarrow> int" where
  "query_int dflt q =
     (case q of
        None \<Rightarrow> dflt
      | Some s \<Rightarrow>
          let d = (if s \<noteq> [] \<and> (hd s = CHR ''-'' \<or> hd s = CHR ''+'') then tl s else s)
          in if d \<noteq> [] \<and> list_all is_digit d then sscanf_d s else 0)"

definition ListMetadata :: "(string \<Rightarrow> bool) \<Rightarrow> string option \<Rightarrow> string option \<Rightarrow> admin_db \<Rightarrow> nat \<times> admin_body" where
  "ListMetadata fails sk lim d =
     (if fails ''find'' then (500, AError ''find'')
      else (200, AMetadatas (offset_limit (query_int 0 sk) (query_int 100 lim) (ad_Metadata d))))"

text \<open>\<^verbatim>\<open>First\<close>; any error of it is answered as not found.\<close>

definition first_metadata :: "(string \<Rightarrow> bool) \<Rightarrow> int \<Rightarrow> admin_db \<Rightarrow> transfer_metadata option" where
  "first_metadata fails i d = (if fails ''first'' then None else find (\<lambda>m. tm_ID m = i) (ad_Metadata d))"

definition GetMetadata :: "(string \<Rightarrow> bool) \<Rightarrow> int \<Rightarrow> admin_db \<Rightarrow> nat \<times> admin_body" where
  "GetMetadata fails i d =
     (case first_metadata fails i d of
        None \<Rightarrow> (404, AError ''Metadata not found'')
      | Some m \<Rightarrow> (200, AMetadata m))"

definition apply_metadata :: "metadata_request \<Rightarrow> transfer_metadata \<Rightarrow> transfer_metadata" where
  "apply_metadata r m =
     m\<lparr>tm_ClientName := (if mr_ClientName r \<noteq> [] then mr_ClientName r else tm_ClientName m),
       tm_Endpoint := (if mr_Endpoint r \<noteq> [] then mr_Endpoint r else tm_Endpoint m),
       tm_AK := (if mr_AK r \<noteq> [] then mr_AK r else tm_AK m),
       tm_SKEncrypted := (if mr_SK r \<noteq> [] then encrypt_sk (mr_SK r) else tm_SKEncrypted m)\<rparr>"

definition UpdateMetadata :: "(string \<Rightarrow> bool) \<Rightarrow> int \<Rightarrow> metadata_request option \<Rightarrow> admin_db \<Rightarrow> admin_db \<times> nat \<times> admin_body" where
  "UpdateMetadata fails i req d =
     (case req of
        None \<Rightarrow> (d, 400, AError ''bind'')
      | Some r \<Rightarrow>
          (case first_metadata fails i d of
             None \<Rightarrow> (d, 404, AError ''Metadata not found'')
           | Some m \<Rightarrow>
               if fails ''save'' then (d, 500, AError ''save'')
               else (let m' = apply_metadata r m
                     in (d\<lparr>ad_Metadata := map (\<lambda>x. if tm_ID x = i then m' else x) (ad_Metadata d)\<rparr>, 200, AMetadata m'))))"

definition DeleteMetadata :: "(string \<Rightarrow> bool) \<Rightarrow> int \<Rightarrow> admin_db \<Rightarrow> admin_db \<times> nat \<times> admin_body" where
  "DeleteMetadata fails i d =
     (case first_metadata fails i d of
        None \<Rightarrow> (d, 404, AError ''Metadata not found'')
      | Some m \<Rightarrow>
          if fails ''delete'' then (d, 500, AError ''delete'')
          else (d\<lparr>ad_Metadata := filter (\<lambda>x. tm_ID x \<noteq> i) (ad_Metadata d)\<rparr>, 200, AOk))"

section \<open>Cookies of a machine\<close>

definition GetWorkerCookieConfig :: "(string \<Rightarrow> bool) \<Rightarrow> string \<Rightarrow> admin_db \<Rightarrow> nat \<times> admin_body" where
  "GetWorkerCookieConfig fails machine d =
     (if machine = [] then (400, AError ''machine_name parameter is required'')
      else if fails ''find'' then (500, AError ''find'')
      else (let cs = filter (\<lambda>c. ck_MachineName c = machine \<and> ck_Enabled c) (ad_Cookies d)
            in if cs = [] then (404, AError ''No enabled cookie config found for this machine'') else (200, ACookies cs)))"

definition ListWorkerMachineNames :: "(string \<Rightarrow> bool) \<Rightarrow> admin_db \<Rightarrow> nat \<times> admin_body" where
  "ListWorkerMachineNames fails d =
     (if fails ''find'' then (500, AError ''find'')
      else (200, ANames (map ck_MachineName (filter ck_Enabled (ad_Cookies d)))))"

section \<open>Configuration file\<close>

text \<open>\<open>there p\<close>: the file exists. The result is the path that is read.\<close>

definition find_config :: "string list \<Rightarrow> (string \<Rightarrow> bool) \<Rightarrow> string \<Rightarrow> string option" where
  "find_config paths there env = (if env \<noteq> [] then (if there env then Some env else None) else find there paths)"

definition config_paths :: "string list" where
  "config_paths = [''config.yaml'', ''../config.yaml'', ''../../config.yaml'', ''../../../config.yaml'']"

record app_config =
  cf_AppID :: string
  cf_AppSecret :: string
  cf_RedirectURI :: string
  cf_JWTSecret :: string
  cf_AccessTokenExpireMins :: int

text \<open>\<open>read p\<close>: the file parsed as YAML, if it can be read and parsed.\<close>

definition LoadConfig :: "(string \<Rightarrow> bool) \<Rightarrow> (string \<Rightarrow> app_config option) \<Rightarrow> string \<Rightarrow> app_config option" where
  "LoadConfig there read env = (case find_config config_paths there env of None \<Rightarrow> None | Some p \<Rightarrow> read p)"

section \<open>Logging in\<close>

text \<open>The claims of a token; times in seconds.\<close>

record claims =
  cl_sub :: int
  cl_exp :: int
  cl_iat :: int

type_synonym signer = "string \<Rightarrow> claims \<Rightarrow> string option"

definition generateJWT :: "signer \<Rightarrow> int \<Rightarrow> user \<Rightarrow> app_config \<Rightarrow> string option" where
  "generateJWT sign now u cfg =
     sign (cf_JWTSecret cfg)
       \<lparr>cl_sub = us_ID u, cl_exp = now + cf_AccessTokenExpireMins cfg * 60, cl_iat = now\<rparr>"

text \<open>\<^verbatim>\<open>url.QueryEscape\<close>, and \<^verbatim>\<open>GetFeishuLoginURL\<close>: \<^verbatim>\<open>Encode\<close> writes the keys in their order.\<close>

definition unreserved :: "char \<Rightarrow> bool" where
  "unreserved c = (is_alpha c \<or> is_digit c \<or> c \<in> set ''-_.~'')"

definition hex_upper :: "nat \<Rightarrow> char" where
  "hex_upper n = ''0123456789ABCDEF'' ! n"

definition escape_char :: "char \<Rightarrow> string" where
  "escape_char c =
     (if unreserved c then [c] else if c = CHR '' '' then ''+''
      else (let n = of_char c in [CHR 0x25, hex_upper (n div 16), hex_upper (n mod 16)]))"

definition query_escape :: "string \<Rightarrow> string" where
  "query_escape s = concat (map escape_char s)"

definition login_state :: string where
  "login_state = ''unbound_future_login''"

definition GetFeishuLoginURL :: "app_config option \<Rightarrow> nat \<times> string" where
  "GetFeishuLoginURL cfg =
     (case cfg of
        None \<Rightarrow> (500, ''Failed to load config'')
      | Some cf \<Rightarrow>
          (200, ''https://passport.feishu.cn/suite/passport/oauth/authorize?client_id='' @ query_escape (cf_AppID cf)
                @ ''&redirect_uri='' @ query_escape (cf_RedirectURI cf) @ ''&response_type=code&state='' @ login_state))"

definition passcode_user :: user where
  "passcode_user = \<lparr>us_ID = 1, us_FeishuOpenID = [], us_Name = ''Passcode Admin'',
     us_Email = ''passcode@login.local'', us_AvatarURL = []\<rparr>"

definition required_passcode :: "string \<Rightarrow> string" where
  "required_passcode env = (if env = [] then ''jaime123'' else env)"

definition PasscodeLogin :: "signer \<Rightarrow> int \<Rightarrow> string \<Rightarrow> app_config option \<Rightarrow> string option \<Rightarrow> nat \<times> admin_body" where
  "PasscodeLogin sign now env cfg req =
     (case req of
        None \<Rightarrow> (400, AError ''Invalid request body'')
      | Some p \<Rightarrow>
          if p \<noteq> required_passcode env then (401, AError ''Invalid passcode'')
          else (case cfg of
                  None \<Rightarrow> (500, AError ''Failed to load config'')
                | Some cf \<Rightarrow>
                    (case generateJWT sign now passcode_user cf of
                       None \<Rightarrow> (500, AError ''Failed to generate token'')
                     | Some t \<Rightarrow> (200, AToken t (us_ID passcode_user) (us_Name passcode_user) (us_Email passcode_user)))))"

text \<open>An answer of Feishu: the status, the text, and what \<^verbatim>\<open>json.Unmarshal\<close> makes of the text; a field that
is not there is empty, and any JSON object has the right shape.\<close>

record feishu_auth =
  fa_AccessToken :: string
  fa_Error :: string
  fa_ErrorDescription :: string

record feishu_user =
  fu_Sub :: string
  fu_Name :: string
  fu_Picture :: string
  fu_Email :: string
  fu_AvatarURL :: string

definition feishu_avatar :: "feishu_user \<Rightarrow> string" where
  "feishu_avatar f = (if fu_Picture f = [] then fu_AvatarURL f else fu_Picture f)"

text \<open>Find or create the user; an error of the update is not looked at. An insert also fails on the unique
index of the open id.\<close>

definition login_user :: "(string \<Rightarrow> bool) \<Rightarrow> feishu_user \<Rightarrow> admin_db \<Rightarrow> admin_db \<times> (admin_body + user)" where
  "login_user fails f d =
     (if fails ''first'' then (d, Inl (AError ''Database error''))
      else (case find (\<lambda>u. us_FeishuOpenID u = fu_Sub f) (ad_Users d) of
              None \<Rightarrow>
                if fails ''create'' then (d, Inl (AError ''Failed to create user''))
                else (let u = \<lparr>us_ID = ad_NextUser d, us_FeishuOpenID = fu_Sub f, us_Name = fu_Name f,
                               us_Email = fu_Email f, us_AvatarURL = feishu_avatar f\<rparr>
                      in (d\<lparr>ad_Users := ad_Users d @ [u], ad_NextUser := ad_NextUser d + 1\<rparr>, Inr u))
            | Some u0 \<Rightarrow>
                (let u = u0\<lparr>us_Name := fu_Name f, us_AvatarURL := feishu_avatar f\<rparr>
                 in (if fails ''save'' then d
                     else d\<lparr>ad_Users := map (\<lambda>x. if us_ID x = us_ID u then u else x) (ad_Users d)\<rparr>, Inr u))))"

definition FeishuCallback :: "(string \<Rightarrow> bool) \<Rightarrow> signer \<Rightarrow> int \<Rightarrow> app_config option \<Rightarrow> string
    \<Rightarrow> (app_config \<Rightarrow> string \<Rightarrow> (nat \<times> string \<times> feishu_auth option) option)
    \<Rightarrow> (string \<Rightarrow> (nat \<times> feishu_user option) option) \<Rightarrow> admin_db \<Rightarrow> admin_db \<times> nat \<times> admin_body" where
  "FeishuCallback fails sign now cfg code token_endpoint user_endpoint d =
     (if code = [] then (d, 400, AError ''Code is required'')
      else (case cfg of
        None \<Rightarrow> (d, 500, AError ''Failed to load config'')
      | Some cf \<Rightarrow>
          (case token_endpoint cf code of
             None \<Rightarrow> (d, 500, AError ''Failed to connect to Feishu'')
           | Some (status, text, parsed) \<Rightarrow>
               if status \<noteq> 200 then (d, status, AUpstream text)
               else (case parsed of
                 None \<Rightarrow> (d, 500, AError ''Failed to parse Feishu response'')
               | Some a \<Rightarrow>
                   if fa_Error a \<noteq> [] then (d, 400, AError (fa_ErrorDescription a))
                   else (case user_endpoint (fa_AccessToken a) of
                     None \<Rightarrow> (d, 500, AError ''Failed to fetch user info'')
                   | Some (_, None) \<Rightarrow> (d, 500, AError ''Failed to parse user info'')
                   | Some (_, Some f) \<Rightarrow>
                       (case login_user fails f d of
                          (d1, Inl e) \<Rightarrow> (d1, 500, e)
                        | (d1, Inr u) \<Rightarrow>
                            (case generateJWT sign now u cf of
                               None \<Rightarrow> (d1, 500, AError ''Failed to generate token'')
                             | Some t \<Rightarrow> (d1, 302, ARedirect t u))))))))"

section \<open>Facts\<close>

text \<open>What is stored for a secret is what the workers take apart: \<^verbatim>\<open>createS3Client\<close> of the transfer worker
and of the ffmpeg worker reads the secret back, also one that begins with the marker itself.\<close>

lemma secret_round_trip: "secret_key (encrypt_sk sk) = sk"
  by (simp add: secret_key_def encrypt_sk_def has_prefix_def trim_prefix_def)

definition metadata_wf :: "admin_db \<Rightarrow> bool" where
  "metadata_wf d = (distinct (map tm_ID (ad_Metadata d)) \<and> (\<forall>m\<in>set (ad_Metadata d). tm_ID m < ad_NextMetadata d))"

lemma find_by_id: "distinct (map f xs) \<Longrightarrow> x \<in> set xs \<Longrightarrow> find (\<lambda>y. f y = f x) xs = Some x"
  by (induction xs) auto

lemma find_snoc_fresh: "(\<And>x. x \<in> set xs \<Longrightarrow> f x \<noteq> i) \<Longrightarrow> find (\<lambda>y. f y = i) (xs @ [z]) = (if f z = i then Some z else None)"
  by (induction xs) auto

lemma create_then_get:
  assumes "metadata_wf d" "CreateMetadata fails (Some r) d = (d', 201, AMetadata m)" "\<not> fails ''first''"
  shows "GetMetadata fails (tm_ID m) d' = (200, AMetadata m)" "metadata_wf d'" "secret_key (tm_SKEncrypted m) = mr_SK r"
proof -
  have d': "d' = d\<lparr>ad_Metadata := ad_Metadata d @ [m], ad_NextMetadata := ad_NextMetadata d + 1\<rparr>"
    and i: "tm_ID m = ad_NextMetadata d" and s: "tm_SKEncrypted m = encrypt_sk (mr_SK r)"
    using assms(2) by (auto simp: CreateMetadata_def Let_def split: if_splits)
  have "find (\<lambda>x. tm_ID x = tm_ID m) (ad_Metadata d @ [m]) = Some m"
    using assms(1) find_snoc_fresh [of "ad_Metadata d" tm_ID "tm_ID m" m] by (force simp: metadata_wf_def i)
  then show "GetMetadata fails (tm_ID m) d' = (200, AMetadata m)"
    using assms(3) by (simp add: GetMetadata_def first_metadata_def d')
  show "metadata_wf d'" using assms(1) by (fastforce simp: metadata_wf_def d' i)
  show "secret_key (tm_SKEncrypted m) = mr_SK r" by (simp add: s secret_round_trip)
qed

lemma find_member: "find P xs = Some x \<Longrightarrow> x \<in> set xs \<and> P x"
  by (induction xs) (auto split: if_splits)

lemma tm_ID_apply [simp]: "tm_ID (apply_metadata r m) = tm_ID m"
  by (simp add: apply_metadata_def)

lemma update_keeps_wf:
  assumes "metadata_wf d"
  shows "metadata_wf (fst (UpdateMetadata fails i req d))"
proof (cases "\<exists>r m. req = Some r \<and> first_metadata fails i d = Some m \<and> \<not> fails ''save''")
  case True
  then obtain r m where rm: "req = Some r" "first_metadata fails i d = Some m" "\<not> fails ''save''" by blast
  then have m: "m \<in> set (ad_Metadata d)" "tm_ID m = i"
    by (auto simp: first_metadata_def dest: find_member split: if_splits)
  have "map tm_ID (map (\<lambda>x. if tm_ID x = i then apply_metadata r m else x) (ad_Metadata d)) = map tm_ID (ad_Metadata d)"
    using m(2) by simp
  then have "distinct (map tm_ID (map (\<lambda>x. if tm_ID x = i then apply_metadata r m else x) (ad_Metadata d)))"
    using assms unfolding metadata_wf_def by metis
  then show ?thesis using assms rm m by (auto simp: UpdateMetadata_def metadata_wf_def Let_def simp del: map_map)
next
  case False
  then show ?thesis using assms by (auto simp: UpdateMetadata_def Let_def split: option.split)
qed

lemma delete_keeps_wf: "metadata_wf d \<Longrightarrow> metadata_wf (fst (DeleteMetadata fails i d))"
  by (auto simp: DeleteMetadata_def metadata_wf_def distinct_map_filter split: option.split)

lemma empty_update_changes_nothing:
  assumes "metadata_wf d"
  shows "fst (UpdateMetadata fails i (Some \<lparr>mr_ClientName = [], mr_Endpoint = [], mr_AK = [], mr_SK = []\<rparr>) d) = d"
proof -
  have "map (\<lambda>x. if tm_ID x = i then m else x) (ad_Metadata d) = ad_Metadata d"
    if "find (\<lambda>m. tm_ID m = i) (ad_Metadata d) = Some m" for m
  proof (rule map_idI)
    fix x assume "x \<in> set (ad_Metadata d)"
    then show "(if tm_ID x = i then m else x) = x"
      using find_by_id [of tm_ID "ad_Metadata d" x] that assms by (auto simp: metadata_wf_def)
  qed
  then show ?thesis
    by (auto simp: UpdateMetadata_def first_metadata_def apply_metadata_def Let_def split: option.split)
qed

text \<open>A machine without an enabled cookie is answered as not found, and only then.\<close>

lemma cookie_config_found:
  assumes "machine \<noteq> []" "\<not> fails ''find''"
  shows "fst (GetWorkerCookieConfig fails machine d) = 200 \<longleftrightarrow>
    (\<exists>b. snd (ListWorkerMachineNames fails d) = ANames b \<and> machine \<in> set b)"
  using assms by (auto simp: GetWorkerCookieConfig_def ListWorkerMachineNames_def Let_def filter_empty_conv)

text \<open>A configuration that is named and missing is an error, whatever lies in the default places.\<close>

lemma named_config_missing: "env \<noteq> [] \<Longrightarrow> \<not> there env \<Longrightarrow> LoadConfig there read env = None"
  by (simp add: LoadConfig_def find_config_def)

text \<open>Without a passcode in the environment the one in the source opens the door.\<close>

lemma default_passcode:
  "PasscodeLogin sign now [] (Some cf) (Some ''jaime123'') =
     (case generateJWT sign now passcode_user cf of
        None \<Rightarrow> (500, AError ''Failed to generate token'')
      | Some t \<Rightarrow> (200, AToken t 1 ''Passcode Admin'' ''passcode@login.local''))"
  by (simp add: PasscodeLogin_def required_passcode_def passcode_user_def split: option.split)

text \<open>A session of the passcode is one of the user with the identifier 1, whoever that is.\<close>

lemma passcode_is_user_one:
  assumes "us_ID u = 1"
  shows "generateJWT sign now passcode_user cf = generateJWT sign now u cf"
  using assms by (simp add: generateJWT_def passcode_user_def)

definition users_wf :: "admin_db \<Rightarrow> bool" where
  "users_wf d = (distinct (map us_ID (ad_Users d)) \<and> distinct (map us_FeishuOpenID (ad_Users d))
     \<and> (\<forall>u\<in>set (ad_Users d). us_ID u < ad_NextUser d))"

text \<open>Every login of one Feishu account is the same user: the first one creates the row, the later ones find it.\<close>

lemma login_user_keeps_wf:
  assumes "users_wf d" "login_user fails f d = (d', r)"
  shows "users_wf d'"
proof (cases "find (\<lambda>u. us_FeishuOpenID u = fu_Sub f) (ad_Users d)")
  case None
  then have "fu_Sub f \<notin> us_FeishuOpenID ` set (ad_Users d)" by (auto simp: find_None_iff)
  then show ?thesis
    using assms None by (fastforce simp: login_user_def users_wf_def Let_def split: if_splits)
next
  case (Some u0)
  let ?g = "\<lambda>x. if us_ID x = us_ID u0 then u0\<lparr>us_Name := fu_Name f, us_AvatarURL := feishu_avatar f\<rparr> else x"
  have u0: "u0 \<in> set (ad_Users d)" using Some by (metis find_Some_iff nth_mem)
  have same: "x = u0" if "x \<in> set (ad_Users d)" "us_ID x = us_ID u0" for x
    using that u0 assms(1) by (auto simp: users_wf_def distinct_map dest: inj_onD)
  have "map us_ID (map ?g (ad_Users d)) = map us_ID (ad_Users d)"
    "map us_FeishuOpenID (map ?g (ad_Users d)) = map us_FeishuOpenID (ad_Users d)"
    using same by auto
  then show ?thesis
    using assms Some u0 unfolding login_user_def users_wf_def Let_def
    by (auto split: if_splits simp del: map_map)
qed

lemma login_user_same_account:
  assumes "users_wf d" "login_user fails f d = (d1, Inr u)" "fu_Sub g = fu_Sub f" "\<not> fails ''first''"
  shows "\<exists>d2 v. login_user fails g d1 = (d2, Inr v) \<and> us_ID v = us_ID u"
proof -
  have u: "\<exists>x\<in>set (ad_Users d1). us_FeishuOpenID x = fu_Sub f \<and> us_ID x = us_ID u"
  proof (cases "find (\<lambda>u. us_FeishuOpenID u = fu_Sub f) (ad_Users d)")
    case None
    then show ?thesis using assms(2) by (auto simp: login_user_def Let_def split: if_splits)
  next
    case (Some u0)
    then have "u0 \<in> set (ad_Users d)" "us_FeishuOpenID u0 = fu_Sub f"
      by (auto dest: find_member)
    then show ?thesis using assms(2) Some
      by (cases "fails ''save''"; intro bexI [of _ "if fails ''save'' then u0 else u"])
        (auto simp: login_user_def Let_def split: if_splits)
  qed
  then obtain x where x: "x \<in> set (ad_Users d1)" "us_FeishuOpenID x = fu_Sub f" "us_ID x = us_ID u" by blast
  have "users_wf d1" using login_user_keeps_wf [OF assms(1,2)] .
  then have "find (\<lambda>y. us_FeishuOpenID y = us_FeishuOpenID x) (ad_Users d1) = Some x"
    using find_by_id [of us_FeishuOpenID "ad_Users d1" x] x(1) by (simp add: users_wf_def)
  then show ?thesis using x assms(3,4) by (simp add: login_user_def Let_def)
qed

text \<open>The status of the second answer is not looked at: an error in JSON has no open id, and is logged in as the
user whose open id is empty.\<close>

lemma error_answer_logs_in:
  assumes "token_endpoint cf code = Some (200, text, Some a)" "fa_Error a = []" "code \<noteq> []"
    and "user_endpoint (fa_AccessToken a) =
      Some (401, Some \<lparr>fu_Sub = [], fu_Name = [], fu_Picture = [], fu_Email = [], fu_AvatarURL = []\<rparr>)"
    and "\<And>s. \<not> fails s" "\<And>k c. sign k c = Some t"
  shows "\<exists>u. snd (FeishuCallback fails sign now (Some cf) code token_endpoint user_endpoint d) = (302, ARedirect t u)
    \<and> us_FeishuOpenID u = []"
  using assms by (auto simp: FeishuCallback_def login_user_def generateJWT_def Let_def find_Some_iff split: option.split)

end
