(* ===== verification/Listings.thy ===== *)
theory Listings
  imports FfmpegJobs Admin
begin

text \<open>
  The answers that only read: the pages of the four job lists (\<^verbatim>\<open>ListTransferJobs\<close>, \<^verbatim>\<open>ListYoutubeJobs\<close>,
  \<^verbatim>\<open>ListFfmpegJobs\<close>, \<^verbatim>\<open>ListPipelineJobs\<close>), the transfer statistics (\<^verbatim>\<open>GetTransferStats\<close>), the export of
  tasks as columns (\<^verbatim>\<open>models/schema_helper.go\<close>) and the treatment of the database address in
  \<^verbatim>\<open>database/postgres.go\<close>. The order of rows that were created at the same time is the database's; \<open>ord\<close>
  stands for the order in which it returns them.
\<close>

section \<open>Pages\<close>

definition list_page :: "('a list \<Rightarrow> 'a list) \<Rightarrow> string option \<Rightarrow> string option \<Rightarrow> 'a list \<Rightarrow> 'a list" where
  "list_page ord page lim rows =
     (let p = query_int 1 page; l = query_int 10 lim in offset_limit ((p - 1) * l) l (ord rows))"

text \<open>\<open>None\<close>: the answer is an internal error. The second component is the header with the total.\<close>

definition ListTransferJobs :: "svc \<Rightarrow> (transfer_job list \<Rightarrow> transfer_job list) \<Rightarrow> string option \<Rightarrow> string option
    \<Rightarrow> world \<Rightarrow> (transfer_job list \<times> nat) option" where
  "ListTransferJobs S ord page lim w =
     (if dbErr S ''transfer_jobs.list'' 0 \<or> dbErr S ''transfer_jobs.count'' 0 then None
      else Some (list_page ord page lim (w_txJobs w), length (w_txJobs w)))"

definition ListFfmpegJobs :: "svc \<Rightarrow> (ffmpeg_job list \<Rightarrow> ffmpeg_job list) \<Rightarrow> string option \<Rightarrow> string option
    \<Rightarrow> world \<Rightarrow> (ffmpeg_job list \<times> nat) option" where
  "ListFfmpegJobs S ord page lim w =
     (if dbErr S ''ffmpeg_jobs.list'' 0 \<or> dbErr S ''ffmpeg_jobs.count'' 0 then None
      else Some (list_page ord page lim (w_ffJobs w), length (w_ffJobs w)))"

definition ListPipelineJobs :: "svc \<Rightarrow> (pipeline_job list \<Rightarrow> pipeline_job list) \<Rightarrow> string option \<Rightarrow> string option
    \<Rightarrow> world \<Rightarrow> pipeline_job list option" where
  "ListPipelineJobs S ord page lim w =
     (if dbErr S ''pipeline_jobs.list'' 0 then None else Some (list_page ord page lim (w_pipelines w)))"

text \<open>The counters of a listed YouTube job are counted anew; an error of that query is not looked at and leaves
zeros.\<close>

definition record_size :: "youtube_task_record \<Rightarrow> int" where
  "record_size r = yr_AudioSize r + yr_VideoSize r"

definition count_status :: "status \<Rightarrow> youtube_task_record list \<Rightarrow> int" where
  "count_status s rs = int (length (filter (\<lambda>r. yr_Status r = s) rs))"

definition recount :: "svc \<Rightarrow> youtube_task_record list \<Rightarrow> youtube_job \<Rightarrow> youtube_job" where
  "recount S recs j =
     (let rs = (if dbErr S ''youtube_task_records.count'' (yj_ID j) then []
                else filter (\<lambda>r. yr_JobID r = yj_ID j) recs)
      in j\<lparr>yj_TotalCount := int (length rs), yj_PendingCount := count_status ''PENDING'' rs,
           yj_RunningCount := count_status ''RUNNING'' rs, yj_SuccessCount := count_status ''COMPLETED'' rs,
           yj_FailedCount := count_status ''FAILED'' rs,
           yj_TotalSizeBytes := sum_list (map record_size rs),
           yj_SuccessSizeBytes := sum_list (map record_size (filter (\<lambda>r. yr_Status r = ''COMPLETED'') rs))\<rparr>)"

definition ListYoutubeJobs :: "svc \<Rightarrow> (youtube_job list \<Rightarrow> youtube_job list) \<Rightarrow> string option \<Rightarrow> string option
    \<Rightarrow> world \<Rightarrow> (youtube_job list \<times> nat) option" where
  "ListYoutubeJobs S ord page lim w =
     (if dbErr S ''youtube_jobs.list'' 0 \<or> dbErr S ''youtube_jobs.count'' 0 then None
      else Some (map (recount S (w_ytRecs w)) (list_page ord page lim (w_ytJobs w)), length (w_ytJobs w)))"

section \<open>Statistics of transfers\<close>

text \<open>\<^verbatim>\<open>split_part(s, '/', n)\<close> for the first and the second part.\<close>

definition split_part1 :: "string \<Rightarrow> string" where
  "split_part1 s = before CHR ''/'' s"

definition split_part2 :: "string \<Rightarrow> string" where
  "split_part2 s = before CHR ''/'' (behind CHR ''/'' s)"

definition dest_label :: "transfer_metadata list \<Rightarrow> transfer_job \<Rightarrow> string" where
  "dest_label metas j =
     (let client = (case find (\<lambda>m. tm_ID m = tj_MetadataID j) metas of
                      Some m \<Rightarrow> tm_ClientName m | None \<Rightarrow> ''meta-'' @ itoa (tj_MetadataID j));
          d = trim_slashes (tj_DstDir j); p1 = split_part1 d; p2 = split_part2 d
      in client @ '' | '' @ (if p2 \<noteq> [] then p1 @ ''/'' @ p2 else if p1 \<noteq> [] then p1 else ''-''))"

record stats_item =
  si_Label :: string
  si_Count :: int
  si_Size :: int

text \<open>\<^verbatim>\<open>GROUP BY\<close>: one row for each label. The counters of a row are never \<^verbatim>\<open>NULL\<close>.\<close>

definition group_items :: "(transfer_job \<Rightarrow> string) \<Rightarrow> transfer_job list \<Rightarrow> stats_item list" where
  "group_items lab js =
     map (\<lambda>l. let g = filter (\<lambda>j. lab j = l) js
               in \<lparr>si_Label = l, si_Count = sum_list (map tj_SuccessCount g),
                   si_Size = sum_list (map tj_SuccessSizeBytes g)\<rparr>)
       (remdups (map lab js))"

definition dest_items :: "transfer_metadata list \<Rightarrow> transfer_job list \<Rightarrow> stats_item list" where
  "dest_items metas js = take 10 (sort_key (\<lambda>i. - si_Size i) (group_items (dest_label metas) js))"

text \<open>The sums by day of the last fourteen days, in a database that reckons in UTC. A day is the number of days
since the zero time, where the query writes its date.\<close>

record day_item =
  di_Day :: int
  di_Count :: int
  di_Size :: int

definition day_of :: "time \<Rightarrow> int" where
  "day_of t = t div (86400 * 10 ^ 9)"

definition recent_jobs :: "time \<Rightarrow> transfer_job list \<Rightarrow> transfer_job list" where
  "recent_jobs now js = filter (\<lambda>j. tj_CreatedAt j \<ge> now - 14 * 86400 * 10 ^ 9) js"

definition daily_items :: "time \<Rightarrow> transfer_job list \<Rightarrow> day_item list" where
  "daily_items now js =
     (let rs = recent_jobs now js
      in map (\<lambda>d. let g = filter (\<lambda>j. day_of (tj_CreatedAt j) = d) rs
                   in \<lparr>di_Day = d, di_Count = sum_list (map tj_SuccessCount g),
                       di_Size = sum_list (map tj_SuccessSizeBytes g)\<rparr>)
           (sort (remdups (map (\<lambda>j. day_of (tj_CreatedAt j)) rs))))"

definition GetTransferStats :: "svc \<Rightarrow> transfer_metadata list \<Rightarrow> world \<Rightarrow> (stats_item list \<times> day_item list) option" where
  "GetTransferStats S metas w =
     (if dbErr S ''transfer_jobs.stats_dest'' 0 \<or> dbErr S ''transfer_jobs.stats_daily'' 0 then None
      else Some (dest_items metas (w_txJobs w), daily_items (w_now w) (w_txJobs w)))"

section \<open>Queue statistics by job\<close>

text \<open>The rows of the queues, regrouped for the answer of \<^verbatim>\<open>GetYoutubeQueueStats\<close>. The order of the jobs is that
of a Go map; here they come in the order in which the queues name them.\<close>

record job_queues =
  jq_Job :: int
  jq_Download :: nat
  jq_Metadata :: nat
  jq_Total :: nat

definition stat_count :: "int \<Rightarrow> queue_stat \<Rightarrow> nat" where
  "stat_count j q = sum_list (map snd (filter (\<lambda>p. fst p = j) (qs_Jobs q)))"

definition job_queue_totals :: "queue_stat list \<Rightarrow> job_queues list" where
  "job_queue_totals qs =
     map (\<lambda>j. let d = sum_list (map (stat_count j) (filter qs_Download qs));
                   m = sum_list (map (stat_count j) (filter (\<lambda>q. \<not> qs_Download q) qs))
               in \<lparr>jq_Job = j, jq_Download = d, jq_Metadata = m, jq_Total = d + m\<rparr>)
       (remdups (concat (map (\<lambda>q. map fst (qs_Jobs q)) qs)))"

section \<open>Export\<close>

text \<open>A column of a time is empty for the zero time and holds microseconds of the Unix epoch otherwise.\<close>

definition unix_epoch :: time where
  "unix_epoch = 62135596800 * 10 ^ 9"

definition appendTime :: "time \<Rightarrow> int option" where
  "appendTime t = (if t = 0 then None else Some ((t - unix_epoch) div 1000))"

record arrow_row =
  ar_ID :: int
  ar_JobID :: int
  ar_Strings :: "string list"
  ar_IsDownloadFail :: bool
  ar_Times :: "int option list"

definition ToArrowRecord :: "youtube_task list \<Rightarrow> arrow_row list" where
  "ToArrowRecord ts =
     map (\<lambda>t. \<lparr>ar_ID = yt_ID t, ar_JobID = yt_JobID t,
                ar_Strings = [yt_URL t, yt_AudioURL t, yt_VideoURL t, yt_Status t, yt_Title t, yt_VideoID t,
                              yt_ErrorMessage t, yt_WorkerID t],
                ar_IsDownloadFail = yt_IsDownloadFail t,
                ar_Times = map appendTime [yt_StartedAt t, yt_CompletedAt t, yt_CreatedAt t, yt_UpdatedAt t]\<rparr>) ts"

section \<open>The database address\<close>

fun split_at :: "char \<Rightarrow> string \<Rightarrow> string list" where
  "split_at c [] = [[]]"
| "split_at c (d # s) =
     (if d = c then [] # split_at c s
      else (case split_at c s of p # ps \<Rightarrow> (d # p) # ps | [] \<Rightarrow> [[d]]))"

text \<open>What \<^verbatim>\<open>InitPostgres\<close> writes to the log, and what it connects with.\<close>

definition dsn_for_log :: "string \<Rightarrow> string" where
  "dsn_for_log dsn =
     (case split_at CHR ''@'' dsn of
        [up, rest] \<Rightarrow> (case split_at CHR '':'' up of [u, p] \<Rightarrow> u @ '':***@'' @ rest | _ \<Rightarrow> dsn)
      | _ \<Rightarrow> dsn)"

definition connect_dsn :: "string \<Rightarrow> string" where
  "connect_dsn dsn =
     (if has_substring ''connect_timeout'' dsn then dsn
      else dsn @ (if has_substring ''?'' dsn then ''&'' else ''?'') @ ''connect_timeout=10'')"

section \<open>Facts\<close>

text \<open>In one order of the rows the pages follow each other: the first \<open>n\<close> of them hold the first \<open>n * l\<close> rows,
each once.\<close>

lemma pages_follow:
  assumes "0 < l"
  shows "concat (map (\<lambda>p. offset_limit ((int p - 1) * int l) (int l) xs) [1..<Suc n]) = take (n * l) xs"
proof (induction n)
  case (Suc n)
  have "offset_limit (int n * int l) (int l) xs = take l (drop (n * l) xs)"
    by (simp add: offset_limit_def Let_def flip: of_nat_mult)
  then show ?case using Suc by (simp add: take_add add.commute [of l])
qed simp

lemma page_zero_is_page_one:
  assumes "0 \<le> l"
  shows "offset_limit ((0 - 1) * l) l xs = offset_limit ((1 - 1) * l) l xs"
  using assms by (simp add: offset_limit_def)

text \<open>The recounted states never exceed the total; a task whose metadata is fetched is in the total alone.\<close>

lemma count_status_split:
  "distinct ss \<Longrightarrow> sum_list (map (\<lambda>s. count_status s rs) ss) = int (length (filter (\<lambda>r. yr_Status r \<in> set ss) rs))"
proof (induction ss)
  case (Cons s ss)
  have "length (filter (\<lambda>r. yr_Status r \<in> set (s # ss)) rs) =
      length (filter (\<lambda>r. yr_Status r = s) rs) + length (filter (\<lambda>r. yr_Status r \<in> set ss) rs)"
    using Cons.prems by (induction rs) auto
  then show ?case using Cons by (simp add: count_status_def)
qed simp

lemma recount_bounded:
  "let j' = recount S recs j in
     yj_PendingCount j' + yj_RunningCount j' + yj_SuccessCount j' + yj_FailedCount j' \<le> yj_TotalCount j'"
proof -
  have "count_status ''PENDING'' rs + count_status ''RUNNING'' rs + count_status ''COMPLETED'' rs
      + count_status ''FAILED'' rs \<le> int (length rs)" for rs
    using count_status_split [of "[''PENDING'', ''RUNNING'', ''COMPLETED'', ''FAILED'']" rs]
      length_filter_le [of "\<lambda>r. yr_Status r \<in> set [''PENDING'', ''RUNNING'', ''COMPLETED'', ''FAILED'']" rs]
    by (simp add: add.assoc)
  then show ?thesis by (simp add: recount_def Let_def)
qed

lemma recount_misses_fetched:
  assumes "\<not> dbErr S ''youtube_task_records.count'' (yj_ID j)"
  shows "yj_TotalCount (recount S [YoutubeTaskRecord0\<lparr>yr_JobID := yj_ID j, yr_Status := ''METADATA_FETCHED''\<rparr>] j) = 1"
    "yj_PendingCount (recount S [YoutubeTaskRecord0\<lparr>yr_JobID := yj_ID j, yr_Status := ''METADATA_FETCHED''\<rparr>] j) = 0"
    "yj_RunningCount (recount S [YoutubeTaskRecord0\<lparr>yr_JobID := yj_ID j, yr_Status := ''METADATA_FETCHED''\<rparr>] j) = 0"
  using assms by (simp_all add: recount_def count_status_def YoutubeTaskRecord0_def Let_def)

lemma sum_pick:
  "distinct ls \<Longrightarrow> sum_list (map (\<lambda>l. if x = l then c else (0 :: int)) ls) = (if x \<in> set ls then c else 0)"
  by (induction ls) auto

lemma sum_filter_remdups:
  fixes f :: "'a \<Rightarrow> int"
  assumes "distinct ls" "lab ` set js \<subseteq> set ls"
  shows "sum_list (map (\<lambda>l. sum_list (map f (filter (\<lambda>j. lab j = l) js))) ls) = sum_list (map f js)"
  using assms(2)
proof (induction js)
  case (Cons j js)
  have "sum_list (map (\<lambda>l. if lab j = l then f j else 0) ls) = f j"
    using sum_pick [OF assms(1)] Cons.prems by simp
  moreover have "sum_list (map f (filter (\<lambda>j. lab j = l) (j # js))) =
      (if lab j = l then f j else 0) + sum_list (map f (filter (\<lambda>j. lab j = l) js))" for l
    by simp
  ultimately show ?case using Cons by (simp add: sum_list_addf del: filter.simps)
qed simp

text \<open>Every job is counted under one label: the groups add up to all of them.\<close>

lemma group_totals:
  "sum_list (map si_Count (group_items lab js)) = sum_list (map tj_SuccessCount js)"
  "sum_list (map si_Size (group_items lab js)) = sum_list (map tj_SuccessSizeBytes js)"
  using sum_filter_remdups [of "remdups (map lab js)" lab js tj_SuccessCount]
    sum_filter_remdups [of "remdups (map lab js)" lab js tj_SuccessSizeBytes]
  by (simp_all add: group_items_def comp_def Let_def)

lemma daily_totals:
  "sum_list (map di_Count (daily_items now js)) = sum_list (map tj_SuccessCount (recent_jobs now js))"
  "sum_list (map di_Size (daily_items now js)) = sum_list (map tj_SuccessSizeBytes (recent_jobs now js))"
  using sum_filter_remdups [of "sort (remdups (map (\<lambda>j. day_of (tj_CreatedAt j)) (recent_jobs now js)))"
      "\<lambda>j. day_of (tj_CreatedAt j)" "recent_jobs now js"]
  by (simp_all add: daily_items_def comp_def Let_def)

text \<open>At most fifteen days are reported.\<close>

lemma daily_items_bounded:
  assumes "\<And>j. j \<in> set js \<Longrightarrow> tj_CreatedAt j \<le> now"
  shows "length (daily_items now js) \<le> 15"
proof -
  let ?ds = "remdups (map (\<lambda>j. day_of (tj_CreatedAt j)) (recent_jobs now js))"
  have "day_of (tj_CreatedAt j) \<in> {day_of now - 14..day_of now}" if "j \<in> set (recent_jobs now js)" for j
    using that assms [of j] by (auto simp: recent_jobs_def day_of_def)
  then have "set ?ds \<subseteq> {day_of now - 14..day_of now}" by auto
  then have "card (set ?ds) \<le> card {day_of now - 14..day_of now}" by (intro card_mono) auto
  moreover have "length (daily_items now js) = card (set ?ds)"
    by (simp add: daily_items_def Let_def length_remdups_card_conv)
  ultimately show ?thesis by simp
qed

lemma stat_count_all:
  assumes "distinct js" "fst ` set (qs_Jobs q) \<subseteq> set js"
  shows "sum_list (map (\<lambda>j. stat_count j q) js) = sum_list (map snd (qs_Jobs q))"
proof -
  have "int (sum_list (map (\<lambda>j. stat_count j q) js)) = int (sum_list (map snd (qs_Jobs q)))"
    using sum_filter_remdups [OF assms, of "\<lambda>p. int (snd p)"]
    by (simp add: stat_count_def comp_def flip: sum_list_of_nat)
  then show ?thesis by simp
qed

lemma sum_split_filter:
  fixes f :: "'a \<Rightarrow> nat"
  shows "sum_list (map f (filter P xs)) + sum_list (map f (filter (\<lambda>x. \<not> P x) xs)) = sum_list (map f xs)"
  by (induction xs) auto

text \<open>No queued task is lost in the regrouping: the totals of the jobs add up to what the queues hold.\<close>

lemma job_queue_totals_complete:
  "sum_list (map jq_Total (job_queue_totals qs)) = sum_list (map (\<lambda>q. sum_list (map snd (qs_Jobs q))) qs)"
proof -
  define js where "js = remdups (concat (map (\<lambda>q. map fst (qs_Jobs q)) qs))"
  have "sum_list (map jq_Total (job_queue_totals qs)) = sum_list (map (\<lambda>j. sum_list (map (stat_count j) qs)) js)"
    by (simp add: job_queue_totals_def js_def comp_def Let_def sum_split_filter)
  also have "\<dots> = sum_list (map (\<lambda>q. sum_list (map (\<lambda>j. stat_count j q) js)) qs)"
    by (induction js) (simp_all add: sum_list_addf)
  also have "\<dots> = sum_list (map (\<lambda>q. sum_list (map snd (qs_Jobs q))) qs)"
  proof (rule arg_cong [where f = sum_list], rule map_cong [OF refl])
    fix q assume "q \<in> set qs"
    then show "sum_list (map (\<lambda>j. stat_count j q) js) = sum_list (map snd (qs_Jobs q))"
      by (intro stat_count_all) (auto simp: js_def)
  qed
  finally show ?thesis .
qed

lemma label_of_root:
  "tj_DstDir j = ''/'' \<Longrightarrow> dest_label [] j = ''meta-'' @ itoa (tj_MetadataID j) @ '' | -''"
  by (simp add: dest_label_def trim_slashes_def trim_by_def split_part1_def split_part2_def before_def behind_def)

text \<open>The export has no columns for the sizes.\<close>

lemma export_drops_sizes:
  "ToArrowRecord [t\<lparr>yt_AudioSize := a, yt_VideoSize := v\<rparr>] = ToArrowRecord [t]"
  by (simp add: ToArrowRecord_def)

text \<open>The colon of the scheme is one too many for the mask: the password of an address with a scheme is logged.\<close>

lemma password_logged:
  "dsn_for_log ''postgres://admin:secret@db/main'' = ''postgres://admin:secret@db/main''"
  by code_simp

lemma password_masked_without_scheme: "dsn_for_log ''admin:secret@db/main'' = ''admin:***@db/main''"
  by code_simp

text \<open>An address of keywords gets a question mark behind its last value.\<close>

lemma keyword_dsn_broken:
  "connect_dsn ''host=db user=u dbname=main'' = ''host=db user=u dbname=main?connect_timeout=10''"
  by code_simp

end
