(* ===== verification/WorkerCalls.thy ===== *)
theory WorkerCalls
  imports Admin FfmpegWorkers Models
begin

text \<open>
  How the workers call the API server and what they make of its answers: the error handling that every call has,
  the caches of job descriptions with their life times, the choice of jobs in the ffmpeg scanner, and the start of
  the downloader (machine name, configuration file, bucket). The requests themselves are in the theory of the
  routes.
\<close>

section \<open>Answers\<close>

text \<open>No answer, or a status and what the decoder makes of the body.\<close>

datatype 'a answer = NoAnswer | Answer nat "'a option"

definition decoded :: "'a answer \<Rightarrow> string + 'a" where
  "decoded a =
     (case a of
        NoAnswer \<Rightarrow> Inl ''no answer''
      | Answer st v \<Rightarrow>
          if st \<noteq> 200 then Inl (''status '' @ itoa (int st))
          else (case v of None \<Rightarrow> Inl ''decode'' | Some x \<Rightarrow> Inr x))"

text \<open>Calls whose body is not read.\<close>

definition accepted :: "'a answer \<Rightarrow> string option" where
  "accepted a =
     (case a of
        NoAnswer \<Rightarrow> Some ''no answer''
      | Answer st _ \<Rightarrow> if st \<noteq> 200 then Some (''status '' @ itoa (int st)) else None)"

definition tx_acquireTasks :: "'a list answer \<Rightarrow> string + 'a list" where
  "tx_acquireTasks a = decoded a"

definition dl_acquireTasks :: "'a list answer \<Rightarrow> string + 'a list" where
  "dl_acquireTasks a = decoded a"

definition getFailedTasksForRetry :: "'a list answer \<Rightarrow> string + 'a list" where
  "getFailedTasksForRetry a = decoded a"

definition resetTaskToPending :: "'a answer \<Rightarrow> string option" where
  "resetTaskToPending a = accepted a"

definition scanner_getPendingJobs :: "'a list answer \<Rightarrow> string + 'a list" where
  "scanner_getPendingJobs a = decoded a"

definition scanner_getJob :: "'a answer \<Rightarrow> string + 'a" where
  "scanner_getJob a = decoded a"

definition sendBatch :: "'a answer \<Rightarrow> string option" where
  "sendBatch a = accepted a"

definition scanner_updateJobStatus :: "'a answer \<Rightarrow> string option" where
  "scanner_updateJobStatus a =
     (case a of
        NoAnswer \<Rightarrow> Some ''no answer''
      | Answer st _ \<Rightarrow> if st \<noteq> 200 then Some (update_error (int st)) else None)"

section \<open>Jobs for the ffmpeg scanner\<close>

text \<open>A pending job goes to the scanner when its endpoint names the zone and the provider and is allowed; every
other one is reported back as pending. A job is its identifier and its endpoint.\<close>

definition takes_job :: "string \<Rightarrow> string \<Rightarrow> (string \<Rightarrow> bool) \<Rightarrow> int \<times> string \<Rightarrow> bool" where
  "takes_job zone provider allowed j = (has_substring zone (snd j) \<and> has_substring provider (snd j) \<and> allowed (snd j))"

definition ff_getPendingJobs :: "string \<Rightarrow> string \<Rightarrow> (string \<Rightarrow> bool) \<Rightarrow> (int \<times> string) list answer
    \<Rightarrow> string + ((int \<times> string) list \<times> int list)" where
  "ff_getPendingJobs zone provider allowed a =
     (case decoded a of
        Inl e \<Rightarrow> Inl e
      | Inr js \<Rightarrow> Inr (filter (takes_job zone provider allowed) js,
                      map fst (filter (\<lambda>j. \<not> takes_job zone provider allowed j) js)))"

section \<open>Cached job descriptions\<close>

type_synonym 'a job_cache = "int \<rightharpoonup> 'a \<times> time"

text \<open>
  \<^verbatim>\<open>getJobInfo\<close> of the transfer worker looks into the cache at one instant, asks the server, and stamps the
  entry with the time it has when the answer is decoded. Several tasks call it at once; \<open>getJobInfo\<close> is one
  call with the instants of its look (\<open>checked\<close>) and of its stamp (\<open>stamped\<close>).
\<close>

definition cached_job :: "time \<Rightarrow> int \<Rightarrow> 'a job_cache \<Rightarrow> 'a option" where
  "cached_job checked j cache =
     (case cache j of
        Some (v, expiry) \<Rightarrow> if checked < expiry then Some v else None
      | None \<Rightarrow> None)"

definition store_job :: "int \<Rightarrow> time \<Rightarrow> int \<Rightarrow> 'a \<Rightarrow> 'a job_cache \<Rightarrow> 'a job_cache" where
  "store_job ttl stamped j v cache = cache(j \<mapsto> (v, stamped + ttl))"

definition getJobInfo :: "int \<Rightarrow> time \<Rightarrow> time \<Rightarrow> int \<Rightarrow> 'a answer \<Rightarrow> 'a job_cache
    \<Rightarrow> 'a job_cache \<times> (string + 'a)" where
  "getJobInfo ttl checked stamped j a cache =
     (case cached_job checked j cache of
        Some v \<Rightarrow> (cache, Inr v)
      | None \<Rightarrow> (case decoded a of
                  Inl e \<Rightarrow> (cache, Inl e)
                | Inr v \<Rightarrow> (store_job ttl stamped j v cache, Inr v)))"

definition transfer_ttl :: int where "transfer_ttl = 60 * 10 ^ 9"

text \<open>
  The ffmpeg worker keeps the descriptions and their times in two maps: an entry without a time counts as
  missing. A call alone; what becomes of the two maps when calls overlap is left out.
\<close>

definition ffmpeg_ttl :: int where "ffmpeg_ttl = 300 * 10 ^ 9"

definition ff_getJobInfo :: "time \<Rightarrow> time \<Rightarrow> int \<Rightarrow> 'a answer \<Rightarrow> (int \<rightharpoonup> 'a) \<times> (int \<rightharpoonup> time)
    \<Rightarrow> ((int \<rightharpoonup> 'a) \<times> (int \<rightharpoonup> time)) \<times> (string + 'a)" where
  "ff_getJobInfo checked stamped j a caches =
     (case caches of (jobs, expiries) \<Rightarrow>
        let fetch = (case decoded a of
              Inl e \<Rightarrow> ((jobs, expiries), Inl e)
            | Inr v \<Rightarrow> ((jobs(j \<mapsto> v), expiries(j \<mapsto> stamped + ffmpeg_ttl)), Inr v))
        in case (jobs j, expiries j) of
             (Some v, Some expiry) \<Rightarrow> if checked < expiry then ((jobs, expiries), Inr v) else fetch
           | _ \<Rightarrow> fetch)"

text \<open>\<^verbatim>\<open>getJobInfo\<close> of the downloader: an entry stays.\<close>

definition dl_getJobInfo :: "int \<Rightarrow> 'a answer \<Rightarrow> (int \<rightharpoonup> 'a) \<Rightarrow> (int \<rightharpoonup> 'a) \<times> (string + 'a)" where
  "dl_getJobInfo j a cache =
     (case cache j of
        Some v \<Rightarrow> (cache, Inr v)
      | None \<Rightarrow> (case decoded a of
                  Inl e \<Rightarrow> (cache, Inl (case a of Answer st _ \<Rightarrow> if st \<noteq> 200 then ''job not found'' else e | NoAnswer \<Rightarrow> e))
                | Inr v \<Rightarrow> (cache(j \<mapsto> v), Inr v)))"

section \<open>Start of the downloader\<close>

definition getMachineName :: "string \<Rightarrow> string \<Rightarrow> string option \<Rightarrow> string" where
  "getMachineName node machine host =
     (if node \<noteq> [] then node else if machine \<noteq> [] then machine else (case host of None \<Rightarrow> ''unknown'' | Some h \<Rightarrow> h))"

definition dl_config_paths :: "string list" where
  "dl_config_paths = [''../../config_back_local.yaml'', ''../../config.yaml'', ''../config_back_local.yaml'',
     ''../config.yaml'', ''config_back_local.yaml'', ''config.yaml'']"

definition dl_loadConfig :: "(string \<Rightarrow> bool) \<Rightarrow> string \<Rightarrow> string option" where
  "dl_loadConfig there env = find_config dl_config_paths there env"

text \<open>\<^verbatim>\<open>initS3\<close>: an endpoint that is no URL is a nil pointer, one without a path ends the program.\<close>

datatype init_result = NilPointer | Fatal | Ready string string

definition dl_initS3 :: "string \<Rightarrow> init_result" where
  "dl_initS3 endpoint =
     (case parse_url endpoint of
        None \<Rightarrow> NilPointer
      | Some u \<Rightarrow>
          (let b = trim_slashes (ur_Path u)
           in if b = [] then Fatal else Ready (ur_Scheme u @ ''://'' @ ur_Host u) b))"

section \<open>Facts\<close>

lemma ff_jobs_partitioned:
  assumes "ff_getPendingJobs zone provider allowed (Answer 200 (Some js)) = Inr (mine, back)" "distinct (map fst js)"
  shows "set (map fst mine) \<union> set back = set (map fst js)" "set (map fst mine) \<inter> set back = {}"
proof -
  have mb: "mine = filter (takes_job zone provider allowed) js"
    "back = map fst (filter (\<lambda>j. \<not> takes_job zone provider allowed j) js)"
    using assms(1) by (simp_all add: ff_getPendingJobs_def decoded_def)
  have "{x \<in> set js. takes_job zone provider allowed x} \<union> {x \<in> set js. \<not> takes_job zone provider allowed x} = set js"
    by blast
  then show "set (map fst mine) \<union> set back = set (map fst js)"
    by (simp add: mb flip: image_Un)
  have "inj_on fst (set js)" using assms(2) by (simp add: distinct_map)
  then show "set (map fst mine) \<inter> set back = {}" unfolding mb by (auto dest: inj_onD)
qed

text \<open>
  Calls of a worker interleaved. \<open>backend t j\<close> is the description of job \<open>j\<close> at the time \<open>t\<close>. The state is the
  time, the cache, and the answers that have been given and not yet stored, each with the instant at which the
  server read the job. An answer is stamped at most \<open>latency\<close> after that; it may be stored later, after other
  calls, or never.
\<close>

type_synonym 'a cache_state = "time \<times> 'a job_cache \<times> (int \<times> 'a \<times> time) set"

inductive cache_run :: "(time \<Rightarrow> int \<Rightarrow> 'a) \<Rightarrow> int \<Rightarrow> int \<Rightarrow> 'a cache_state \<Rightarrow> bool"
  for backend ttl latency where
  Started: "cache_run backend ttl latency (t, Map.empty, {})"
| Answered: "cache_run backend ttl latency (t, c, as) \<Longrightarrow> t \<le> s
    \<Longrightarrow> cache_run backend ttl latency (s, c, insert (j, backend s j, s) as)"
| Stored: "cache_run backend ttl latency (t, c, as) \<Longrightarrow> (j, v, s) \<in> as \<Longrightarrow> s \<le> stamped
    \<Longrightarrow> stamped \<le> s + latency \<Longrightarrow> t \<le> t' \<Longrightarrow> stamped \<le> t'
    \<Longrightarrow> cache_run backend ttl latency (t', store_job ttl stamped j v c, as - {(j, v, s)})"

definition cache_ok :: "(time \<Rightarrow> int \<Rightarrow> 'a) \<Rightarrow> int \<Rightarrow> int \<Rightarrow> 'a cache_state \<Rightarrow> bool" where
  "cache_ok backend ttl latency st = (case st of (t, c, as) \<Rightarrow>
     (\<forall>(j, v, s) \<in> as. s \<le> t \<and> v = backend s j)
     \<and> (\<forall>j v e. c j = Some (v, e) \<longrightarrow> (\<exists>s\<le>t. v = backend s j \<and> e \<le> s + latency + ttl)))"

lemma cache_run_ok: "cache_run backend ttl latency st \<Longrightarrow> cache_ok backend ttl latency st"
proof (induction rule: cache_run.induct)
  case (Started t)
  then show ?case by (simp add: cache_ok_def)
next
  case (Answered t c as s j)
  show ?case
    unfolding cache_ok_def prod.case
  proof (intro conjI allI impI)
    show "\<forall>(i, u, r)\<in>insert (j, backend s j, s) as. r \<le> s \<and> u = backend r i"
      using Answered.IH Answered.hyps(2) by (auto simp: cache_ok_def)
    fix i u e
    assume "c i = Some (u, e)"
    with Answered.IH obtain r where "r \<le> t" "u = backend r i" "e \<le> r + latency + ttl"
      unfolding cache_ok_def prod.case by blast
    then show "\<exists>r. r \<le> s \<and> u = backend r i \<and> e \<le> r + latency + ttl"
      using Answered.hyps(2) by (intro exI [of _ r]) simp
  qed
next
  case (Stored t c as j v s stamped t')
  have now: "s \<le> t'" "v = backend s j" using Stored by (auto simp: cache_ok_def)
  show ?case
    unfolding cache_ok_def prod.case
  proof (intro conjI allI impI)
    show "\<forall>(i, u, r)\<in>as - {(j, v, s)}. r \<le> t' \<and> u = backend r i"
      using Stored by (fastforce simp: cache_ok_def)
    fix i u e
    assume e: "store_job ttl stamped j v c i = Some (u, e)"
    show "\<exists>r\<le>t'. u = backend r i \<and> e \<le> r + latency + ttl"
    proof (cases "i = j")
      case True
      with e Stored.hyps(4) now show ?thesis by (auto simp: store_job_def intro!: exI [of _ s])
    next
      case False
      with e have "c i = Some (u, e)" by (simp add: store_job_def)
      with Stored.IH obtain r where "r \<le> t" "u = backend r i" "e \<le> r + latency + ttl"
        unfolding cache_ok_def prod.case by blast
      then show ?thesis using Stored.hyps(5) by (intro exI [of _ r]) simp
    qed
  qed
qed

text \<open>C40: However calls for job descriptions overlap, if an answer is stamped at most \<open>latency\<close> after the
server has read the job, the description that the transfer worker uses is one that the server read during the call
itself, or one that the job had less than the life time of the cache plus \<open>latency\<close> before the call looked.\<close>

theorem job_info_staleness:
  assumes "cache_run backend ttl latency (t, c, as)" "t \<le> checked"
    and "\<forall>u. decoded a = Inr u \<longrightarrow> (\<exists>s. checked \<le> s \<and> s \<le> stamped \<and> u = backend s j)"
    and "snd (getJobInfo ttl checked stamped j a c) = Inr v"
  shows "\<exists>s. v = backend s j
    \<and> (checked \<le> s \<and> s \<le> stamped \<or> s \<le> checked \<and> checked < s + ttl + latency)"
proof (cases "cached_job checked j c")
  case (Some u)
  then obtain e where e: "c j = Some (u, e)" "checked < e"
    by (auto simp: cached_job_def split: option.splits if_splits)
  then obtain s where "s \<le> t" "u = backend s j" "e \<le> s + latency + ttl"
    using cache_run_ok [OF assms(1)] unfolding cache_ok_def prod.case by blast
  moreover have "v = u" using assms(4) Some by (simp add: getJobInfo_def)
  ultimately show ?thesis using assms(2) e(2) by (intro exI [of _ s]) auto
next
  case None
  then have "decoded a = Inr v"
    using assms(4) by (auto simp: getJobInfo_def split: sum.splits)
  then show ?thesis using assms(3) by blast
qed

text \<open>A description that was read at 20 and stamped at 25 is used at 60000000022, with a life time of a minute.\<close>

theorem job_info_staleness_witness:
  "snd (getJobInfo transfer_ttl 60000000022 60000000022 7 (NoAnswer :: nat answer)
      (store_job transfer_ttl 25 7 (20 :: nat) Map.empty)) = Inr (20 :: nat)
   \<and> (\<exists>s. 20 = nat s \<and> (60000000022 \<le> s \<and> s \<le> 60000000022
        \<or> s \<le> 60000000022 \<and> 60000000022 < s + transfer_ttl + 5))"
proof -
  let ?b = "\<lambda>t (j :: int). nat t"
  let ?c = "store_job transfer_ttl 25 7 (20 :: nat) Map.empty"
  have "cache_run ?b transfer_ttl 5 (20, Map.empty, {(7, 20, 20)})"
    using Answered [OF Started [of ?b transfer_ttl 5 0], of 20 7] by simp
  from Stored [OF this, of 7 20 20 25 30] have run: "cache_run ?b transfer_ttl 5 (30, ?c, {})"
    by simp
  have used: "snd (getJobInfo transfer_ttl 60000000022 60000000022 7 (NoAnswer :: nat answer) ?c) = Inr 20"
    by (simp add: getJobInfo_def cached_job_def store_job_def transfer_ttl_def)
  have none: "\<forall>u. decoded (NoAnswer :: nat answer) = Inr u \<longrightarrow>
      (\<exists>s. 60000000022 \<le> s \<and> s \<le> 60000000022 \<and> u = ?b s 7)"
    by (simp add: decoded_def)
  have "30 \<le> (60000000022 :: time)" by simp
  from job_info_staleness [OF run this none used] used show ?thesis by simp
qed

text \<open>The downloader keeps the first description for as long as it runs, whatever the job becomes.\<close>

lemma downloader_never_refreshes:
  assumes "dl_getJobInfo j a c = (c', Inr v)"
  shows "dl_getJobInfo j b c' = (c', Inr v)"
  using assms by (auto simp: dl_getJobInfo_def split: option.splits sum.splits answer.splits if_splits)

lemma s3_endpoint_split:
  "dl_initS3 ''https://acc.r2.cloudflarestorage.com/media'' = Ready ''https://acc.r2.cloudflarestorage.com'' ''media''"
  by code_simp

lemma s3_endpoint_without_bucket: "dl_initS3 ''https://acc.r2.cloudflarestorage.com/'' = Fatal"
  by code_simp

end
