(* ===== verification/Spec2Isabelle.thy ===== *)
theory Spec2Isabelle
  imports CounterRuns Background ProxyPool Multipart FfmpegWorkerFacts RetryLife CopyTool ObjectScanFacts DownloadControlFacts DownloadsFacts
    FlexibleTimeFacts RedisCleanup ApiRoutes Listings WorkerCalls
begin

section \<open>A model of the task-distribution backend\<close>

text \<open>
  The repository is a system that downloads videos, copies objects between stores and joins sound and picture.
  An API server (\<^verbatim>\<open>src/backend/go-app\<close>) keeps jobs in Postgres and their tasks as documents in Redis; it hands
  tasks to workers from prefetch buffers, takes their reports, counts the states of the tasks of each job, and runs
  goroutines beside the requests that refill the buffers, write the counters to the database, look for stuck tasks and
  clean up. The workers are programs of their own: the downloader (\<^verbatim>\<open>worker_downloader\<close>), the transfer
  worker with its scanner (\<^verbatim>\<open>worker_transfer\<close>), the ffmpeg worker with its scanner (\<^verbatim>\<open>worker_ffmpeg\<close>) and the
  copy tool (\<^verbatim>\<open>src/r2-worker\<close>). They share the proxy pool (\<^verbatim>\<open>pkg/proxypool\<close>). Workers and server meet in the
  routes of the API, and the two ffmpeg programs in two Redis lists.
\<close>

subsection \<open>Theories\<close>

text \<open>
  Shared vocabulary:

  \<^item> \<^verbatim>\<open>Prelude\<close>: decimal text of integers, Go's division, tables as lists of rows; \<^verbatim>\<open>GoStrings\<close>: the functions of
    \<^verbatim>\<open>strings\<close> and \<^verbatim>\<open>path\<close>; \<^verbatim>\<open>Models\<close>: the structs of \<^verbatim>\<open>models/tasks.go\<close> and \<^verbatim>\<open>models/postgres.go\<close> as records.
  \<^item> \<^verbatim>\<open>RedisClient\<close>: the commands, their documented effect on the keyspace, pipelines; \<^verbatim>\<open>World\<close>: the state of the
    server (keyspace, tables, process-wide maps, clock, goroutines that are started and not run) and the outside
    services that a handler takes as an argument; \<^verbatim>\<open>Routing\<close>: key names, sharding, the machine a job is bound to.

  The API server. A handler is a function from the services, the request and the world to the world and the
  response:

  \<^item> \<^verbatim>\<open>StatusCounters\<close> (\<^verbatim>\<open>trackStatusChange\<close>, \<^verbatim>\<open>flushStats\<close> of \<^verbatim>\<open>handlers/task_handler.go\<close>): whatever changes are
    tracked and flushed in whatever order, the counters of a job and the buffer together are exact, and a flush
    completes only jobs without open tasks.
  \<^item> \<^verbatim>\<open>OffsetBuffer\<close> (\<^verbatim>\<open>fillJobBuffer\<close> and its two siblings): the locale \<^verbatim>\<open>offset_filler\<close> states the loop over an index
    with an offset once; the YouTube, legacy transfer and ffmpeg buffers interpret it. Every pending task below the
    offset is delivered, once.
  \<^item> \<^verbatim>\<open>YoutubeTasks\<close> with \<^verbatim>\<open>YoutubeUpdateFacts\<close>, \<^verbatim>\<open>YoutubeBufferFacts\<close>, \<^verbatim>\<open>YoutubeAcquireFacts\<close>, \<^verbatim>\<open>YoutubeAddFacts\<close>:
    inserting, updating, acquiring and deleting YouTube tasks.
  \<^item> \<^verbatim>\<open>FlexibleTime\<close>, \<^verbatim>\<open>FlexibleTimeFacts\<close>: the second reader of stored tasks, with \<^verbatim>\<open>time.Parse\<close> for its layouts;
    documents are read back as they were written. In \<^verbatim>\<open>World\<close> this reader is an arbitrary function, so that the facts on
    handlers hold for any.
  \<^item> \<^verbatim>\<open>TaskScans\<close>, \<^verbatim>\<open>TaskScanFacts\<close>, \<^verbatim>\<open>TransferRetryFacts\<close>: the retries of failed tasks and the monitor of stuck ones
    (\<^verbatim>\<open>handlers/job_handler.go\<close>); the locale \<^verbatim>\<open>task_reset\<close> has one interpretation for each kind of job.
  \<^item> \<^verbatim>\<open>TransferTasks\<close>, \<^verbatim>\<open>TransferAddFacts\<close>, \<^verbatim>\<open>TransferWork\<close>, \<^verbatim>\<open>TransferWorkFacts\<close>: adding transfer tasks without
    duplicates, refilling, the fair rounds of acquisition, reports.
  \<^item> \<^verbatim>\<open>FfmpegTasks\<close>, \<^verbatim>\<open>FfmpegJobs\<close>: ffmpeg tasks and jobs, queue statistics, pipelines (\<^verbatim>\<open>pipeline_handler.go\<close>).
  \<^item> \<^verbatim>\<open>TransferJobs\<close>, \<^verbatim>\<open>TransferJobFacts\<close>: the life of a transfer job, scan reports as a counter of idle scans, the
    completion monitor, the cleanup.
  \<^item> \<^verbatim>\<open>TaskUrls\<close>, \<^verbatim>\<open>YoutubeJobs\<close>, \<^verbatim>\<open>YoutubeRetry\<close>, \<^verbatim>\<open>YoutubeJobFacts\<close>: the reading of task lists, creation, deletion and
    retry of YouTube jobs.
  \<^item> \<^verbatim>\<open>Background\<close>: execution of the goroutines; each buffer has at most one refill under way.
  \<^item> \<^verbatim>\<open>Listings\<close>, \<^verbatim>\<open>Admin\<close>: pages, recounts and statistics; storage accounts, cookies, logins, the search for the
    configuration file; the address of the database.
  \<^item> \<^verbatim>\<open>RedisCleanup\<close>: the tool \<^verbatim>\<open>cmd/cleanup_redis\<close>, which removes what belongs to orphans and nothing else.
  \<^item> \<^verbatim>\<open>ApiRoutes\<close>: the table of \<^verbatim>\<open>routes/routes.go\<close> and the requests of all workers, which arrive at the handlers they
    are meant for.

  The workers:

  \<^item> \<^verbatim>\<open>ProxyPool\<close>: the round-robin choice, failures and probes under any interleaving of requests.
  \<^item> \<^verbatim>\<open>PartPlan\<close>, \<^verbatim>\<open>Multipart\<close>: how three programs cut an object into parts - the locale \<^verbatim>\<open>part_planner\<close>, interpreted for
    each - and how an upload ends: with every part, or aborted.
  \<^item> \<^verbatim>\<open>Endpoints\<close>: \<^verbatim>\<open>url.Parse\<close>, buckets, hosts and secrets of storage endpoints.
  \<^item> \<^verbatim>\<open>TransferWorker\<close>, \<^verbatim>\<open>TransferWorkerFacts\<close> (\<^verbatim>\<open>transfer.go\<close>): settings, time limits, slots of workers and parts, keys,
    \<^verbatim>\<open>processTask\<close>, the retry scanner; \<^verbatim>\<open>RetryLife\<close>: worker and server together, a refinement of a budget of
    attempts.
  \<^item> \<^verbatim>\<open>ObjectScan\<close>, \<^verbatim>\<open>ObjectScanFacts\<close> (\<^verbatim>\<open>scanner.go\<close>): a scan posts exactly the objects it has to find.
  \<^item> \<^verbatim>\<open>FfmpegWorkers\<close>, \<^verbatim>\<open>FfmpegWorkerFacts\<close>: the scanner, the worker and the retry manager as steps of one relation;
    every task is in one place or reported once.
  \<^item> \<^verbatim>\<open>DownloadControl\<close>, \<^verbatim>\<open>DownloadControlFacts\<close>, \<^verbatim>\<open>Downloads\<close>, \<^verbatim>\<open>DownloadsFacts\<close> (\<^verbatim>\<open>downloader.go\<close>): settings, limits, proxy
    sessions, file names, uploads and the reports of a task.
  \<^item> \<^verbatim>\<open>CopyTool\<close> (\<^verbatim>\<open>r2s3.go\<close>): the comparison of two listings in one pass against a comparison with all of the destination.
  \<^item> \<^verbatim>\<open>WorkerCalls\<close>: what the workers make of answers, and how old a cached description of a job can be.
\<close>

subsection \<open>Conventions\<close>

text \<open>
  Errors are values: \<^verbatim>\<open>None\<close>, the left side of a sum, or a status of the response. A Go map whose order matters is walked
  in an order that is an argument. Machine integers are words, or have the wrap-around written out, where they wrap
  (hashes, the acquire counter, expiry times in URLs) and are integers elsewhere. Strings are lists of ASCII characters. Path parameters
  are integers. Times are nanoseconds, zero for the zero time.

  What a service answers is a parameter. Facts that need it assume that Redis executes the commands as documented
  (\<^verbatim>\<open>redis_up\<close>), or only those it does not answer with an error (\<^verbatim>\<open>redis_sound\<close>), and that the database reports no error
  (\<^verbatim>\<open>db_up\<close>); the reference services of \<^verbatim>\<open>World\<close> satisfy both and serve the witnesses. The assumption on the router of gin is
  \<^verbatim>\<open>gin_router\<close>, satisfied by \<^verbatim>\<open>first_match\<close>.

  Fuel bounds the number of batches of a scan (\<^verbatim>\<open>scan_loop\<close>, which the goroutines of \<^verbatim>\<open>Background\<close> pass on), the rounds in
  which dates are replaced in a file name (\<^verbatim>\<open>expand_dates\<close>) and the redirections that are followed
  (\<^verbatim>\<open>getFileSizeFromURL\<close>). A scan of \<open>n\<close> members needs more batches of a thousand than \<open>n\<close> fills, and a file name more
  rounds than it has closing parentheses; the facts on retries and on file names say that the result is there with that
  fuel, and one lemma says that redirections need not end. The loop of the cleanup tool is a partial function, with
  one lemma that it returns and one that it does not where a command is refused. Loops over answers of services
  (uploads, downloads, calls) have the number of attempts of the source.
\<close>

subsection \<open>Not modelled\<close>

text \<open>
  \<^item> Expiry of Redis keys, the times of update that GORM keeps in rows, and SQL beyond the statements of the handlers. The
    schema migration and the connections of \<^verbatim>\<open>database/\<close> are calls of the drivers.
  \<^item> Metrics, logs and health endpoints: no decision depends on them but the pool utilisation, which is an argument.
  \<^item> The text of dates in \<^verbatim>\<open>GetTransferStats\<close>, where a day is a number, and the JSON text of requests and answers: handlers
    take and give the decoded values.
  \<^item> The bytes of transfers and the running of ffmpeg: their outcome is an argument.
  \<^item> Percent signs and characters outside ASCII in URLs, and the characters that \<^verbatim>\<open>url.Parse\<close> rejects in a host.
  \<^item> \<^verbatim>\<open>mock_server.go\<close>, \<^verbatim>\<open>test_proxy.go\<close>, \<^verbatim>\<open>test_proxy_low.go\<close>, \<^verbatim>\<open>proxy_tester\<close> and the choice of the mode in
    \<^verbatim>\<open>worker_transfer/main.go\<close>: programs of input and output only.
\<close>

end
